theory Spec2Isabelle
  imports Main "HOL-Library.Word" "HOL-Library.AList" "HOL-Library.Char_ord"
    "HOL-Library.List_Lexorder"
begin

unbundle bit_operations_syntax

section \<open>Go strings and the library functions the snippet store uses\<close>

text \<open>
  A Go string is a sequence of bytes, so it is a \<^typ>\<open>string\<close> here (a list of 8-bit
  characters). \<open>byteval\<close> reads one byte as a number.
\<close>

definition byteval :: "char \<Rightarrow> int" where
  "byteval c = int (of_char c)"

text \<open>
  \<open>for _, r := range input\<close> walks a string rune by rune. The Go runtime decodes UTF-8
  as below (\<open>decoderune\<close> in \<open>runtime/utf8.go\<close>): a byte below \<open>0x80\<close> is its own
  rune; a well-formed, shortest-form 2, 3 or 4 byte sequence is one rune; anything else
  yields \<open>RuneError\<close> (U+FFFD) and advances one byte. The result is the rune and the number
  of bytes consumed.
\<close>

definition RuneError :: int where
  "RuneError = 0xFFFD"

definition contb :: "char \<Rightarrow> bool" where
  "contb c = (0x80 \<le> byteval c \<and> byteval c \<le> 0xBF)"

fun decoderune :: "string \<Rightarrow> int \<times> nat" where
  "decoderune [] = (RuneError, 1)"
| "decoderune (c0 # cs) =
     (let b0 = byteval c0 in
      if b0 < 0x80 then (b0, 1)
      else if 0xC0 \<le> b0 \<and> b0 < 0xE0 then
        (case cs of
           c1 # _ \<Rightarrow>
             if contb c1 then
               (let r = push_bit 6 (b0 AND 0x1F) OR (byteval c1 AND 0x3F)
                in if 0x7F < r then (r, 2) else (RuneError, 1))
             else (RuneError, 1)
         | _ \<Rightarrow> (RuneError, 1))
      else if 0xE0 \<le> b0 \<and> b0 < 0xF0 then
        (case cs of
           c1 # c2 # _ \<Rightarrow>
             if contb c1 \<and> contb c2 then
               (let r = push_bit 12 (b0 AND 0x0F) OR push_bit 6 (byteval c1 AND 0x3F)
                          OR (byteval c2 AND 0x3F)
                in if 0x7FF < r \<and> \<not> (0xD800 \<le> r \<and> r \<le> 0xDFFF) then (r, 3)
                   else (RuneError, 1))
             else (RuneError, 1)
         | _ \<Rightarrow> (RuneError, 1))
      else if 0xF0 \<le> b0 \<and> b0 < 0xF8 then
        (case cs of
           c1 # c2 # c3 # _ \<Rightarrow>
             if contb c1 \<and> contb c2 \<and> contb c3 then
               (let r = push_bit 18 (b0 AND 0x07) OR push_bit 12 (byteval c1 AND 0x3F)
                          OR push_bit 6 (byteval c2 AND 0x3F) OR (byteval c3 AND 0x3F)
                in if 0xFFFF < r \<and> r \<le> 0x10FFFF then (r, 4) else (RuneError, 1))
             else (RuneError, 1)
         | _ \<Rightarrow> (RuneError, 1))
      else (RuneError, 1))"

function runes :: "string \<Rightarrow> int list" where
  "runes s = (if s = [] then []
              else (let rw = decoderune s in fst rw # runes (drop (snd rw) s)))"
  by pat_completeness auto
termination
proof (relation "measure length")
  show "wf (measure length)" by simp
next
  fix s :: string and rw
  assume "s \<noteq> []" and "rw = decoderune s"
  moreover have "1 \<le> snd (decoderune s)"
    by (cases s) (auto simp: Let_def split: list.splits)
  ultimately have "0 < snd rw" and "0 < length s"
    by auto
  then show "(drop (snd rw) s, s) \<in> measure length"
    by simp
qed

declare runes.simps [simp del]

text \<open>\<open>strings.Join(elems, sep)\<close>.\<close>

fun strings_Join :: "string list \<Rightarrow> string \<Rightarrow> string" where
  "strings_Join [] sep = []"
| "strings_Join [x] sep = x"
| "strings_Join (x # y # ys) sep = x @ sep @ strings_Join (y # ys) sep"

text \<open>
  \<open>strings.HasSuffix\<close>, \<open>strings.TrimSuffix\<close>, \<open>strings.HasPrefix\<close> and
  \<open>strings.Contains\<close> on byte strings.
\<close>

definition strings_HasSuffix :: "string \<Rightarrow> string \<Rightarrow> bool" where
  "strings_HasSuffix s suf =
     (length suf \<le> length s \<and> drop (length s - length suf) s = suf)"

definition strings_TrimSuffix :: "string \<Rightarrow> string \<Rightarrow> string" where
  "strings_TrimSuffix s suf =
     (if strings_HasSuffix s suf then take (length s - length suf) s else s)"

definition strings_HasPrefix :: "string \<Rightarrow> string \<Rightarrow> bool" where
  "strings_HasPrefix s pre = (length pre \<le> length s \<and> take (length pre) s = pre)"

fun strings_Contains :: "string \<Rightarrow> string \<Rightarrow> bool" where
  "strings_Contains [] substr = (substr = [])"
| "strings_Contains (c # cs) substr =
     (strings_HasPrefix (c # cs) substr \<or> strings_Contains cs substr)"

text \<open>
  \<open>strings.ToLower\<close>: a string of ASCII bytes only is lower-cased byte by byte (and
  returned as it is when it has no upper-case letter); any other string goes through
  \<open>strings.Map(unicode.ToLower, s)\<close>, whose Unicode tables are not part of this
  development and are taken as the parameter \<open>mapLower\<close>.
\<close>

definition asciiLower :: "char \<Rightarrow> char" where
  "asciiLower c =
     (if 0x41 \<le> byteval c \<and> byteval c \<le> 0x5A then char_of (byteval c + 0x20) else c)"

definition strings_ToLower :: "(string \<Rightarrow> string) \<Rightarrow> string \<Rightarrow> string" where
  "strings_ToLower mapLower s =
     (if list_all (\<lambda>c. byteval c < 0x80) s then
        (if list_ex (\<lambda>c. 0x41 \<le> byteval c \<and> byteval c \<le> 0x5A) s then map asciiLower s
         else s)
      else mapLower s)"

text \<open>
  \<open>strings.Split(s, "/")\<close> and the two functions of \<open>path/filepath\<close> that are used
  (Unix flavour). \<open>filepath.Base\<close> returns \<open>"."\<close> for the empty path, strips trailing
  separators, keeps what follows the last separator, and returns \<open>"/"\<close> when nothing
  is left.
\<close>

fun splitSep :: "string \<Rightarrow> string list" where
  "splitSep [] = [[]]"
| "splitSep (c # cs) =
     (if c = CHR ''/'' then [] # splitSep cs
      else (case splitSep cs of p # ps \<Rightarrow> (c # p) # ps | [] \<Rightarrow> [[c]]))"

definition filepath_Base :: "string \<Rightarrow> string" where
  "filepath_Base path =
     (if path = [] then ''.''
      else
        (let path = rev (dropWhile (\<lambda>c. c = CHR ''/'') (rev path));
             path = rev (takeWhile (\<lambda>c. c \<noteq> CHR ''/'') (rev path))
         in if path = [] then ''/'' else path))"

text \<open>
  \<open>filepath.Join(root, elems...)\<close> is modelled relative to the snippets root: the
  result is the list of path components below the root, after \<open>Clean\<close> has dropped
  empty and \<open>.\<close> components and resolved \<open>..\<close>. \<open>None\<close> says that the path leaves
  the root directory. The paths that \<open>saveSnippet\<close> and \<open>deleteSnippet\<close> join are made
  of names of directory entries and of a file name ending in \<open>.sql\<close>, none of which is
  \<open>..\<close>, so that they stay below the root; the model answers \<open>EACCES\<close> for a path that
  does not.
\<close>

fun cleanRel :: "string list \<Rightarrow> string list \<Rightarrow> string list option" where
  "cleanRel acc [] = Some (rev acc)"
| "cleanRel acc (c # cs) =
     (if c = [] \<or> c = ''.'' then cleanRel acc cs
      else if c = ''..'' then (case acc of [] \<Rightarrow> None | _ # acc' \<Rightarrow> cleanRel acc' cs)
      else cleanRel (c # acc) cs)"

definition filepath_Join :: "string list \<Rightarrow> string list option" where
  "filepath_Join elems = cleanRel [] (concat (map splitSep elems))"

section \<open>The identity generator (\<open>simpleHash\<close>, \<open>deterministicUUID\<close>)\<close>

text \<open>
  \<open>simpleHash\<close> works on an \<open>int32\<close>: \<open>hash = (hash << 5) - hash + int32(r)\<close> for every
  rune, then \<open>if hash < 0 { hash = -hash }\<close>. All of it wraps around, also the negation
  (the most negative value stays as it is).
\<close>

type_synonym int32 = "32 word"
type_synonym uint32 = "32 word"
type_synonym byte = "8 word"

definition hashStep :: "int \<Rightarrow> int32 \<Rightarrow> int32" where
  "hashStep r hash = push_bit 5 hash - hash + word_of_int r"

definition simpleHash :: "string \<Rightarrow> int32" where
  "simpleHash input =
     (let hash = fold hashStep (runes input) 0
      in if hash <s 0 then - hash else hash)"

text \<open>
  \<open>uuid.NewString()\<close> draws a fresh random identifier. The generator is modelled as the
  sequence of the identifiers it is going to hand out; taking one advances it.
\<close>

type_synonym rng = "nat \<Rightarrow> string"

definition uuid_NewString :: "rng \<Rightarrow> string \<times> rng" where
  "uuid_NewString g = (g 0, \<lambda>n. g (Suc n))"

text \<open>
  \<open>hex.Encode\<close> and \<open>UUID.String\<close> (github.com/google/uuid): two lower-case hex digits
  per byte, in groups of 4, 2, 2, 2 and 6 bytes separated by dashes.
\<close>

definition hextable :: string where
  "hextable = ''0123456789abcdef''"

definition hex_Encode :: "byte list \<Rightarrow> string" where
  "hex_Encode bs =
     concat (map (\<lambda>v. [hextable ! unat (drop_bit 4 v), hextable ! unat (v AND 0x0f)]) bs)"

definition uuid_String :: "byte list \<Rightarrow> string" where
  "uuid_String u =
     hex_Encode (take 4 u) @ ''-'' @ hex_Encode (take 2 (drop 4 u)) @ ''-'' @
     hex_Encode (take 2 (drop 6 u)) @ ''-'' @ hex_Encode (take 2 (drop 8 u)) @ ''-'' @
     hex_Encode (drop 10 u)"

text \<open>
  The loop \<open>for i := 0; i < 16; i++\<close> of \<open>deterministicUUID\<close>: the seed is a \<open>uint32\<close>,
  each round computes \<open>seed = (seed*1103515245 + 12345) & 0x7fffffff\<close> and stores
  \<open>byte(seed >> 16)\<close>.
\<close>

definition lcgStep :: "uint32 \<Rightarrow> uint32" where
  "lcgStep seed = (seed * 1103515245 + 12345) AND 0x7fffffff"

fun lcgBytes :: "nat \<Rightarrow> uint32 \<Rightarrow> byte list" where
  "lcgBytes 0 seed = []"
| "lcgBytes (Suc n) seed = (let seed' = lcgStep seed in ucast (drop_bit 16 seed') # lcgBytes n seed')"

definition deterministicUUID :: "string list \<Rightarrow> rng \<Rightarrow> string \<times> rng" where
  "deterministicUUID inputs g =
     (let cleaned = filter (\<lambda>input. input \<noteq> []) inputs;
          input = strings_Join cleaned ''_''
      in if input = [] then uuid_NewString g
         else
           (let hash = simpleHash input;
                bytes = lcgBytes 16 hash;
                bytes = bytes[6 := (bytes ! 6 AND 0x0f) OR 0x40];
                bytes = bytes[8 := (bytes ! 8 AND 0x3f) OR 0x80]
            in (uuid_String bytes, g)))"

subsection \<open>The identity algorithm as the specification words it\<close>

text \<open>
  The specification describes the generator over the integers: a rolling hash
  \<open>h = h*31 + codepoint(c)\<close> with signed 32-bit wrap-around and an absolute value at the
  end; a linear congruential generator \<open>seed = (seed*1103515245 + 12345) mod 2^31\<close> run
  16 times, each round giving the byte \<open>(seed >> 16) & 0xFF\<close>; byte 6 with its high
  nibble set to \<open>0100\<close>, byte 8 with its two high bits set to \<open>10\<close>; and the usual
  dashed rendering. These definitions follow that text, not the code.
\<close>

definition wrap_s32 :: "int \<Rightarrow> int" where
  "wrap_s32 x = (x + 2 ^ 31) mod 2 ^ 32 - 2 ^ 31"

definition spec_hash :: "int list \<Rightarrow> int" where
  "spec_hash cps = \<bar>fold (\<lambda>c h. wrap_s32 (h * 31 + c)) cps 0\<bar>"

definition spec_lcg :: "int \<Rightarrow> int" where
  "spec_lcg seed = (seed * 1103515245 + 12345) mod 2 ^ 31"

fun spec_bytes :: "nat \<Rightarrow> int \<Rightarrow> int list" where
  "spec_bytes 0 seed = []"
| "spec_bytes (Suc n) seed =
     (let seed' = spec_lcg seed in (seed' div 2 ^ 16) mod 256 # spec_bytes n seed')"

definition spec_patch :: "int list \<Rightarrow> int list" where
  "spec_patch bs = (bs[6 := 4 * 16 + bs ! 6 mod 16])[8 := 2 * 64 + bs ! 8 mod 64]"

definition spec_hex2 :: "int \<Rightarrow> string" where
  "spec_hex2 b = [''0123456789abcdef'' ! nat (b div 16), ''0123456789abcdef'' ! nat (b mod 16)]"

definition spec_format :: "int list \<Rightarrow> string" where
  "spec_format bs =
     concat (map spec_hex2 (take 4 bs)) @ ''-'' @
     concat (map spec_hex2 (take 2 (drop 4 bs))) @ ''-'' @
     concat (map spec_hex2 (take 2 (drop 6 bs))) @ ''-'' @
     concat (map spec_hex2 (take 2 (drop 8 bs))) @ ''-'' @
     concat (map spec_hex2 (drop 10 bs))"

definition spec_identify :: "string list \<Rightarrow> string" where
  "spec_identify parts =
     spec_format (spec_patch (spec_bytes 16
       (spec_hash (runes (strings_Join (filter (\<lambda>p. p \<noteq> []) parts) ''_'')))))"

section \<open>The directory tree\<close>

text \<open>
  The snippets root, when it exists, is a directory on disk. A directory is an association list from entry
  names to nodes (a name is a single path component, and a directory holds it at most
  once); a file has a content and a modification time, a directory a modification time
  and its entries. Times are numbers, \<open>t.Before(u)\<close> is \<open>t < u\<close>.
\<close>

datatype node =
    FileNode string nat
  | DirNode nat "(string \<times> node) list"

type_synonym dir = "(string \<times> node) list"

datatype oserror = ENOENT | ENOTDIR | EISDIR | ENOTEMPTY | EACCES

text \<open>\<open>os.ReadDir\<close> returns the entries of a directory sorted by file name.\<close>

definition os_ReadDir :: "dir \<Rightarrow> (string \<times> node) list" where
  "os_ReadDir d = sort_key fst d"

text \<open>
  \<open>os.Stat\<close>, \<open>os.WriteFile\<close>, \<open>os.Remove\<close> and \<open>os.MkdirAll\<close> on a path below the
  root, at the time \<open>now\<close>. Creating or removing an entry stamps the directory that holds
  it; overwriting a file stamps the file only. \<open>os.Remove\<close> removes a file or an empty
  directory.
\<close>

fun os_Stat :: "dir \<Rightarrow> string list \<Rightarrow> oserror + node" where
  "os_Stat d [] = Inl ENOENT"
| "os_Stat d [c] = (case map_of d c of None \<Rightarrow> Inl ENOENT | Some x \<Rightarrow> Inr x)"
| "os_Stat d (c # c' # cs) =
     (case map_of d c of
        None \<Rightarrow> Inl ENOENT
      | Some (FileNode _ _) \<Rightarrow> Inl ENOTDIR
      | Some (DirNode _ kids) \<Rightarrow> os_Stat kids (c' # cs))"

fun os_WriteFile :: "dir \<Rightarrow> nat \<Rightarrow> string list \<Rightarrow> string \<Rightarrow> oserror + dir" where
  "os_WriteFile d now [] content = Inl EISDIR"
| "os_WriteFile d now [c] content =
     (case map_of d c of
        Some (DirNode _ _) \<Rightarrow> Inl EISDIR
      | _ \<Rightarrow> Inr (AList.update c (FileNode content now) d))"
| "os_WriteFile d now (c # c' # cs) content =
     (case map_of d c of
        None \<Rightarrow> Inl ENOENT
      | Some (FileNode _ _) \<Rightarrow> Inl ENOTDIR
      | Some (DirNode mt kids) \<Rightarrow>
          (case os_WriteFile kids now (c' # cs) content of
             Inl e \<Rightarrow> Inl e
           | Inr kids' \<Rightarrow>
               Inr (AList.update c
                     (DirNode (if cs = [] \<and> map_of kids c' = None then now else mt) kids') d)))"

fun os_Remove :: "dir \<Rightarrow> nat \<Rightarrow> string list \<Rightarrow> oserror + dir" where
  "os_Remove d now [] = Inl ENOTEMPTY"
| "os_Remove d now [c] =
     (case map_of d c of
        None \<Rightarrow> Inl ENOENT
      | Some (FileNode _ _) \<Rightarrow> Inr (AList.delete c d)
      | Some (DirNode _ kids) \<Rightarrow> if kids = [] then Inr (AList.delete c d) else Inl ENOTEMPTY)"
| "os_Remove d now (c # c' # cs) =
     (case map_of d c of
        None \<Rightarrow> Inl ENOENT
      | Some (FileNode _ _) \<Rightarrow> Inl ENOTDIR
      | Some (DirNode mt kids) \<Rightarrow>
          (case os_Remove kids now (c' # cs) of
             Inl e \<Rightarrow> Inl e
           | Inr kids' \<Rightarrow> Inr (AList.update c (DirNode (if cs = [] then now else mt) kids') d)))"

fun os_MkdirAll :: "dir \<Rightarrow> nat \<Rightarrow> string list \<Rightarrow> oserror + dir" where
  "os_MkdirAll d now [] = Inr d"
| "os_MkdirAll d now (c # cs) =
     (case map_of d c of
        None \<Rightarrow>
          (case os_MkdirAll [] now cs of
             Inl e \<Rightarrow> Inl e
           | Inr kids' \<Rightarrow> Inr (AList.update c (DirNode now kids') d))
      | Some (FileNode _ _) \<Rightarrow> Inl ENOTDIR
      | Some (DirNode mt kids) \<Rightarrow>
          (case os_MkdirAll kids now cs of
             Inl e \<Rightarrow> Inl e
           | Inr kids' \<Rightarrow>
               Inr (AList.update c
                     (DirNode (case cs of c' # _ \<Rightarrow> if map_of kids c' = None then now else mt
                               | [] \<Rightarrow> mt) kids') d)))"

section \<open>The snippet store (\<open>internal/api/snippets.go\<close>)\<close>

text \<open>
  The errors of the package, and an operating-system error passed through. The entry
  type is one of the two strings \<open>"folder"\<close> and \<open>"file"\<close> in the source.
\<close>

datatype error =
    errSnippetNotFound
  | errSnippetAlreadyExists
  | errSnippetExistsInTargetFolder
  | errFolderNotFound
  | errFolderNameRequired
  | errFolderAlreadyExists
  | errLimitExceedsMax
  | errSnippetsFolderEnvNotSet
  | errOS oserror

datatype entryType = TFolder | TFile

record snippetContent =
  SQL :: string
  ContentID :: string
  SchemaVersion :: string

record snippetUser =
  ID :: int
  Username :: string

record filesystemEntry =
  ID :: string
  Name :: string
  Type :: entryType
  FolderID :: "string option"
  Content :: string
  CreatedAt :: nat

text \<open>
  \<open>InsertedAt\<close> and \<open>UpdatedAt\<close> hold the time itself; the source stores its RFC 3339
  rendering.
\<close>

record snippet =
  ID :: string
  InsertedAt :: nat
  UpdatedAt :: nat
  Type :: string
  Name :: string
  Description :: string
  Favorite :: bool
  Content :: snippetContent
  Visibility :: string
  ProjectID :: int
  FolderID :: "string option"
  OwnerID :: int
  Owner :: snippetUser
  UpdatedBy :: snippetUser

record folder =
  ID :: string
  Name :: string
  OwnerID :: int
  ParentID :: "string option"
  ProjectID :: int

text \<open>
  What the configured root path is on disk: nothing, something that is not a directory,
  or a directory with its content. \<open>os.MkdirAll\<close> on the root path creates the directory
  when there is nothing, changes nothing when the directory exists, and fails with
  \<open>ENOTDIR\<close> when the path is taken by a file. What is above the root is not part of the
  state: the parent directories can be created, and permissions never stand in the way
  (here as in the operations below the root).
\<close>

datatype rootState = RootMissing | RootFile | RootDir dir

fun os_MkdirAll_root :: "rootState \<Rightarrow> oserror + rootState" where
  "os_MkdirAll_root RootMissing = Inr (RootDir [])"
| "os_MkdirAll_root RootFile = Inl ENOTDIR"
| "os_MkdirAll_root (RootDir t) = Inr (RootDir t)"

text \<open>
  The state every operation works on: the configured root path (\<open>api.cfg.SnippetsFolder\<close>),
  what is at that path on disk, the clock, and the generator behind \<open>uuid.NewString\<close>.
  \<open>tree\<close> is the content of the root directory (nothing when there is no directory).
\<close>

record world =
  SnippetsFolder :: string
  disk :: rootState
  now :: nat
  uuids :: rng

definition tree :: "world \<Rightarrow> dir" where
  "tree w = (case disk w of RootDir t \<Rightarrow> t | _ \<Rightarrow> [])"

text \<open>
  \<open>snippetsDir\<close> returns the root path, after \<open>os.MkdirAll\<close> has made sure that the
  directory exists; it returns the state of the disk with it.
\<close>

definition snippetsDir :: "world \<Rightarrow> (error + string) \<times> world" where
  "snippetsDir w =
     (if SnippetsFolder w = [] then (Inl errSnippetsFolderEnvNotSet, w)
      else
        (case os_MkdirAll_root (disk w) of
           Inl e \<Rightarrow> (Inl (errOS e), w)
         | Inr r \<Rightarrow> (Inr (SnippetsFolder w), w\<lparr>disk := r\<rparr>)))"

subsection \<open>Scanning the tree: \<open>getFilesystemEntries\<close>\<close>

text \<open>
  \<open>walk\<close> is the function handed to \<open>filepath.WalkDir\<close>, for a path other than the
  root: \<open>parts\<close> are the components of the path relative to the root, \<open>dname\<close> is
  \<open>d.Name()\<close>. It returns the entries it appends and whether it answers
  \<open>filepath.SkipDir\<close>. Reading a file and taking its \<open>Info\<close> succeed.
\<close>

definition walk ::
  "string list \<Rightarrow> string \<Rightarrow> node \<Rightarrow> rng \<Rightarrow> (filesystemEntry list \<times> bool) \<times> rng" where
  "walk parts dname d g =
     (case d of
        DirNode modTime _ \<Rightarrow>
          if length parts > 1 then (([], True), g)
          else
            (case deterministicUUID [dname] g of
               (folderID, g1) \<Rightarrow>
                 (([\<lparr>filesystemEntry.ID = folderID, Name = dname, Type = TFolder,
                     FolderID = None, Content = [], CreatedAt = modTime\<rparr>], False), g1))
      | FileNode contentBytes modTime \<Rightarrow>
          if dname = ''.DS_Store'' \<or> \<not> strings_HasSuffix dname ''.sql'' then (([], False), g)
          else
            (case (if length parts = 1 then (None, strings_TrimSuffix dname ''.sql'', g)
                   else
                     (case deterministicUUID [hd parts] g of
                        (id', g1) \<Rightarrow> (Some id', strings_TrimSuffix (last parts) ''.sql'', g1))) of
               (folderID, name, g1) \<Rightarrow>
                 (let idInputs =
                        (case folderID of
                           None \<Rightarrow> [name @ ''.sql'']
                         | Some f \<Rightarrow> [f, name @ ''.sql''])
                  in case deterministicUUID idInputs g1 of
                       (id', g2) \<Rightarrow>
                         (([\<lparr>filesystemEntry.ID = id', Name = name, Type = TFile,
                             FolderID = folderID, Content = contentBytes,
                             CreatedAt = modTime\<rparr>], False), g2))))"

text \<open>
  \<open>filepath.WalkDir\<close> visits the entries of a directory in the order of \<open>os.ReadDir\<close>
  and descends into a directory unless \<open>walk\<close> answered \<open>SkipDir\<close> for it. \<open>walk\<close>
  answers \<open>SkipDir\<close> for every directory below a top-level one, so the traversal has two
  levels: \<open>walkFolder\<close> runs over the entries of the top-level directory \<open>folderName\<close>,
  \<open>walkDir\<close> visits one entry of the root and what is below it, \<open>walkRoot\<close> runs over
  the entries of the root.
\<close>

fun walkFolder :: "string \<Rightarrow> (string \<times> node) list \<Rightarrow> rng \<Rightarrow> filesystemEntry list \<times> rng" where
  "walkFolder folderName [] g = ([], g)"
| "walkFolder folderName ((dname, d) # rest) g =
     (case walk [folderName, dname] dname d g of
        ((es, skip), g1) \<Rightarrow>
          (case walkFolder folderName rest g1 of (es', g2) \<Rightarrow> (es @ es', g2)))"

definition walkDir :: "string \<Rightarrow> node \<Rightarrow> rng \<Rightarrow> filesystemEntry list \<times> rng" where
  "walkDir dname d g =
     (case walk [dname] dname d g of
        ((es, skip), g1) \<Rightarrow>
          (case d of
             DirNode _ kids \<Rightarrow>
               if skip then (es, g1)
               else (case walkFolder dname (os_ReadDir kids) g1 of (sub, g2) \<Rightarrow> (es @ sub, g2))
           | FileNode _ _ \<Rightarrow> (es, g1)))"

fun walkRoot :: "(string \<times> node) list \<Rightarrow> rng \<Rightarrow> filesystemEntry list \<times> rng" where
  "walkRoot [] g = ([], g)"
| "walkRoot ((dname, d) # rest) g =
     (case walkDir dname d g of
        (es, g1) \<Rightarrow> (case walkRoot rest g1 of (es', g2) \<Rightarrow> (es @ es', g2)))"

definition getFilesystemEntries :: "world \<Rightarrow> (error + filesystemEntry list) \<times> world" where
  "getFilesystemEntries w =
     (case snippetsDir w of
        (Inl err, w0) \<Rightarrow> (Inl err, w0)
      | (Inr root, w0) \<Rightarrow>
          (case walkRoot (os_ReadDir (tree w0)) (uuids w0) of
             (entries, g) \<Rightarrow> (Inr entries, w0\<lparr>uuids := g\<rparr>)))"

subsection \<open>\<open>buildSnippet\<close>, \<open>sanitizeName\<close>, \<open>matchesFolder\<close>\<close>

definition buildSnippet ::
  "string \<Rightarrow> string \<Rightarrow> string option \<Rightarrow> nat \<Rightarrow> rng \<Rightarrow> snippet \<times> rng" where
  "buildSnippet name content folderID createdAt g =
     (let idInputs =
            (case folderID of
               None \<Rightarrow> [name @ ''.sql'']
             | Some f \<Rightarrow> [f, name @ ''.sql''])
      in case deterministicUUID idInputs g of
           (id', g1) \<Rightarrow>
             (case uuid_NewString g1 of
                (contentID, g2) \<Rightarrow>
                  (\<lparr>snippet.ID = id', InsertedAt = createdAt, UpdatedAt = createdAt,
                    Type = ''sql'', Name = name, Description = [], Favorite = False,
                    Content = \<lparr>SQL = content, ContentID = contentID,
                                SchemaVersion = ''1.0''\<rparr>,
                    Visibility = ''user'', ProjectID = 1, FolderID = folderID, OwnerID = 1,
                    Owner = \<lparr>snippetUser.ID = 1, Username = ''johndoe''\<rparr>,
                    UpdatedBy = \<lparr>snippetUser.ID = 1, Username = ''johndoe''\<rparr>\<rparr>, g2)))"

definition sanitizeName :: "string \<Rightarrow> string" where
  "sanitizeName name =
     (let base = filepath_Base name
      in if base \<noteq> name \<or> strings_Contains name [CHR 0x00] then [] else base)"

definition matchesFolder :: "string option \<Rightarrow> string option \<Rightarrow> bool" where
  "matchesFolder fileFolder targetFolder =
     (if fileFolder = None \<and> targetFolder = None then True
      else if fileFolder \<noteq> None \<and> targetFolder \<noteq> None \<and> the fileFolder = the targetFolder
      then True
      else False)"

subsection \<open>\<open>getSnippets\<close>\<close>

text \<open>
  The stages of \<open>getSnippets\<close>, in the order of the source: keep the file entries;
  filter by search term or by folder; sort stably by lower-cased name or by time
  (\<open>sort.SliceStable\<close>; \<^const>\<open>sort_key\<close> is the stable sort by a key) and reverse for
  \<open>"desc"\<close>; skip to the cursor; check the limit; cut the page; build the snippets.
\<close>

definition filterEntries ::
  "(string \<Rightarrow> string) \<Rightarrow> string \<Rightarrow> string option \<Rightarrow> filesystemEntry list \<Rightarrow> filesystemEntry list" where
  "filterEntries mapLower searchTerm folderID files =
     (if searchTerm \<noteq> [] then
        (let lower = strings_ToLower mapLower searchTerm
         in filter (\<lambda>file. strings_Contains
                      (strings_ToLower mapLower (filesystemEntry.Name file)) lower) files)
      else filter (\<lambda>file. matchesFolder (filesystemEntry.FolderID file) folderID) files)"

definition sortEntries ::
  "(string \<Rightarrow> string) \<Rightarrow> string \<Rightarrow> string \<Rightarrow> filesystemEntry list \<Rightarrow> filesystemEntry list" where
  "sortEntries mapLower sortField sortOrder filtered =
     (let sorted =
            (if sortField = ''name''
             then sort_key (\<lambda>e. strings_ToLower mapLower (filesystemEntry.Name e)) filtered
             else sort_key filesystemEntry.CreatedAt filtered)
      in if sortOrder = ''desc'' then rev sorted else sorted)"

text \<open>
  The loop \<open>for idx, entry := range filtered\<close> that looks for the cursor: \<open>start\<close> is one
  past the first entry with that id, and stays 0 when there is none.
\<close>

fun cursorLoop :: "string \<Rightarrow> filesystemEntry list \<Rightarrow> nat \<Rightarrow> nat" where
  "cursorLoop cursor [] idx = 0"
| "cursorLoop cursor (entry # rest) idx =
     (if filesystemEntry.ID entry = cursor then idx + 1 else cursorLoop cursor rest (idx + 1))"

definition cursorStart :: "string \<Rightarrow> filesystemEntry list \<Rightarrow> nat" where
  "cursorStart cursor filtered = (if cursor \<noteq> [] then cursorLoop cursor filtered 0 else 0)"

fun buildSnippets :: "filesystemEntry list \<Rightarrow> rng \<Rightarrow> snippet list \<times> rng" where
  "buildSnippets [] g = ([], g)"
| "buildSnippets (entry # rest) g =
     (case buildSnippet (filesystemEntry.Name entry) (filesystemEntry.Content entry)
             (filesystemEntry.FolderID entry) (filesystemEntry.CreatedAt entry) g of
        (sn, g1) \<Rightarrow> (case buildSnippets rest g1 of (sns, g2) \<Rightarrow> (sn # sns, g2)))"

definition getSnippets ::
  "(string \<Rightarrow> string) \<Rightarrow> string \<Rightarrow> int \<Rightarrow> string \<Rightarrow> string \<Rightarrow> string \<Rightarrow> string option \<Rightarrow> world
     \<Rightarrow> (error + string \<times> snippet list) \<times> world" where
  "getSnippets mapLower searchTerm limit cursor sortField sortOrder folderID w =
     (case getFilesystemEntries w of
        (Inl err, w1) \<Rightarrow> (Inl err, w1)
      | (Inr entries, w1) \<Rightarrow>
          (let files = filter (\<lambda>entry. filesystemEntry.Type entry = TFile) entries;
               filtered = filterEntries mapLower searchTerm folderID files;
               filtered = sortEntries mapLower sortField sortOrder filtered;
               start = cursorStart cursor filtered;
               filtered = drop start filtered;
               limit = (if limit \<le> 0 then 100 else limit)
           in if limit > 1000 then (Inl errLimitExceedsMax, w1)
              else
                (let nextCursor =
                       (if int (length filtered) > limit
                        then filesystemEntry.ID (filtered ! (nat limit - 1)) else []);
                     filtered =
                       (if int (length filtered) > limit then take (nat limit) filtered
                        else filtered)
                 in case buildSnippets filtered (uuids w1) of
                      (snippets, g) \<Rightarrow> (Inr (nextCursor, snippets), w1\<lparr>uuids := g\<rparr>))))"

subsection \<open>\<open>saveSnippet\<close>, \<open>deleteSnippet\<close>, \<open>updateSnippet\<close>\<close>

definition isFile :: "string \<Rightarrow> filesystemEntry \<Rightarrow> bool" where
  "isFile i entry = (filesystemEntry.ID entry = i \<and> filesystemEntry.Type entry = TFile)"

definition isFolder :: "string \<Rightarrow> filesystemEntry \<Rightarrow> bool" where
  "isFolder i entry = (filesystemEntry.ID entry = i \<and> filesystemEntry.Type entry = TFolder)"

definition saveSnippet :: "snippet \<Rightarrow> world \<Rightarrow> (error + snippet) \<times> world" where
  "saveSnippet newSnippet w =
     (case getFilesystemEntries w of
        (Inl err, w1) \<Rightarrow> (Inl err, w1)
      | (Inr entries, w1) \<Rightarrow>
          if list_ex (isFile (snippet.ID newSnippet)) entries
          then (Inl errSnippetAlreadyExists, w1)
          else if snippet.FolderID newSnippet \<noteq> None \<and>
                  \<not> list_ex (isFolder (the (snippet.FolderID newSnippet))) entries
          then (Inl errFolderNotFound, w1)
          else
            (let name = sanitizeName (snippet.Name newSnippet);
                 content = SQL (snippet.Content newSnippet)
             in case snippetsDir w1 of
                  (Inl err, w1) \<Rightarrow> (Inl err, w1)
                | (Inr root, w1) \<Rightarrow>
                    (let folderPath =
                           (case snippet.FolderID newSnippet of
                              None \<Rightarrow> []
                            | Some f \<Rightarrow>
                                (case find (isFolder f) entries of
                                   Some entry \<Rightarrow> [filesystemEntry.Name entry]
                                 | None \<Rightarrow> []))
                     in case filepath_Join (folderPath @ [name @ ''.sql'']) of
                          None \<Rightarrow> (Inl (errOS EACCES), w1)
                        | Some filePath \<Rightarrow>
                            (case os_WriteFile (tree w1) (now w1) filePath content of
                               Inl e \<Rightarrow> (Inl (errOS e), w1)
                             | Inr t \<Rightarrow>
                                 (let w2 = w1\<lparr>disk := RootDir t\<rparr>
                                  in case os_Stat (tree w2) filePath of
                                       Inl e \<Rightarrow> (Inl (errOS e), w2)
                                     | Inr info \<Rightarrow>
                                         (case buildSnippet name content
                                                 (snippet.FolderID newSnippet)
                                                 (case info of FileNode _ mt \<Rightarrow> mt
                                                  | DirNode mt _ \<Rightarrow> mt) (uuids w2) of
                                            (sn, g) \<Rightarrow> (Inr sn, w2\<lparr>uuids := g\<rparr>)))))))"

text \<open>
  \<open>deleteSnippet\<close> returns the error, or \<open>None\<close> for \<open>nil\<close>. An \<open>os.Remove\<close> that fails
  with \<open>os.ErrNotExist\<close> (\<open>ENOENT\<close>) counts as success.
\<close>

definition deleteSnippet :: "string \<Rightarrow> world \<Rightarrow> error option \<times> world" where
  "deleteSnippet i w =
     (case getFilesystemEntries w of
        (Inl err, w1) \<Rightarrow> (Some err, w1)
      | (Inr entries, w1) \<Rightarrow>
          (case find (isFile i) entries of
             None \<Rightarrow> (Some errSnippetNotFound, w1)
           | Some target \<Rightarrow>
               (case snippetsDir w1 of
                  (Inl err, w1) \<Rightarrow> (Some err, w1)
                | (Inr root, w1) \<Rightarrow>
                    (let filename = filesystemEntry.Name target @ ''.sql'';
                         paths =
                           (case filesystemEntry.FolderID target of
                              None \<Rightarrow> []
                            | Some f \<Rightarrow>
                                map filesystemEntry.Name (filter (isFolder f) entries));
                         paths = paths @ [filename]
                     in case filepath_Join paths of
                          None \<Rightarrow> (Some (errOS EACCES), w1)
                        | Some filePath \<Rightarrow>
                            (case os_Remove (tree w1) (now w1) filePath of
                               Inl e \<Rightarrow> if e = ENOENT then (None, w1) else (Some (errOS e), w1)
                             | Inr t \<Rightarrow> (None, w1\<lparr>disk := RootDir t\<rparr>))))))"

text \<open>
  The \<open>updates\<close> of \<open>updateSnippet\<close> are a decoded JSON object (\<open>map[string]any\<close>): a
  value is \<open>nil\<close>, a string, an object, or of another kind.
\<close>

datatype json = JNull | JString string | JObject "(string \<times> json) list" | JOther

definition updateSnippet ::
  "string \<Rightarrow> (string \<times> json) list \<Rightarrow> world \<Rightarrow> (error + snippet) \<times> world" where
  "updateSnippet i updates w =
     (case getFilesystemEntries w of
        (Inl err, w1) \<Rightarrow> (Inl err, w1)
      | (Inr entries, w1) \<Rightarrow>
          (case find (isFile i) entries of
             None \<Rightarrow> (Inl errSnippetNotFound, w1)
           | Some found \<Rightarrow>
               (let name =
                      (case map_of updates ''name'' of
                         Some (JString updatesName) \<Rightarrow>
                           if updatesName \<noteq> [] then updatesName else filesystemEntry.Name found
                       | _ \<Rightarrow> filesystemEntry.Name found);
                    folderID =
                      (case map_of updates ''folder_id'' of
                         Some JNull \<Rightarrow> None
                       | Some (JString idString) \<Rightarrow> Some idString
                       | _ \<Rightarrow> filesystemEntry.FolderID found);
                    newIDInputs =
                      (case folderID of
                         None \<Rightarrow> [name @ ''.sql'']
                       | Some f \<Rightarrow> [f, name @ ''.sql''])
                in case deterministicUUID newIDInputs (uuids w1) of
                     (newID, g1) \<Rightarrow>
                       (let w2 = w1\<lparr>uuids := g1\<rparr>
                        in if list_ex (\<lambda>entry. filesystemEntry.ID entry = newID \<and>
                                         filesystemEntry.Type entry = TFile \<and>
                                         filesystemEntry.ID entry \<noteq> filesystemEntry.ID found)
                                entries
                           then (Inl errSnippetExistsInTargetFolder, w2)
                           else
                             (let content =
                                    (case map_of updates ''content'' of
                                       Some (JObject updatesContent) \<Rightarrow>
                                         (case map_of updatesContent ''sql'' of
                                            Some (JString sql) \<Rightarrow> sql
                                          | _ \<Rightarrow> filesystemEntry.Content found)
                                     | _ \<Rightarrow> filesystemEntry.Content found)
                              in case deleteSnippet (filesystemEntry.ID found) w2 of
                                   (Some err, w3) \<Rightarrow> (Inl err, w3)
                                 | (None, w3) \<Rightarrow>
                                     (case uuid_NewString (uuids w3) of
                                        (contentID, g2) \<Rightarrow>
                                          saveSnippet
                                            \<lparr>snippet.ID = newID, InsertedAt = 0, UpdatedAt = 0,
                                              Type = [], Name = name, Description = [],
                                              Favorite = False,
                                              Content = \<lparr>SQL = content, ContentID = contentID,
                                                          SchemaVersion = ''1.0''\<rparr>,
                                              Visibility = [], ProjectID = 0,
                                              FolderID = folderID, OwnerID = 0,
                                              Owner = \<lparr>snippetUser.ID = 0, Username = []\<rparr>,
                                              UpdatedBy = \<lparr>snippetUser.ID = 0, Username = []\<rparr>\<rparr>
                                            (w3\<lparr>uuids := g2\<rparr>)))))))"

subsection \<open>\<open>getFolders\<close>, \<open>createFolder\<close>\<close>

definition getFolders :: "string option \<Rightarrow> world \<Rightarrow> (error + folder list) \<times> world" where
  "getFolders folderID w =
     (case getFilesystemEntries w of
        (Inl err, w1) \<Rightarrow> (Inl err, w1)
      | (Inr entries, w1) \<Rightarrow>
          (Inr (map (\<lambda>entry. \<lparr>folder.ID = filesystemEntry.ID entry,
                               Name = filesystemEntry.Name entry, OwnerID = 1,
                               ParentID = None, ProjectID = 1\<rparr>)
                 (filter (\<lambda>entry. filesystemEntry.Type entry = TFolder \<and>
                                   filesystemEntry.FolderID entry = None \<and> folderID = None)
                    entries)), w1))"

text \<open>
  In \<open>createFolder\<close> the error of the scan is dropped (\<open>entries, _ := ...\<close>). A joined
  path that leaves the root can only be the parent of the root, which exists, so that
  \<open>os.MkdirAll\<close> has nothing to do there.
\<close>

definition createFolder :: "string \<Rightarrow> world \<Rightarrow> (error + folder) \<times> world" where
  "createFolder name w =
     (case snippetsDir w of
        (Inl err, w) \<Rightarrow> (Inl err, w)
      | (Inr root, w) \<Rightarrow>
          (let name = sanitizeName name
           in if name = [] then (Inl errFolderNameRequired, w)
              else
                (case getFilesystemEntries w of
                   (r, w1) \<Rightarrow>
                     (let entries = (case r of Inl _ \<Rightarrow> [] | Inr es \<Rightarrow> es)
                      in if list_ex (\<lambda>entry. filesystemEntry.Type entry = TFolder \<and>
                                       filesystemEntry.Name entry = name) entries
                         then (Inl errFolderAlreadyExists, w1)
                         else
                           (case (case filepath_Join [name] of
                                    None \<Rightarrow> Inr (tree w1)
                                  | Some folderPath \<Rightarrow> os_MkdirAll (tree w1) (now w1) folderPath) of
                              Inl e \<Rightarrow> (Inl (errOS e), w1)
                            | Inr t \<Rightarrow>
                                (case deterministicUUID [name] (uuids w1) of
                                   (id', g) \<Rightarrow>
                                     (Inr \<lparr>folder.ID = id', Name = name, OwnerID = 1,
                                           ParentID = None, ProjectID = 1\<rparr>,
                                      w1\<lparr>disk := RootDir t, uuids := g\<rparr>)))))))"


subsection \<open>Notions used in the statements\<close>

text \<open>
  The inputs from which the identifier of a snippet is computed: the source builds this
  list in \<open>walk\<close>, in \<open>buildSnippet\<close> and in \<open>updateSnippet\<close>.
\<close>

definition idInputs :: "string \<Rightarrow> string option \<Rightarrow> string list" where
  "idInputs name folderID =
     (case folderID of None \<Rightarrow> [name @ ''.sql''] | Some f \<Rightarrow> [f, name @ ''.sql''])"

text \<open>
  The filter of a list call in the words of the specification: with a search term, the
  lower-cased name contains the lower-cased term (the folder filter plays no part);
  without one, the folder of the entry equals the filter.
\<close>

definition matchesQuery ::
  "(string \<Rightarrow> string) \<Rightarrow> string \<Rightarrow> string option \<Rightarrow> filesystemEntry \<Rightarrow> bool" where
  "matchesQuery mapLower searchTerm folderFilter e =
     (if searchTerm \<noteq> []
      then strings_Contains (strings_ToLower mapLower (filesystemEntry.Name e))
             (strings_ToLower mapLower searchTerm)
      else filesystemEntry.FolderID e = folderFilter)"

text \<open>
  A directory as a file system holds it: each name at most once, and every name a single
  path component (not empty, not \<open>.\<close> or \<open>..\<close>, without separator). A tree is well
  formed when the root and each top-level directory are.
\<close>

definition plainName :: "string \<Rightarrow> bool" where
  "plainName n = (n \<noteq> [] \<and> n \<noteq> ''.'' \<and> n \<noteq> ''..'' \<and> CHR ''/'' \<notin> set n)"

definition wfDir :: "dir \<Rightarrow> bool" where
  "wfDir d = (distinct (map fst d) \<and> list_all plainName (map fst d))"

definition wfTree :: "dir \<Rightarrow> bool" where
  "wfTree d =
     (wfDir d \<and>
      list_all (\<lambda>x. case x of DirNode _ kids \<Rightarrow> wfDir kids | FileNode _ _ \<Rightarrow> True) (map snd d))"

subsection \<open>Concrete inputs used in the examples\<close>

text \<open>Two generators that hand out different (well-formed) random identifiers.\<close>

definition genA :: rng where
  "genA n = ''6f1c2a9e-3b7d-4c55-9e0a-1d2f3a4b5c6d''"

definition genB :: rng where
  "genB n = ''0a9b8c7d-6e5f-4a3b-8c2d-1e0f9a8b7c6d''"

text \<open>
  In the examples every string is ASCII, so that \<open>strings.ToLower\<close> never reaches
  \<open>strings.Map(unicode.ToLower, s)\<close>; this function stands in its place there.
\<close>

definition asciiOnly :: "string \<Rightarrow> string" where
  "asciiOnly s = s"

text \<open>
  A store with no root configured, a configured store with an empty root, and a configured
  store whose root directory does not exist.
\<close>

definition wUnset :: world where
  "wUnset = \<lparr>SnippetsFolder = [], disk = RootDir [], now = 100, uuids = genA\<rparr>"

definition wEmpty :: world where
  "wEmpty = \<lparr>SnippetsFolder = ''/srv/snippets'', disk = RootDir [], now = 100, uuids = genA\<rparr>"

definition wMissing :: world where
  "wMissing = \<lparr>SnippetsFolder = ''/srv/snippets'', disk = RootMissing, now = 100, uuids = genA\<rparr>"

text \<open>
  A store with one folder \<open>f\<close> that holds \<open>a.sql\<close>, and the file \<open>z.sql\<close> in the root.
\<close>

definition wFolder :: world where
  "wFolder =
     \<lparr>SnippetsFolder = ''/srv/snippets'',
      disk = RootDir [(''f'', DirNode 1 [(''a.sql'', FileNode ''select 1'' 2)]),
              (''z.sql'', FileNode ''select 2'' 3)],
      now = 100, uuids = genA\<rparr>"

text \<open>A store with the two files \<open>a.sql\<close> and \<open>b.sql\<close> in the root.\<close>

definition wTwo :: world where
  "wTwo =
     \<lparr>SnippetsFolder = ''/srv/snippets'',
      disk = RootDir [(''a.sql'', FileNode ''select 1'' 1), (''b.sql'', FileNode ''select 2'' 2)],
      now = 100, uuids = genA\<rparr>"

text \<open>
  Two stores with five snippets in the root. In the second one the names \<open>Aa\<close> and
  \<open>BB\<close> have the same hash, hence the same identifier.
\<close>

definition wFive :: world where
  "wFive =
     \<lparr>SnippetsFolder = ''/srv/snippets'',
      disk = RootDir [(''a.sql'', FileNode ''select 1'' 1), (''b.sql'', FileNode ''select 2'' 2),
              (''c.sql'', FileNode ''select 3'' 3), (''d.sql'', FileNode ''select 4'' 4),
              (''e.sql'', FileNode ''select 5'' 5)],
      now = 100, uuids = genA\<rparr>"

definition wColl :: world where
  "wColl =
     \<lparr>SnippetsFolder = ''/srv/snippets'',
      disk = RootDir [(''Aa.sql'', FileNode ''select 1'' 1), (''BB.sql'', FileNode ''select 2'' 2),
              (''c.sql'', FileNode ''select 3'' 3), (''d.sql'', FileNode ''select 4'' 4),
              (''e.sql'', FileNode ''select 5'' 5)],
      now = 100, uuids = genA\<rparr>"

text \<open>
  A store with two folders whose names have the same hash, hence the same identifier, and
  a snippet in the first of them.
\<close>

definition wTwins :: world where
  "wTwins =
     \<lparr>SnippetsFolder = ''/srv/snippets'',
      disk = RootDir [(''Aa'', DirNode 1 [(''x.sql'', FileNode ''select 1'' 2)]),
              (''BB'', DirNode 3 [])],
      now = 100, uuids = genA\<rparr>"

text \<open>
  A snippet to create whose name is a path out of the root, as the handler builds it from
  a request.
\<close>

definition snTraversal :: snippet where
  "snTraversal =
     \<lparr>snippet.ID = ''4d3f5a0e-9c1b-4e2a-8f7d-6b5a4c3d2e1f'', InsertedAt = 0, UpdatedAt = 0,
       Type = [], Name = ''../../etc/passwd'', Description = [], Favorite = False,
       Content = \<lparr>SQL = ''select 1'', ContentID = [], SchemaVersion = ''1.0''\<rparr>,
       Visibility = [], ProjectID = 0, FolderID = None, OwnerID = 0,
       Owner = \<lparr>snippetUser.ID = 0, Username = []\<rparr>,
       UpdatedBy = \<lparr>snippetUser.ID = 0, Username = []\<rparr>\<rparr>"

section \<open>Properties of the identity generator\<close>

lemma hashStep_sint: "sint (hashStep r h) = wrap_s32 (sint h * 31 + r)"
proof -
  have "push_bit 5 h - h + word_of_int r = (word_of_int (sint h * 31 + r) :: int32)"
    by (simp add: push_bit_eq_mult)
  then have "sint (hashStep r h) = signed_take_bit 31 (sint h * 31 + r)"
    unfolding hashStep_def by (simp only: sint_sbintrunc') simp
  then show ?thesis
    by (simp add: wrap_s32_def signed_take_bit_eq_take_bit_shift take_bit_eq_mod)
qed

lemma fold_hashStep_sint:
  "sint (fold hashStep rs h) = fold (\<lambda>c h. wrap_s32 (h * 31 + c)) rs (sint h)"
  by (induction rs arbitrary: h) (simp_all add: hashStep_sint)

text \<open>
  The negation of \<open>simpleHash\<close> wraps, but read as an unsigned number (which is what
  \<open>uint32(hash)\<close> does) the result is the absolute value, also for \<open>-2^31\<close>.
\<close>

lemma abs_word_uint:
  fixes w :: int32
  shows "uint (if w <s 0 then - w else w) = \<bar>sint w\<bar>"
proof (cases "w <s 0")
  case True
  then have neg: "sint w < 0" by (simp add: word_sless_alt)
  have lo: "- (2 ^ 31) \<le> sint w" using sint_ge [of w] by simp
  have "- w = word_of_int (- sint w)" by simp
  then have "uint (- w) = (- sint w) mod 2 ^ 32"
    by (simp only: uint_word_of_int) simp
  also have "\<dots> = - sint w" using neg lo by simp
  finally show ?thesis using True neg by simp
next
  case False
  then have nn: "0 \<le> sint w" by (simp add: word_sless_alt)
  have "uint w = take_bit 32 (sint w)" using uint_sint [of w] by simp
  also have "\<dots> = sint w" using nn sint_lt [of w] by (simp add: take_bit_int_eq_self)
  finally show ?thesis using False nn by simp
qed

lemma simpleHash_uint: "uint (simpleHash s) = spec_hash (runes s)"
  unfolding simpleHash_def spec_hash_def Let_def
  using abs_word_uint [of "fold hashStep (runes s) 0"] fold_hashStep_sint [of "runes s" 0]
  by simp

lemma lcgStep_uint: "uint (lcgStep s) = spec_lcg (uint s)"
proof -
  have m: "(0x7fffffff :: uint32) = mask 31" by (simp add: mask_eq_exp_minus_1)
  have "uint (lcgStep s) = take_bit 31 (uint (s * 1103515245 + 12345))"
    unfolding lcgStep_def m by (simp add: and_mask_bintr uint_word_of_int take_bit_eq_mod)
  also have "\<dots> = take_bit 31 (take_bit 32 (uint s * 1103515245 + 12345))"
    by (simp add: uint_word_ariths take_bit_eq_mod mod_simps)
  also have "\<dots> = take_bit 31 (uint s * 1103515245 + 12345)"
    by simp
  finally show ?thesis by (simp add: spec_lcg_def take_bit_eq_mod)
qed

lemma byte_uint: "uint (ucast (drop_bit 16 (s::uint32)) :: byte) = (uint s div 2 ^ 16) mod 256"
proof -
  have "take_bit 32 (uint s) = uint s"
    using uint_bounded [of s] by (simp add: take_bit_int_eq_self)
  then have "uint (drop_bit 16 s) = drop_bit 16 (uint s)"
    by (simp only: unsigned_drop_bit_eq) simp
  then show ?thesis
    by (simp only: unsigned_ucast_eq) (simp add: take_bit_eq_mod drop_bit_eq_div)
qed

lemma lcgBytes_uint: "map uint (lcgBytes n s) = spec_bytes n (uint s)"
  by (induction n arbitrary: s) (simp_all add: Let_def lcgStep_uint byte_uint)

lemma length_lcgBytes: "length (lcgBytes n s) = n"
  by (induction n arbitrary: s) (simp_all add: Let_def)

lemma and_or_int:
  fixes x :: int
  assumes "n < m"
  shows "(x AND mask n) OR 2 ^ m = 2 ^ m + x mod 2 ^ n"
proof -
  have "(x AND mask n) AND 2 ^ m = 0"
    by (rule bit_eqI) (use assms in \<open>auto simp: bit_simps\<close>)
  then have "(x AND mask n) + 2 ^ m = (x AND mask n) OR 2 ^ m"
    by (rule disjunctive_add_eq_or)
  then show ?thesis
    by (simp add: take_bit_eq_mask [symmetric] take_bit_eq_mod)
qed

lemma patch6_uint: "uint (((b::byte) AND 0x0f) OR 0x40) = 4 * 16 + uint b mod 16"
proof -
  have "uint ((b AND 0x0f) OR 0x40) = (uint b AND mask 4) OR 2 ^ 6"
    by (simp add: uint_or uint_and mask_eq_exp_minus_1)
  then show ?thesis
    by (simp only: and_or_int) simp
qed

lemma patch8_uint: "uint (((b::byte) AND 0x3f) OR 0x80) = 2 * 64 + uint b mod 64"
proof -
  have "uint ((b AND 0x3f) OR 0x80) = (uint b AND mask 6) OR 2 ^ 7"
    by (simp add: uint_or uint_and mask_eq_exp_minus_1)
  then show ?thesis
    by (simp only: and_or_int) simp
qed

lemma patch_spec:
  fixes bs :: "byte list"
  defines "bs6 \<equiv> bs[6 := (bs ! 6 AND 0x0f) OR 0x40]"
  assumes "length bs = 16"
  shows "map uint (bs6[8 := (bs6 ! 8 AND 0x3f) OR 0x80]) = spec_patch (map uint bs)"
  using assms by (simp add: spec_patch_def map_update patch6_uint patch8_uint)

lemma hex_hi: "unat (drop_bit 4 (v::byte)) = nat (uint v div 16)"
proof -
  have "take_bit 8 (uint v) = uint v"
    using uint_bounded [of v] by (simp add: take_bit_int_eq_self)
  then have "uint (drop_bit 4 v) = drop_bit 4 (uint v)"
    by (simp only: unsigned_drop_bit_eq) simp
  then have "uint (drop_bit 4 v) = uint v div 16"
    by (simp add: drop_bit_eq_div)
  then show ?thesis
    by (metis nat_uint_eq)
qed

lemma hex_lo: "unat ((v::byte) AND 0x0f) = nat (uint v mod 16)"
proof -
  have "uint (v AND 0x0f) = uint v AND mask 4"
    by (simp add: uint_and mask_eq_exp_minus_1)
  then have "uint (v AND 0x0f) = uint v mod 16"
    by (simp add: take_bit_eq_mask [symmetric] take_bit_eq_mod)
  then show ?thesis
    by (metis nat_uint_eq)
qed

lemma hex_Encode_spec: "hex_Encode bs = concat (map spec_hex2 (map uint bs))"
  by (induction bs) (simp_all add: hex_Encode_def spec_hex2_def hextable_def hex_hi hex_lo)

lemma uuid_String_spec: "uuid_String bs = spec_format (map uint bs)"
  by (simp add: uuid_String_def spec_format_def hex_Encode_spec take_map drop_map)

text \<open>
  On an input with a non-empty joined string the generator takes nothing from the random
  source, and its result is the identifier of the specification's algorithm.
\<close>

lemma deterministicUUID_spec:
  assumes "strings_Join (filter (\<lambda>p. p \<noteq> []) p) ''_'' \<noteq> []"
  shows "deterministicUUID p g = (spec_identify p, g)"
proof -
  define input where "input = strings_Join (filter (\<lambda>p. p \<noteq> []) p) ''_''"
  define bs where "bs = lcgBytes 16 (simpleHash input)"
  define bs6 where "bs6 = bs[6 := (bs ! 6 AND 0x0f) OR 0x40]"
  have len: "length bs = 16"
    by (simp add: bs_def length_lcgBytes)
  have "map uint (bs6[8 := (bs6 ! 8 AND 0x3f) OR 0x80]) = spec_patch (map uint bs)"
    unfolding bs6_def by (rule patch_spec [OF len])
  also have "map uint bs = spec_bytes 16 (spec_hash (runes input))"
    by (simp only: bs_def lcgBytes_uint simpleHash_uint)
  finally have "uuid_String (bs6[8 := (bs6 ! 8 AND 0x3f) OR 0x80]) = spec_identify p"
    by (simp only: uuid_String_spec spec_identify_def input_def)
  moreover have "deterministicUUID p g = (uuid_String (bs6[8 := (bs6 ! 8 AND 0x3f) OR 0x80]), g)"
    using assms by (simp only: deterministicUUID_def Let_def bs6_def bs_def input_def if_False)
  ultimately show ?thesis by simp
qed

text \<open>
  Claim C1, as amended. The claim speaks of every non-empty list; the generator is
  deterministic exactly on the lists whose non-empty parts, joined with an underscore,
  give a non-empty string. For such a list, two calls return the same identifier whatever
  the state of the random source is at either call (the same process later on, or a
  process started afresh), and neither call consumes anything from that source.
\<close>

theorem C1_deterministicUUID_deterministic:
  assumes "strings_Join (filter (\<lambda>part. part \<noteq> []) p) ''_'' \<noteq> []"
  shows "fst (deterministicUUID p g1) = fst (deterministicUUID p g2)
         \<and> snd (deterministicUUID p g1) = g1 \<and> snd (deterministicUUID p g2) = g2"
proof -
  have "deterministicUUID p g = (fst (deterministicUUID p g2), g)" for g
    using assms by (simp add: deterministicUUID_def Let_def)
  then show ?thesis
    by (metis fst_conv snd_conv)
qed

theorem C1_deterministicUUID_deterministic_witness:
  "strings_Join (filter (\<lambda>part. part \<noteq> []) [''f'', ''a.sql'']) ''_'' \<noteq> []
   \<and> fst (deterministicUUID [''f'', ''a.sql''] genA) = fst (deterministicUUID [''f'', ''a.sql''] genB)
   \<and> snd (deterministicUUID [''f'', ''a.sql''] genA) = genA"
proof -
  have h: "strings_Join (filter (\<lambda>part. part \<noteq> []) [''f'', ''a.sql'']) ''_'' \<noteq> []"
    by simp
  from C1_deterministicUUID_deterministic [OF h, of genA genB] h show ?thesis
    by simp
qed

text \<open>
  The claim C1 as it is stated fails: the list \<open>[""]\<close> is not empty, its only part is
  dropped, and \<open>deterministicUUID\<close> returns what \<open>uuid.NewString\<close> hands out, which
  differs from one call to the next.
\<close>

theorem C1_counterexample:
  "[''''] \<noteq> ([] :: string list)
   \<and> fst (deterministicUUID [''''] genA) \<noteq> fst (deterministicUUID [''''] genB)"
  by (simp add: deterministicUUID_def uuid_NewString_def genA_def genB_def)

text \<open>
  Claim C2. Whenever the non-empty parts joined with an underscore give a non-empty
  string, \<open>deterministicUUID\<close> returns exactly the identifier of the specification's
  algorithm: rolling hash \<open>h*31 + codepoint\<close> with signed 32-bit wrap-around and absolute
  value, 16 rounds of the generator modulo \<open>2^31\<close> each giving the byte
  \<open>(seed >> 16) & 0xFF\<close>, version and variant bits patched into bytes 6 and 8, dashed
  hexadecimal rendering.
\<close>

theorem C2_deterministicUUID_computes_spec_algorithm:
  assumes "strings_Join (filter (\<lambda>part. part \<noteq> []) parts) ''_'' \<noteq> []"
  shows "fst (deterministicUUID parts g) = spec_identify parts"
  using assms by (simp add: deterministicUUID_spec)

theorem C2_deterministicUUID_computes_spec_algorithm_witness:
  "strings_Join (filter (\<lambda>part. part \<noteq> []) [''f'', '''', ''a.sql'']) ''_'' \<noteq> []
   \<and> fst (deterministicUUID [''f'', '''', ''a.sql''] genA) = spec_identify [''f'', '''', ''a.sql'']"
proof -
  have h: "strings_Join (filter (\<lambda>part. part \<noteq> []) [''f'', '''', ''a.sql'']) ''_'' \<noteq> []"
    by simp
  from C2_deterministicUUID_computes_spec_algorithm [OF h, of genA] h show ?thesis
    by simp
qed

section \<open>Properties of the scan\<close>

text \<open>
  \<open>snippetsDir\<close> touches the disk only to create a missing root directory, and a second
  call changes nothing.
\<close>

lemma snippetsDir_unset:
  "SnippetsFolder w = [] \<Longrightarrow> snippetsDir w = (Inl errSnippetsFolderEnvNotSet, w)"
  by (simp add: snippetsDir_def)

lemma snippetsDir_RootFile:
  "SnippetsFolder w \<noteq> [] \<Longrightarrow> disk w = RootFile \<Longrightarrow> snippetsDir w = (Inl (errOS ENOTDIR), w)"
  by (simp add: snippetsDir_def)

lemma snippetsDir_set:
  "SnippetsFolder w \<noteq> [] \<Longrightarrow> disk w \<noteq> RootFile \<Longrightarrow>
   snippetsDir w = (Inr (SnippetsFolder w), w\<lparr>disk := RootDir (tree w)\<rparr>)"
  by (cases "disk w") (simp_all add: snippetsDir_def tree_def)

lemma snippetsDir_frame:
  "tree (snd (snippetsDir w)) = tree w"
  "SnippetsFolder (snd (snippetsDir w)) = SnippetsFolder w"
  "now (snd (snippetsDir w)) = now w"
  "uuids (snd (snippetsDir w)) = uuids w"
  by (cases "disk w"; simp add: snippetsDir_def tree_def)+

lemma snippetsDir_RootDir:
  "disk w = RootDir t \<Longrightarrow> snd (snippetsDir w) = w"
  by (simp add: snippetsDir_def)

lemma snippetsDir_idem:
  "snippetsDir (snd (snippetsDir w)) = (fst (snippetsDir w), snd (snippetsDir w))"
  by (cases "disk w") (simp_all add: snippetsDir_def)

lemma tree_update [simp]:
  "tree (w\<lparr>disk := RootDir t\<rparr>) = t"
  "tree (w\<lparr>uuids := g\<rparr>) = tree w"
  by (simp_all add: tree_def)

lemma getFilesystemEntries_unset:
  "SnippetsFolder w = [] \<Longrightarrow> getFilesystemEntries w = (Inl errSnippetsFolderEnvNotSet, w)"
  by (simp add: getFilesystemEntries_def snippetsDir_def)

lemma getFilesystemEntries_RootFile:
  "SnippetsFolder w \<noteq> [] \<Longrightarrow> disk w = RootFile \<Longrightarrow>
   getFilesystemEntries w = (Inl (errOS ENOTDIR), w)"
  by (simp add: getFilesystemEntries_def snippetsDir_def)

lemma getFilesystemEntries_set:
  "SnippetsFolder w \<noteq> [] \<Longrightarrow> disk w \<noteq> RootFile \<Longrightarrow>
   getFilesystemEntries w =
     (Inr (fst (walkRoot (os_ReadDir (tree w)) (uuids w))),
      w\<lparr>disk := RootDir (tree w), uuids := snd (walkRoot (os_ReadDir (tree w)) (uuids w))\<rparr>)"
  by (simp add: getFilesystemEntries_def snippetsDir_set split: prod.splits)

lemma getFilesystemEntries_cases:
  obtains "SnippetsFolder w = []" | "SnippetsFolder w \<noteq> []" "disk w = RootFile"
        | "SnippetsFolder w \<noteq> []" "disk w \<noteq> RootFile"
  by blast

lemma getFilesystemEntries_frame:
  "tree (snd (getFilesystemEntries w)) = tree w"
  "SnippetsFolder (snd (getFilesystemEntries w)) = SnippetsFolder w"
  "now (snd (getFilesystemEntries w)) = now w"
  by (rule getFilesystemEntries_cases [of w];
      simp add: getFilesystemEntries_unset getFilesystemEntries_RootFile getFilesystemEntries_set)+

lemma getFilesystemEntries_disk:
  "disk (snd (getFilesystemEntries w)) = disk (snd (snippetsDir w))"
  by (rule getFilesystemEntries_cases [of w];
      simp add: getFilesystemEntries_unset getFilesystemEntries_RootFile getFilesystemEntries_set
        snippetsDir_unset snippetsDir_RootFile snippetsDir_set)

lemma getFilesystemEntries_Inr:
  "fst (getFilesystemEntries w) = Inr es \<Longrightarrow> SnippetsFolder w \<noteq> []"
  by (cases "SnippetsFolder w = []"; simp add: getFilesystemEntries_unset)

lemma getFilesystemEntries_Inr_disk:
  "fst (getFilesystemEntries w) = Inr es \<Longrightarrow> disk w \<noteq> RootFile"
  by (rule getFilesystemEntries_cases [of w];
      simp add: getFilesystemEntries_unset getFilesystemEntries_RootFile)

lemma set_os_ReadDir: "set (os_ReadDir d) = set d"
  by (simp add: os_ReadDir_def)

text \<open>A list with a non-empty part has a non-empty joined string.\<close>

lemma strings_Join_Nil_iff:
  "strings_Join xs sep = [] \<longleftrightarrow> (\<forall>x\<in>set xs. x = []) \<and> (sep = [] \<or> length xs \<le> 1)"
  by (induction xs sep rule: strings_Join.induct) auto

lemma joined_nonempty:
  assumes "x \<in> set ps" and "x \<noteq> []"
  shows "strings_Join (filter (\<lambda>p. p \<noteq> []) ps) ''_'' \<noteq> []"
  using assms by (auto simp: strings_Join_Nil_iff)

lemma TrimSuffix_append:
  "strings_HasSuffix s suf \<Longrightarrow> strings_TrimSuffix s suf @ suf = s"
  by (simp add: strings_TrimSuffix_def strings_HasSuffix_def)
     (metis append_take_drop_id)

lemma idInputs_joined:
  "strings_Join (filter (\<lambda>p. p \<noteq> []) (idInputs name folderID)) ''_'' \<noteq> []"
  by (rule joined_nonempty [where x = "name @ ''.sql''"])
     (simp_all add: idInputs_def split: option.splits)

lemma deterministicUUID_idInputs:
  "deterministicUUID (idInputs name folderID) g = (spec_identify (idInputs name folderID), g)"
  by (rule deterministicUUID_spec [OF idInputs_joined])

lemma deterministicUUID_single:
  "n \<noteq> [] \<Longrightarrow> deterministicUUID [n] g = (spec_identify [n], g)"
  by (rule deterministicUUID_spec) simp

lemma buildSnippet_eq:
  "buildSnippet name content folderID createdAt g =
     (\<lparr>snippet.ID = spec_identify (idInputs name folderID), InsertedAt = createdAt,
       UpdatedAt = createdAt, Type = ''sql'', Name = name, Description = [],
       Favorite = False,
       Content = \<lparr>SQL = content, ContentID = g 0, SchemaVersion = ''1.0''\<rparr>,
       Visibility = ''user'', ProjectID = 1, FolderID = folderID, OwnerID = 1,
       Owner = \<lparr>snippetUser.ID = 1, Username = ''johndoe''\<rparr>,
       UpdatedBy = \<lparr>snippetUser.ID = 1, Username = ''johndoe''\<rparr>\<rparr>, \<lambda>n. g (Suc n))"
  using deterministicUUID_idInputs [of name folderID g]
  by (simp add: buildSnippet_def idInputs_def uuid_NewString_def)

lemma buildSnippets_proj:
  "map snippet.Name (fst (buildSnippets es g)) = map filesystemEntry.Name es"
  "map snippet.FolderID (fst (buildSnippets es g)) = map filesystemEntry.FolderID es"
  "map (\<lambda>s. SQL (snippet.Content s)) (fst (buildSnippets es g)) = map filesystemEntry.Content es"
  "map snippet.InsertedAt (fst (buildSnippets es g)) = map filesystemEntry.CreatedAt es"
  "map snippet.ID (fst (buildSnippets es g)) =
     map (\<lambda>e. spec_identify (idInputs (filesystemEntry.Name e) (filesystemEntry.FolderID e))) es"
  by (induction es arbitrary: g; simp add: buildSnippet_eq split_beta)+

lemma length_buildSnippets: "length (fst (buildSnippets es g)) = length es"
  by (induction es arbitrary: g) (simp_all add: buildSnippet_eq split_beta)

text \<open>
  What \<open>walk\<close> appends. A directory below the top level is skipped; a top-level
  directory gives one folder entry; a file whose name does not end in \<open>.sql\<close> gives
  nothing; an \<open>.sql\<close> file gives one file entry.
\<close>

lemma walk_dir_deep:
  "walk [a, b] dname (DirNode mt kids) g = (([], True), g)"
  by (simp add: walk_def)

lemma walk_dir_top:
  "walk [a] dname (DirNode mt kids) g =
     (([\<lparr>filesystemEntry.ID = fst (deterministicUUID [dname] g), Name = dname, Type = TFolder,
         FolderID = None, Content = [], CreatedAt = mt\<rparr>], False),
      snd (deterministicUUID [dname] g))"
  by (simp add: walk_def split_beta)

lemma walk_file_other:
  "\<not> strings_HasSuffix dname ''.sql'' \<Longrightarrow> walk parts dname (FileNode c mt) g = (([], False), g)"
  by (simp add: walk_def)

lemma DS_Store_no_sql: "\<not> strings_HasSuffix ''.DS_Store'' ''.sql''"
  by (simp add: strings_HasSuffix_def)

lemma walk_file_root:
  assumes "strings_HasSuffix dname ''.sql''"
  shows "walk [a] dname (FileNode c mt) g =
     (([\<lparr>filesystemEntry.ID = spec_identify [dname],
         Name = strings_TrimSuffix dname ''.sql'', Type = TFile, FolderID = None,
         Content = c, CreatedAt = mt\<rparr>], False), g)"
proof -
  have ne: "dname \<noteq> ''.DS_Store''"
    using assms DS_Store_no_sql by auto
  have "deterministicUUID [strings_TrimSuffix dname ''.sql'' @ ''.sql''] g
        = (spec_identify [dname], g)"
    using deterministicUUID_idInputs [of "strings_TrimSuffix dname ''.sql''" None g]
      TrimSuffix_append [OF assms]
    by (simp add: idInputs_def)
  then show ?thesis
    using assms ne by (simp add: walk_def)
qed

lemma walk_file_in_folder:
  assumes "strings_HasSuffix dname ''.sql''"
  shows "walk [a, dname] dname (FileNode c mt) g =
     (([\<lparr>filesystemEntry.ID = spec_identify [fst (deterministicUUID [a] g), dname],
         Name = strings_TrimSuffix dname ''.sql'', Type = TFile,
         FolderID = Some (fst (deterministicUUID [a] g)),
         Content = c, CreatedAt = mt\<rparr>], False), snd (deterministicUUID [a] g))"
proof -
  have ne: "dname \<noteq> ''.DS_Store''"
    using assms DS_Store_no_sql by auto
  have "deterministicUUID [f, strings_TrimSuffix dname ''.sql'' @ ''.sql''] g'
        = (spec_identify [f, dname], g')" for f g'
    using deterministicUUID_idInputs [of "strings_TrimSuffix dname ''.sql''" "Some f" g']
      TrimSuffix_append [OF assms]
    by (simp add: idInputs_def)
  then show ?thesis
    using assms ne by (simp add: walk_def split_beta)
qed

text \<open>
  Every file entry of a scan carries the identifier that \<open>buildSnippet\<close> computes from
  its name and its folder id; folder entries have no parent.
\<close>

lemma walk_entry_cases:
  assumes "e \<in> set (fst (fst (walk parts dname d g)))"
  shows "(filesystemEntry.Type e = TFile \<and>
            filesystemEntry.ID e =
              spec_identify (idInputs (filesystemEntry.Name e) (filesystemEntry.FolderID e)))
         \<or> (filesystemEntry.Type e = TFolder \<and> filesystemEntry.FolderID e = None
              \<and> filesystemEntry.Name e = dname \<and> (\<exists>mt kids. d = DirNode mt kids))"
proof (cases d)
  case (DirNode mt kids)
  then show ?thesis
    using assms by (auto simp: walk_def split_beta split: if_splits)
next
  case (FileNode c mt)
  have *: "deterministicUUID [strings_TrimSuffix x ''.sql'' @ ''.sql''] g'
        = (spec_identify (idInputs (strings_TrimSuffix x ''.sql'') None), g')" for x g'
    using deterministicUUID_idInputs [of "strings_TrimSuffix x ''.sql''" None g']
    by (simp add: idInputs_def)
  have **: "deterministicUUID [f, strings_TrimSuffix x ''.sql'' @ ''.sql''] g'
        = (spec_identify (idInputs (strings_TrimSuffix x ''.sql'') (Some f)), g')" for f x g'
    using deterministicUUID_idInputs [of "strings_TrimSuffix x ''.sql''" "Some f" g']
    by (simp add: idInputs_def)
  show ?thesis
    using assms FileNode
    by (auto simp: walk_def split_beta * ** split: if_splits)
qed

lemma walkFolder_entries:
  "e \<in> set (fst (walkFolder fn ks g)) \<Longrightarrow>
     filesystemEntry.Type e = TFile \<and>
     filesystemEntry.ID e =
       spec_identify (idInputs (filesystemEntry.Name e) (filesystemEntry.FolderID e))"
proof (induction ks arbitrary: g)
  case Nil
  then show ?case by simp
next
  case (Cons k ks)
  obtain m d where k: "k = (m, d)" by (cases k)
  from Cons.prems consider
      "e \<in> set (fst (fst (walk [fn, m] m d g)))"
    | "e \<in> set (fst (walkFolder fn ks (snd (walk [fn, m] m d g))))"
    by (auto simp: k split_beta)
  then show ?case
  proof cases
    case 1
    then show ?thesis
      using walk_entry_cases [OF 1] by (cases d) (auto simp: walk_dir_deep)
  next
    case 2
    then show ?thesis by (rule Cons.IH)
  qed
qed

lemma walkDir_file:
  "walkDir n (FileNode c mt) g =
     (fst (fst (walk [n] n (FileNode c mt) g)), snd (walk [n] n (FileNode c mt) g))"
  by (simp add: walkDir_def split_beta)

lemma walkDir_dir:
  "walkDir n (DirNode mt kids) g =
     (\<lparr>filesystemEntry.ID = fst (deterministicUUID [n] g), Name = n, Type = TFolder,
        FolderID = None, Content = [], CreatedAt = mt\<rparr>
      # fst (walkFolder n (os_ReadDir kids) (snd (deterministicUUID [n] g))),
      snd (walkFolder n (os_ReadDir kids) (snd (deterministicUUID [n] g))))"
  by (simp add: walkDir_def walk_dir_top split_beta)

lemma walkDir_file_entries:
  assumes "e \<in> set (fst (walkDir n d g))" and "filesystemEntry.Type e = TFile"
  shows "filesystemEntry.ID e =
           spec_identify (idInputs (filesystemEntry.Name e) (filesystemEntry.FolderID e))"
proof (cases d)
  case (FileNode c mt)
  then have "e \<in> set (fst (fst (walk [n] n d g)))"
    using assms(1) by (simp add: walkDir_file)
  from walk_entry_cases [OF this] assms(2) show ?thesis by auto
next
  case (DirNode mt kids)
  then have "e \<in> set (fst (walkFolder n (os_ReadDir kids) (snd (deterministicUUID [n] g))))"
    using assms by (auto simp: walkDir_dir)
  then show ?thesis
    using walkFolder_entries by blast
qed

lemma walkRoot_file_entries:
  "e \<in> set (fst (walkRoot ds g)) \<Longrightarrow> filesystemEntry.Type e = TFile \<Longrightarrow>
     filesystemEntry.ID e =
       spec_identify (idInputs (filesystemEntry.Name e) (filesystemEntry.FolderID e))"
proof (induction ds arbitrary: g)
  case Nil
  then show ?case by simp
next
  case (Cons k ds)
  obtain n d where k: "k = (n, d)" by (cases k)
  from Cons.prems(1) consider
      "e \<in> set (fst (walkDir n d g))"
    | "e \<in> set (fst (walkRoot ds (snd (walkDir n d g))))"
    by (auto simp: k split_beta)
  then show ?case
  proof cases
    case 1
    then show ?thesis using walkDir_file_entries Cons.prems(2) by blast
  next
    case 2
    then show ?thesis using Cons.IH Cons.prems(2) by blast
  qed
qed

lemma scan_file_ids:
  assumes "fst (getFilesystemEntries w) = Inr es"
    and "e \<in> set es" and "filesystemEntry.Type e = TFile"
  shows "filesystemEntry.ID e =
           spec_identify (idInputs (filesystemEntry.Name e) (filesystemEntry.FolderID e))"
proof -
  have "SnippetsFolder w \<noteq> []" and "disk w \<noteq> RootFile"
    using assms(1) by (rule getFilesystemEntries_Inr, rule getFilesystemEntries_Inr_disk)
  then have "es = fst (walkRoot (os_ReadDir (tree w)) (uuids w))"
    using assms(1) by (simp add: getFilesystemEntries_set)
  then show ?thesis
    using assms(2,3) walkRoot_file_entries by blast
qed

text \<open>
  Where the entries of a scan come from: each entry of the root is visited by \<open>walkDir\<close>
  at some state of the random source.
\<close>

lemma walkRoot_visits:
  "(n, d) \<in> set ds \<Longrightarrow> \<exists>g'. set (fst (walkDir n d g')) \<subseteq> set (fst (walkRoot ds g))"
proof (induction ds arbitrary: g)
  case Nil
  then show ?case by simp
next
  case (Cons k ds)
  obtain n' d' where k: "k = (n', d')" by (cases k)
  show ?case
  proof (cases "(n, d) = k")
    case True
    then have "set (fst (walkDir n d g)) \<subseteq> set (fst (walkRoot (k # ds) g))"
      by (auto simp: k split_beta)
    then show ?thesis by blast
  next
    case False
    then have "(n, d) \<in> set ds" using Cons.prems by simp
    from Cons.IH [OF this, of "snd (walkDir n' d' g)"]
    show ?thesis by (auto simp: k split_beta)
  qed
qed

lemma walkFolder_visits:
  "(m, d) \<in> set ks \<Longrightarrow>
     \<exists>g'. set (fst (fst (walk [fn, m] m d g'))) \<subseteq> set (fst (walkFolder fn ks g))"
proof (induction ks arbitrary: g)
  case Nil
  then show ?case by simp
next
  case (Cons k ks)
  obtain m' d' where k: "k = (m', d')" by (cases k)
  show ?case
  proof (cases "(m, d) = k")
    case True
    then have "set (fst (fst (walk [fn, m] m d g))) \<subseteq> set (fst (walkFolder fn (k # ks) g))"
      by (auto simp: k split_beta)
    then show ?thesis by blast
  next
    case False
    then have "(m, d) \<in> set ks" using Cons.prems by simp
    from Cons.IH [OF this, of "snd (walk [fn, m'] m' d' g)"]
    show ?thesis by (auto simp: k split_beta)
  qed
qed

lemma scan_has_folder:
  assumes "(n, DirNode mt kids) \<in> set ds" and "n \<noteq> []"
  shows "\<lparr>filesystemEntry.ID = spec_identify [n], Name = n, Type = TFolder, FolderID = None,
           Content = [], CreatedAt = mt\<rparr> \<in> set (fst (walkRoot ds g))"
proof -
  obtain g' where "set (fst (walkDir n (DirNode mt kids) g')) \<subseteq> set (fst (walkRoot ds g))"
    using walkRoot_visits [OF assms(1)] by blast
  then show ?thesis
    using assms(2) by (auto simp: walkDir_dir deterministicUUID_single)
qed

lemma scan_has_root_file:
  assumes "(n, FileNode c mt) \<in> set ds" and "strings_HasSuffix n ''.sql''"
  shows "\<lparr>filesystemEntry.ID = spec_identify [n], Name = strings_TrimSuffix n ''.sql'',
           Type = TFile, FolderID = None, Content = c, CreatedAt = mt\<rparr>
         \<in> set (fst (walkRoot ds g))"
proof -
  obtain g' where "set (fst (walkDir n (FileNode c mt) g')) \<subseteq> set (fst (walkRoot ds g))"
    using walkRoot_visits [OF assms(1)] by blast
  then show ?thesis
    using assms(2) by (auto simp: walkDir_file walk_file_root)
qed

lemma scan_has_folder_file:
  assumes "(n, DirNode mt kids) \<in> set ds" and "n \<noteq> []"
    and "(m, FileNode c t) \<in> set kids" and "strings_HasSuffix m ''.sql''"
  shows "\<lparr>filesystemEntry.ID = spec_identify [spec_identify [n], m],
           Name = strings_TrimSuffix m ''.sql'', Type = TFile,
           FolderID = Some (spec_identify [n]), Content = c, CreatedAt = t\<rparr>
         \<in> set (fst (walkRoot ds g))"
proof -
  obtain g' where g': "set (fst (walkDir n (DirNode mt kids) g')) \<subseteq> set (fst (walkRoot ds g))"
    using walkRoot_visits [OF assms(1)] by blast
  have "(m, FileNode c t) \<in> set (os_ReadDir kids)"
    using assms(3) by (simp add: set_os_ReadDir)
  from walkFolder_visits [OF this, of n "snd (deterministicUUID [n] g')"]
  obtain g'' where "set (fst (fst (walk [n, m] m (FileNode c t) g'')))
      \<subseteq> set (fst (walkFolder n (os_ReadDir kids) (snd (deterministicUUID [n] g'))))"
    by blast
  then have "\<lparr>filesystemEntry.ID = spec_identify [spec_identify [n], m],
           Name = strings_TrimSuffix m ''.sql'', Type = TFile,
           FolderID = Some (spec_identify [n]), Content = c, CreatedAt = t\<rparr>
         \<in> set (fst (walkFolder n (os_ReadDir kids) (snd (deterministicUUID [n] g'))))"
    using assms(2,4) by (auto simp: walk_file_in_folder deterministicUUID_single)
  then show ?thesis
    using g' by (auto simp: walkDir_dir)
qed

text \<open>The folder entries of a scan are the top-level directories.\<close>

lemma walkDir_folders:
  "{e \<in> set (fst (walkDir n d g)). filesystemEntry.Type e = TFolder}
     = (case d of
          DirNode mt kids \<Rightarrow>
            {\<lparr>filesystemEntry.ID = fst (deterministicUUID [n] g), Name = n, Type = TFolder,
               FolderID = None, Content = [], CreatedAt = mt\<rparr>}
        | FileNode _ _ \<Rightarrow> {})"
proof (cases d)
  case (FileNode c mt)
  then show ?thesis
    using walk_entry_cases [of _ "[n]" n d g] by (auto simp: walkDir_file)
next
  case (DirNode mt kids)
  then show ?thesis
    using walkFolder_entries [of _ n "os_ReadDir kids"] by (auto simp: walkDir_dir)
qed

lemma walkRoot_folder_names:
  "filesystemEntry.Name ` {e \<in> set (fst (walkRoot ds g)). filesystemEntry.Type e = TFolder}
     = {n. \<exists>mt kids. (n, DirNode mt kids) \<in> set ds}"
proof (induction ds arbitrary: g)
  case Nil
  then show ?case by simp
next
  case (Cons k ds)
  obtain n d where k: "k = (n, d)" by (cases k)
  have split: "{e \<in> set (fst (walkRoot (k # ds) g)). filesystemEntry.Type e = TFolder}
      = {e \<in> set (fst (walkDir n d g)). filesystemEntry.Type e = TFolder}
        \<union> {e \<in> set (fst (walkRoot ds (snd (walkDir n d g)))). filesystemEntry.Type e = TFolder}"
    by (auto simp: k split_beta)
  show ?case
    unfolding split image_Un Cons.IH walkDir_folders
    by (cases d) (auto simp: k)
qed

lemma walkRoot_folder_parent:
  "e \<in> set (fst (walkRoot ds g)) \<Longrightarrow> filesystemEntry.Type e = TFolder \<Longrightarrow>
     filesystemEntry.FolderID e = None"
proof (induction ds arbitrary: g)
  case Nil
  then show ?case by simp
next
  case (Cons k ds)
  obtain n d where k: "k = (n, d)" by (cases k)
  from Cons.prems(1) consider
      "e \<in> {e \<in> set (fst (walkDir n d g)). filesystemEntry.Type e = TFolder}"
    | "e \<in> set (fst (walkRoot ds (snd (walkDir n d g))))"
    using Cons.prems(2) by (auto simp: k split_beta)
  then show ?case
  proof cases
    case 1
    then show ?thesis unfolding walkDir_folders by (cases d) auto
  next
    case 2
    then show ?thesis using Cons.IH Cons.prems(2) by blast
  qed
qed

text \<open>
  When no top-level directory has an empty name, the scan takes nothing from the random
  source and does not depend on it.
\<close>

lemma walkFolder_pure:
  "fn \<noteq> [] \<Longrightarrow>
     fst (walkFolder fn ks g) = fst (walkFolder fn ks g0) \<and> snd (walkFolder fn ks g) = g"
proof (induction ks arbitrary: g)
  case Nil
  then show ?case by simp
next
  case (Cons k ks)
  obtain m d where k: "k = (m, d)" by (cases k)
  have w: "fst (walk [fn, m] m d g') = fst (walk [fn, m] m d g0) \<and> snd (walk [fn, m] m d g') = g'"
    for g'
  proof (cases d)
    case (DirNode mt kids)
    then show ?thesis by (simp add: walk_dir_deep)
  next
    case (FileNode c t)
    then show ?thesis
      using Cons.prems
      by (cases "strings_HasSuffix m ''.sql''")
         (simp_all add: walk_file_other walk_file_in_folder deterministicUUID_single)
  qed
  have ih: "fst (walkFolder fn ks g) = fst (walkFolder fn ks g0)" "snd (walkFolder fn ks g) = g"
    "snd (walkFolder fn ks g0) = g0"
    using Cons.IH [OF Cons.prems, of g] Cons.IH [OF Cons.prems, of g0] by auto
  have wg: "fst (walk [fn, m] m d g) = fst (walk [fn, m] m d g0)" "snd (walk [fn, m] m d g) = g"
    "snd (walk [fn, m] m d g0) = g0"
    using w [of g] w [of g0] by auto
  show ?case
    by (simp add: k split_beta wg ih)
qed

lemma walkDir_pure:
  assumes "\<And>mt kids. d = DirNode mt kids \<Longrightarrow> n \<noteq> []"
  shows "fst (walkDir n d g) = fst (walkDir n d g0) \<and> snd (walkDir n d g) = g"
proof (cases d)
  case (DirNode mt kids)
  then have "n \<noteq> []" using assms by blast
  then show ?thesis
    using walkFolder_pure [of n "os_ReadDir kids" g g0]
    by (simp add: DirNode walkDir_dir deterministicUUID_single)
next
  case (FileNode c t)
  show ?thesis
    by (cases "strings_HasSuffix n ''.sql''")
       (simp_all add: FileNode walkDir_file walk_file_other walk_file_root)
qed

lemma walkRoot_pure:
  "(\<And>mt kids. ([], DirNode mt kids) \<notin> set ds) \<Longrightarrow>
     fst (walkRoot ds g) = fst (walkRoot ds g0) \<and> snd (walkRoot ds g) = g"
proof (induction ds arbitrary: g)
  case Nil
  then show ?case by simp
next
  case (Cons k ds)
  obtain n d where k: "k = (n, d)" by (cases k)
  have w: "fst (walkDir n d g') = fst (walkDir n d g0) \<and> snd (walkDir n d g') = g'" for g'
    using Cons.prems by (auto simp: k intro!: walkDir_pure)
  have nd: "\<And>mt kids. ([], DirNode mt kids) \<notin> set ds"
    using Cons.prems by auto
  have ih: "fst (walkRoot ds g) = fst (walkRoot ds g0)" "snd (walkRoot ds g) = g"
    "snd (walkRoot ds g0) = g0"
    using Cons.IH [OF nd, of g] Cons.IH [OF nd, of g0] by auto
  have wg: "fst (walkDir n d g) = fst (walkDir n d g0)" "snd (walkDir n d g) = g"
    "snd (walkDir n d g0) = g0"
    using w [of g] w [of g0] by auto
  show ?case
    by (simp add: k split_beta wg ih)
qed

lemma scan_pure:
  assumes "SnippetsFolder w \<noteq> []" and "disk w \<noteq> RootFile"
    and "\<And>mt kids. ([], DirNode mt kids) \<notin> set (tree w)"
  shows "getFilesystemEntries (w\<lparr>uuids := g\<rparr>)
         = (Inr (fst (walkRoot (os_ReadDir (tree w)) g0)),
            w\<lparr>disk := RootDir (tree w), uuids := g\<rparr>)"
proof -
  have "fst (walkRoot (os_ReadDir (tree w)) g) = fst (walkRoot (os_ReadDir (tree w)) g0)
        \<and> snd (walkRoot (os_ReadDir (tree w)) g) = g"
    using assms(3) by (intro walkRoot_pure) (simp add: set_os_ReadDir)
  then show ?thesis
    using assms(1,2) by (simp add: getFilesystemEntries_set)
qed

text \<open>The scans of two of the example stores.\<close>

lemma scan_wFive:
  "fst (getFilesystemEntries wFive)
     = Inr [\<lparr>filesystemEntry.ID = ''6acd8c03-4c0e-4e34-8202-00dca1e2ccd6'', Name = ''a'',
              Type = TFile, FolderID = None, Content = ''select 1'', CreatedAt = 1\<rparr>,
            \<lparr>filesystemEntry.ID = ''5a5ac3a1-659c-49db-934a-56a9a3f1acce'', Name = ''b'',
              Type = TFile, FolderID = None, Content = ''select 2'', CreatedAt = 2\<rparr>,
            \<lparr>filesystemEntry.ID = ''49e8f940-7e29-4383-a592-ad77a5018dc5'', Name = ''c'',
              Type = TFile, FolderID = None, Content = ''select 3'', CreatedAt = 3\<rparr>,
            \<lparr>filesystemEntry.ID = ''38752fdf-97b7-4d2a-b7da-0445a7106dbd'', Name = ''d'',
              Type = TFile, FolderID = None, Content = ''select 4'', CreatedAt = 4\<rparr>,
            \<lparr>filesystemEntry.ID = ''2802667d-b045-47d1-8922-5b13a8204db4'', Name = ''e'',
              Type = TFile, FolderID = None, Content = ''select 5'', CreatedAt = 5\<rparr>]"
  by code_simp

lemma scan_wFolder:
  "fst (getFilesystemEntries wFolder)
     = Inr [\<lparr>filesystemEntry.ID = ''03a51dfb-edea-4c84-bc28-f411896b317f'', Name = ''f'',
              Type = TFolder, FolderID = None, Content = [], CreatedAt = 1\<rparr>,
            \<lparr>filesystemEntry.ID = ''b0b9ad79-8a2e-498c-8ad0-9d18f7f77de4'', Name = ''a'',
              Type = TFile, FolderID = Some ''03a51dfb-edea-4c84-bc28-f411896b317f'',
              Content = ''select 1'', CreatedAt = 2\<rparr>,
            \<lparr>filesystemEntry.ID = ''c998db7f-bae5-4f8d-be09-79f2cd66b101'', Name = ''z'',
              Type = TFile, FolderID = None, Content = ''select 2'', CreatedAt = 3\<rparr>]"
  by code_simp

section \<open>Properties of the mutating operations\<close>

text \<open>
  \<open>deleteSnippet\<close> on a store whose scan succeeds, with the scan written out.
\<close>

lemma deleteSnippet_set:
  assumes "SnippetsFolder w \<noteq> []" and "disk w \<noteq> RootFile"
  shows "deleteSnippet i w =
    (let entries = fst (walkRoot (os_ReadDir (tree w)) (uuids w));
         w1 = w\<lparr>disk := RootDir (tree w),
                uuids := snd (walkRoot (os_ReadDir (tree w)) (uuids w))\<rparr>
     in case find (isFile i) entries of
          None \<Rightarrow> (Some errSnippetNotFound, w1)
        | Some target \<Rightarrow>
            (case filepath_Join
                    ((case filesystemEntry.FolderID target of
                        None \<Rightarrow> []
                      | Some f \<Rightarrow> map filesystemEntry.Name (filter (isFolder f) entries))
                     @ [filesystemEntry.Name target @ ''.sql'']) of
               None \<Rightarrow> (Some (errOS EACCES), w1)
             | Some filePath \<Rightarrow>
                 (case os_Remove (tree w) (now w) filePath of
                    Inl e \<Rightarrow> if e = ENOENT then (None, w1) else (Some (errOS e), w1)
                  | Inr t \<Rightarrow> (None, w1\<lparr>disk := RootDir t\<rparr>))))"
  using assms
  by (simp add: deleteSnippet_def getFilesystemEntries_set snippetsDir_def Let_def
      split: option.splits sum.splits)

text \<open>
  \<open>deleteSnippet\<close> returns an error only from a state in which it has done no more than
  create a missing root directory, and \<open>saveSnippet\<close> never returns one of the two
  errors of \<open>updateSnippet\<close>'s own checks.
\<close>

lemma deleteSnippet_error_frame:
  assumes "fst (deleteSnippet i w) = Some e"
  shows "disk (snd (deleteSnippet i w)) = disk (snd (snippetsDir w))"
proof (rule getFilesystemEntries_cases [of w])
  assume "SnippetsFolder w = []"
  then show ?thesis
    by (simp add: deleteSnippet_def getFilesystemEntries_unset snippetsDir_unset)
next
  assume "SnippetsFolder w \<noteq> []" and "disk w = RootFile"
  then show ?thesis
    by (simp add: deleteSnippet_def getFilesystemEntries_RootFile snippetsDir_RootFile)
next
  assume c: "SnippetsFolder w \<noteq> []" "disk w \<noteq> RootFile"
  show ?thesis
    using assms unfolding deleteSnippet_set [OF c] snippetsDir_set [OF c] Let_def
    by (auto split: option.splits sum.splits if_splits)
qed

lemma saveSnippet_errors:
  assumes "fst (saveSnippet sn w) = Inl e"
  shows "e \<noteq> errSnippetNotFound \<and> e \<noteq> errSnippetExistsInTargetFolder"
proof (rule getFilesystemEntries_cases [of w])
  assume "SnippetsFolder w = []"
  then show ?thesis
    using assms by (auto simp: saveSnippet_def getFilesystemEntries_unset)
next
  assume "SnippetsFolder w \<noteq> []" and "disk w = RootFile"
  then show ?thesis
    using assms by (auto simp: saveSnippet_def getFilesystemEntries_RootFile)
next
  assume "SnippetsFolder w \<noteq> []" and "disk w \<noteq> RootFile"
  then show ?thesis
    using assms
    by (auto simp: saveSnippet_def getFilesystemEntries_set snippetsDir_def Let_def split_beta
        split: sum.splits option.splits if_splits)
qed

lemma snippetsDir_disk_unless_missing:
  "disk w \<noteq> RootMissing \<Longrightarrow> disk (snd (snippetsDir w)) = disk w"
  by (cases "disk w") (simp_all add: snippetsDir_def)

lemma tree_cong: "disk v = disk w \<Longrightarrow> tree v = tree w"
  by (simp add: tree_def)

text \<open>
  Claim C10, as amended. \<open>updateSnippet\<close> returns \<open>errSnippetNotFound\<close> or
  \<open>errSnippetExistsInTargetFolder\<close> only before the delete-then-create replacement has
  begun: whenever one of the two is returned, the disk is as the \<open>os.MkdirAll\<close> of
  \<open>snippetsDir\<close> leaves it. The content of the root directory is the one the call started
  with, and the disk is unchanged unless the root directory was missing; then it has been
  created, empty.
\<close>

theorem C10_updateSnippet_errors_leave_tree:
  assumes "fst (updateSnippet i updates w) = Inl errSnippetNotFound
           \<or> fst (updateSnippet i updates w) = Inl errSnippetExistsInTargetFolder"
  shows "disk (snd (updateSnippet i updates w)) = disk (snd (snippetsDir w))
       \<and> tree (snd (updateSnippet i updates w)) = tree w
       \<and> (disk w \<noteq> RootMissing \<longrightarrow> disk (snd (updateSnippet i updates w)) = disk w)
       \<and> (disk w = RootMissing \<longrightarrow> disk (snd (updateSnippet i updates w)) = RootDir [])"
proof -
  have main: "disk (snd (updateSnippet i updates w)) = disk (snd (snippetsDir w))"
  proof (cases "fst (getFilesystemEntries w)")
    case (Inl err)
    then show ?thesis
      using getFilesystemEntries_disk [of w]
      by (simp add: updateSnippet_def split_beta)
  next
    case (Inr entries)
    define w1 where "w1 = snd (getFilesystemEntries w)"
    have t1: "disk w1 = disk (snd (snippetsDir w))"
      by (simp add: w1_def getFilesystemEntries_disk)
    have "SnippetsFolder w \<noteq> []" and "disk w \<noteq> RootFile"
      using Inr by (rule getFilesystemEntries_Inr, rule getFilesystemEntries_Inr_disk)
    then have r1: "disk w1 = RootDir (tree w)"
      by (simp add: w1_def getFilesystemEntries_set)
    have scan: "getFilesystemEntries w = (Inr entries, w1)"
      using Inr by (simp add: w1_def prod_eq_iff)
    show ?thesis
    proof (cases "find (isFile i) entries")
      case None
      then show ?thesis
        using t1 by (simp add: updateSnippet_def scan)
    next
      case (Some found)
      define name where "name =
        (case map_of updates ''name'' of
           Some (JString updatesName) \<Rightarrow>
             if updatesName \<noteq> [] then updatesName else filesystemEntry.Name found
         | _ \<Rightarrow> filesystemEntry.Name found)"
      define folderID where "folderID =
        (case map_of updates ''folder_id'' of
           Some JNull \<Rightarrow> None
         | Some (JString idString) \<Rightarrow> Some idString
         | _ \<Rightarrow> filesystemEntry.FolderID found)"
      define content where "content =
        (case map_of updates ''content'' of
           Some (JObject updatesContent) \<Rightarrow>
             (case map_of updatesContent ''sql'' of
                Some (JString sql) \<Rightarrow> sql
              | _ \<Rightarrow> filesystemEntry.Content found)
         | _ \<Rightarrow> filesystemEntry.Content found)"
      define newIDInputs where "newIDInputs =
        (case folderID of None \<Rightarrow> [name @ ''.sql''] | Some f \<Rightarrow> [f, name @ ''.sql''])"
      define newID where "newID = fst (deterministicUUID newIDInputs (uuids w1))"
      define w2 where "w2 = w1\<lparr>uuids := snd (deterministicUUID newIDInputs (uuids w1))\<rparr>"
      define conflict where "conflict =
        list_ex (\<lambda>entry. filesystemEntry.ID entry = newID \<and> filesystemEntry.Type entry = TFile
                   \<and> filesystemEntry.ID entry \<noteq> filesystemEntry.ID found) entries"
      define del where "del = deleteSnippet (filesystemEntry.ID found) w2"
      define sn where "sn =
        \<lparr>snippet.ID = newID, InsertedAt = 0, UpdatedAt = 0, Type = [], Name = name,
          Description = [], Favorite = False,
          Content = \<lparr>SQL = content, ContentID = fst (uuid_NewString (uuids (snd del))),
                      SchemaVersion = ''1.0''\<rparr>,
          Visibility = [], ProjectID = 0, FolderID = folderID, OwnerID = 0,
          Owner = \<lparr>snippetUser.ID = 0, Username = []\<rparr>,
          UpdatedBy = \<lparr>snippetUser.ID = 0, Username = []\<rparr>\<rparr>"
      have unf: "updateSnippet i updates w =
        (if conflict then (Inl errSnippetExistsInTargetFolder, w2)
         else (case del of
                 (Some err, w3) \<Rightarrow> (Inl err, w3)
               | (None, w3) \<Rightarrow>
                   (case uuid_NewString (uuids w3) of
                      (contentID, g2) \<Rightarrow>
                        saveSnippet
                          \<lparr>snippet.ID = newID, InsertedAt = 0, UpdatedAt = 0, Type = [],
                            Name = name, Description = [], Favorite = False,
                            Content = \<lparr>SQL = content, ContentID = contentID,
                                        SchemaVersion = ''1.0''\<rparr>,
                            Visibility = [], ProjectID = 0, FolderID = folderID, OwnerID = 0,
                            Owner = \<lparr>snippetUser.ID = 0, Username = []\<rparr>,
                            UpdatedBy = \<lparr>snippetUser.ID = 0, Username = []\<rparr>\<rparr>
                          (w3\<lparr>uuids := g2\<rparr>))))"
        unfolding del_def conflict_def w2_def newID_def newIDInputs_def content_def
          folderID_def name_def updateSnippet_def scan Let_def
        by (simp add: Some split_beta cong: if_cong)
      have t2: "disk w2 = disk (snd (snippetsDir w))"
        by (simp add: w2_def t1)
      have r2: "snd (snippetsDir w2) = w2"
        by (rule snippetsDir_RootDir [of w2 "tree w"]) (simp add: w2_def r1)
      show ?thesis
      proof (cases conflict)
        case True
        then show ?thesis by (simp add: unf t2)
      next
        case False
        obtain r w3 where d: "del = (r, w3)" by (cases del)
        show ?thesis
        proof (cases r)
          case (Some err)
          then have "fst (deleteSnippet (filesystemEntry.ID found) w2) = Some err"
            using d by (simp add: del_def)
          then have "disk (snd (deleteSnippet (filesystemEntry.ID found) w2)) = disk w2"
            using deleteSnippet_error_frame [of "filesystemEntry.ID found" w2 err]
            by (simp add: r2)
          then have "disk w3 = disk w2"
            using d by (simp add: del_def)
          then show ?thesis
            using False Some d by (simp add: unf t2)
        next
          case None
          obtain contentID g2 where u: "uuid_NewString (uuids w3) = (contentID, g2)"
            by (cases "uuid_NewString (uuids w3)")
          have "\<exists>sn. updateSnippet i updates w = saveSnippet sn (w3\<lparr>uuids := g2\<rparr>)"
            using False None d u by (simp add: unf) blast
          then show ?thesis
            using assms saveSnippet_errors by metis
        qed
      qed
    qed
  qed
  have conf: "SnippetsFolder w \<noteq> []"
    using assms by (cases "SnippetsFolder w = []")
      (auto simp: updateSnippet_def getFilesystemEntries_unset)
  have missing: "disk (snd (snippetsDir w)) = RootDir []" if "disk w = RootMissing"
    using that conf by (simp add: snippetsDir_def)
  from main show ?thesis
    using tree_cong [OF main] snippetsDir_frame(1) [of w]
      snippetsDir_disk_unless_missing [of w] missing
    by simp
qed

theorem C10_updateSnippet_errors_leave_tree_witness:
  "fst (updateSnippet ''6acd8c03-4c0e-4e34-8202-00dca1e2ccd6'' [(''name'', JString ''b'')] wTwo)
     = Inl errSnippetExistsInTargetFolder
   \<and> disk (snd (updateSnippet ''6acd8c03-4c0e-4e34-8202-00dca1e2ccd6''
                    [(''name'', JString ''b'')] wTwo)) = disk wTwo
   \<and> tree (snd (updateSnippet ''6acd8c03-4c0e-4e34-8202-00dca1e2ccd6''
                    [(''name'', JString ''b'')] wTwo)) = tree wTwo"
proof -
  have h: "fst (updateSnippet ''6acd8c03-4c0e-4e34-8202-00dca1e2ccd6''
                  [(''name'', JString ''b'')] wTwo) = Inl errSnippetExistsInTargetFolder"
    by code_simp
  have m: "disk wTwo \<noteq> RootMissing"
    by (simp add: wTwo_def)
  from C10_updateSnippet_errors_leave_tree [OF disjI2 [OF h]] h m show ?thesis
    by blast
qed

text \<open>
  The claim C10 as it is stated fails on a store whose root directory does not exist:
  \<open>updateSnippet\<close> returns \<open>errSnippetNotFound\<close>, and the \<open>os.MkdirAll\<close> of
  \<open>snippetsDir\<close> has created the root directory on the way.
\<close>

theorem C10_counterexample:
  "fst (updateSnippet ''6acd8c03-4c0e-4e34-8202-00dca1e2ccd6'' [(''name'', JString ''b'')]
          wMissing) = Inl errSnippetNotFound
   \<and> disk wMissing = RootMissing
   \<and> disk (snd (updateSnippet ''6acd8c03-4c0e-4e34-8202-00dca1e2ccd6''
                  [(''name'', JString ''b'')] wMissing)) = RootDir []"
  by code_simp

section \<open>Properties of the listing operations\<close>

text \<open>
  Claim C9, as amended. On a store whose scan succeeds (the root is configured and its
  path is not taken by a file), a limit of 0 or less is treated as 100, the call fails
  with \<open>errLimitExceedsMax\<close> if and only if the limit exceeds 1000, and it succeeds for
  every limit up to 1000.
\<close>

theorem C9_getSnippets_limit:
  assumes "SnippetsFolder w \<noteq> []" and "disk w \<noteq> RootFile"
  shows "(limit \<le> 0 \<longrightarrow>
            getSnippets mapLower searchTerm limit cursor sortField sortOrder folderID w
          = getSnippets mapLower searchTerm 100 cursor sortField sortOrder folderID w)
       \<and> (fst (getSnippets mapLower searchTerm limit cursor sortField sortOrder folderID w)
            = Inl errLimitExceedsMax \<longleftrightarrow> limit > 1000)
       \<and> (limit \<le> 1000 \<longrightarrow>
            (\<exists>page. fst (getSnippets mapLower searchTerm limit cursor sortField sortOrder folderID w)
                    = Inr page))"
  using assms
  by (simp add: getSnippets_def getFilesystemEntries_set Let_def split: prod.splits)

theorem C9_getSnippets_limit_witness:
  "SnippetsFolder wTwo \<noteq> [] \<and> disk wTwo \<noteq> RootFile
   \<and> fst (getSnippets asciiOnly [] 1001 [] ''name'' ''asc'' None wTwo) = Inl errLimitExceedsMax
   \<and> (\<exists>page. fst (getSnippets asciiOnly [] 1000 [] ''name'' ''asc'' None wTwo) = Inr page)
   \<and> getSnippets asciiOnly [] (- 5) [] ''name'' ''asc'' None wTwo
       = getSnippets asciiOnly [] 100 [] ''name'' ''asc'' None wTwo"
proof -
  have h: "SnippetsFolder wTwo \<noteq> []" "disk wTwo \<noteq> RootFile"
    by (simp_all add: wTwo_def)
  from C9_getSnippets_limit [OF h, of 1001 asciiOnly "[]" "[]" "''name''" "''asc''" None]
    C9_getSnippets_limit [OF h, of 1000 asciiOnly "[]" "[]" "''name''" "''asc''" None]
    C9_getSnippets_limit [OF h, of "- 5" asciiOnly "[]" "[]" "''name''" "''asc''" None]
    h
  show ?thesis by simp
qed

text \<open>
  The claim C9 as it is stated fails on a store with no root configured: the scan fails
  first, so that a limit of 1001 is not answered with \<open>errLimitExceedsMax\<close> and a limit
  of 1000 does not succeed.
\<close>

theorem C9_counterexample:
  "fst (getSnippets asciiOnly [] 1001 [] ''name'' ''asc'' None wUnset)
     = Inl errSnippetsFolderEnvNotSet
   \<and> fst (getSnippets asciiOnly [] 1001 [] ''name'' ''asc'' None wUnset) \<noteq> Inl errLimitExceedsMax
   \<and> fst (getSnippets asciiOnly [] 1000 [] ''name'' ''asc'' None wUnset)
     = Inl errSnippetsFolderEnvNotSet"
  by (simp add: getSnippets_def getFilesystemEntries_unset wUnset_def)

text \<open>
  Claim C8, as amended. On a store whose scan succeeds (the root is configured and its
  path is not taken by a file), \<open>getFolders\<close> with no parent filter returns exactly the
  top-level directories, each without a parent; with any parent filter it returns no
  folder at all.
\<close>

theorem C8_getFolders:
  assumes "SnippetsFolder w \<noteq> []" and "disk w \<noteq> RootFile"
  shows "(\<exists>fs. fst (getFolders None w) = Inr fs
            \<and> folder.Name ` set fs = {n. \<exists>mt kids. (n, DirNode mt kids) \<in> set (tree w)}
            \<and> (\<forall>f\<in>set fs. folder.ParentID f = None))
         \<and> fst (getFolders (Some parent) w) = Inr []"
proof -
  define es where "es = fst (walkRoot (os_ReadDir (tree w)) (uuids w))"
  have par: "{e \<in> set es. filesystemEntry.Type e = TFolder \<and> filesystemEntry.FolderID e = None}
      = {e \<in> set es. filesystemEntry.Type e = TFolder}"
    using walkRoot_folder_parent unfolding es_def by blast
  have "filesystemEntry.Name ` {e \<in> set es. filesystemEntry.Type e = TFolder}
      = {n. \<exists>mt kids. (n, DirNode mt kids) \<in> set (tree w)}"
    unfolding es_def walkRoot_folder_names by (simp add: set_os_ReadDir)
  then have names: "filesystemEntry.Name `
        {e \<in> set es. filesystemEntry.Type e = TFolder \<and> filesystemEntry.FolderID e = None}
      = {n. \<exists>mt kids. (n, DirNode mt kids) \<in> set (tree w)}"
    by (simp only: par)
  show ?thesis
    using assms names
    by (simp add: getFolders_def getFilesystemEntries_set es_def image_image)
qed

theorem C8_getFolders_witness:
  "SnippetsFolder wFolder \<noteq> [] \<and> disk wFolder \<noteq> RootFile
   \<and> (\<exists>fs. fst (getFolders None wFolder) = Inr fs \<and> folder.Name ` set fs = {''f''})
   \<and> fst (getFolders (Some ''03a51dfb-edea-4c84-bc28-f411896b317f'') wFolder) = Inr []"
proof -
  have h: "SnippetsFolder wFolder \<noteq> []" "disk wFolder \<noteq> RootFile"
    by (simp_all add: wFolder_def)
  have "{n. \<exists>mt kids. (n, DirNode mt kids) \<in> set (tree wFolder)} = {''f''}"
    by (auto simp: wFolder_def tree_def)
  with C8_getFolders [OF h, of "''03a51dfb-edea-4c84-bc28-f411896b317f''"] h
  show ?thesis by auto
qed

text \<open>
  The claim C8 as it is stated fails: with a parent filter the folders are not the same
  as without one. The store has the folder \<open>f\<close>; asked for the folders under \<open>f\<close>,
  \<open>getFolders\<close> returns none.
\<close>

theorem C8_counterexample:
  "fst (getFolders None wFolder)
     = Inr [\<lparr>folder.ID = ''03a51dfb-edea-4c84-bc28-f411896b317f'', Name = ''f'', OwnerID = 1,
             ParentID = None, ProjectID = 1\<rparr>]
   \<and> fst (getFolders (Some ''03a51dfb-edea-4c84-bc28-f411896b317f'') wFolder) = Inr []"
  by code_simp

section \<open>The identifiers a scan assigns\<close>

text \<open>
  Claim C3, as amended. On a store whose root is configured and whose root path is not
  taken by a file, the scan succeeds and holds: for each
  top-level directory a folder entry with the identifier of \<open>[dirName]\<close>; for each
  \<open>.sql\<close> file of the root a file entry with the identifier of \<open>[fileName]\<close>; and for
  each \<open>.sql\<close> file in a top-level directory a file entry with the identifier of
  \<open>[folderId, fileName]\<close>, where \<open>folderId\<close> is the identifier of \<open>[folderName]\<close> (not
  the folder's name itself). Directory names are not empty. The identifiers are those of
  \<open>deterministicUUID\<close> at any state \<open>g\<close> of the random source.
\<close>

theorem C3_scan_identifiers:
  assumes "SnippetsFolder w \<noteq> []" and "disk w \<noteq> RootFile"
  shows "\<exists>es. fst (getFilesystemEntries w) = Inr es
     \<and> (\<forall>n mt kids. (n, DirNode mt kids) \<in> set (tree w) \<and> n \<noteq> [] \<longrightarrow>
          \<lparr>filesystemEntry.ID = fst (deterministicUUID [n] g), Name = n, Type = TFolder,
            FolderID = None, Content = [], CreatedAt = mt\<rparr> \<in> set es)
     \<and> (\<forall>n c mt. (n, FileNode c mt) \<in> set (tree w) \<and> strings_HasSuffix n ''.sql'' \<longrightarrow>
          \<lparr>filesystemEntry.ID = fst (deterministicUUID [n] g),
            Name = strings_TrimSuffix n ''.sql'', Type = TFile, FolderID = None,
            Content = c, CreatedAt = mt\<rparr> \<in> set es)
     \<and> (\<forall>n mt kids m c t.
          (n, DirNode mt kids) \<in> set (tree w) \<and> n \<noteq> [] \<and> (m, FileNode c t) \<in> set kids
          \<and> strings_HasSuffix m ''.sql'' \<longrightarrow>
          \<lparr>filesystemEntry.ID = fst (deterministicUUID [fst (deterministicUUID [n] g), m] g),
            Name = strings_TrimSuffix m ''.sql'', Type = TFile,
            FolderID = Some (fst (deterministicUUID [n] g)), Content = c, CreatedAt = t\<rparr>
          \<in> set es)"
proof -
  define es where "es = fst (walkRoot (os_ReadDir (tree w)) (uuids w))"
  have scan: "fst (getFilesystemEntries w) = Inr es"
    using assms by (simp add: getFilesystemEntries_set es_def)
  have sql: "n \<noteq> []" if "strings_HasSuffix n ''.sql''" for n
    using that by (auto simp: strings_HasSuffix_def)
  have folders: "\<lparr>filesystemEntry.ID = fst (deterministicUUID [n] g), Name = n, Type = TFolder,
            FolderID = None, Content = [], CreatedAt = mt\<rparr> \<in> set es"
    if "(n, DirNode mt kids) \<in> set (tree w)" and "n \<noteq> []" for n mt kids
    using scan_has_folder [of n mt kids "os_ReadDir (tree w)" "uuids w"] that
    by (simp add: es_def set_os_ReadDir deterministicUUID_single)
  have rootfiles: "\<lparr>filesystemEntry.ID = fst (deterministicUUID [n] g),
            Name = strings_TrimSuffix n ''.sql'', Type = TFile, FolderID = None,
            Content = c, CreatedAt = mt\<rparr> \<in> set es"
    if "(n, FileNode c mt) \<in> set (tree w)" and "strings_HasSuffix n ''.sql''" for n c mt
    using scan_has_root_file [of n c mt "os_ReadDir (tree w)" "uuids w"] that sql [of n]
    by (simp add: es_def set_os_ReadDir deterministicUUID_single)
  have inner: "\<lparr>filesystemEntry.ID = fst (deterministicUUID [fst (deterministicUUID [n] g), m] g),
            Name = strings_TrimSuffix m ''.sql'', Type = TFile,
            FolderID = Some (fst (deterministicUUID [n] g)), Content = c, CreatedAt = t\<rparr>
          \<in> set es"
    if "(n, DirNode mt kids) \<in> set (tree w)" and "n \<noteq> []" and "(m, FileNode c t) \<in> set kids"
      and "strings_HasSuffix m ''.sql''" for n mt kids m c t
  proof -
    have "deterministicUUID [spec_identify [n], m] g = (spec_identify [spec_identify [n], m], g)"
      using sql [OF that(4)] by (intro deterministicUUID_spec joined_nonempty [of m]) simp_all
    then show ?thesis
      using scan_has_folder_file [of n mt kids "os_ReadDir (tree w)" m c t "uuids w"] that
      by (simp add: es_def set_os_ReadDir deterministicUUID_single)
  qed
  show ?thesis
    using scan folders rootfiles inner by blast
qed

theorem C3_scan_identifiers_witness:
  "SnippetsFolder wFolder \<noteq> [] \<and> disk wFolder \<noteq> RootFile
   \<and> (\<exists>es. fst (getFilesystemEntries wFolder) = Inr es
        \<and> \<lparr>filesystemEntry.ID = fst (deterministicUUID [''f''] genB), Name = ''f'',
             Type = TFolder, FolderID = None, Content = [], CreatedAt = 1\<rparr> \<in> set es
        \<and> \<lparr>filesystemEntry.ID = fst (deterministicUUID [''z.sql''] genB), Name = ''z'',
             Type = TFile, FolderID = None, Content = ''select 2'', CreatedAt = 3\<rparr> \<in> set es
        \<and> \<lparr>filesystemEntry.ID =
               fst (deterministicUUID [fst (deterministicUUID [''f''] genB), ''a.sql''] genB),
             Name = ''a'', Type = TFile,
             FolderID = Some (fst (deterministicUUID [''f''] genB)),
             Content = ''select 1'', CreatedAt = 2\<rparr> \<in> set es)"
proof -
  have h: "SnippetsFolder wFolder \<noteq> []" "disk wFolder \<noteq> RootFile"
    by (simp_all add: wFolder_def)
  have d: "(''f'', DirNode 1 [(''a.sql'', FileNode ''select 1'' 2)]) \<in> set (tree wFolder)"
    and z: "(''z.sql'', FileNode ''select 2'' 3) \<in> set (tree wFolder)"
    by (simp_all add: wFolder_def tree_def)
  have s: "strings_HasSuffix ''z.sql'' ''.sql''" "strings_HasSuffix ''a.sql'' ''.sql''"
    "strings_TrimSuffix ''z.sql'' ''.sql'' = ''z''" "strings_TrimSuffix ''a.sql'' ''.sql'' = ''a''"
    by (simp_all add: strings_HasSuffix_def strings_TrimSuffix_def)
  from C3_scan_identifiers [OF h, of genB] obtain es where
    es: "fst (getFilesystemEntries wFolder) = Inr es"
    and 1: "\<And>n mt kids. (n, DirNode mt kids) \<in> set (tree wFolder) \<and> n \<noteq> [] \<longrightarrow>
          \<lparr>filesystemEntry.ID = fst (deterministicUUID [n] genB), Name = n, Type = TFolder,
            FolderID = None, Content = [], CreatedAt = mt\<rparr> \<in> set es"
    and 2: "\<And>n c mt. (n, FileNode c mt) \<in> set (tree wFolder) \<and> strings_HasSuffix n ''.sql'' \<longrightarrow>
          \<lparr>filesystemEntry.ID = fst (deterministicUUID [n] genB),
            Name = strings_TrimSuffix n ''.sql'', Type = TFile, FolderID = None,
            Content = c, CreatedAt = mt\<rparr> \<in> set es"
    and 3: "\<And>n mt kids m c t.
          (n, DirNode mt kids) \<in> set (tree wFolder) \<and> n \<noteq> [] \<and> (m, FileNode c t) \<in> set kids
          \<and> strings_HasSuffix m ''.sql'' \<longrightarrow>
          \<lparr>filesystemEntry.ID = fst (deterministicUUID [fst (deterministicUUID [n] genB), m] genB),
            Name = strings_TrimSuffix m ''.sql'', Type = TFile,
            FolderID = Some (fst (deterministicUUID [n] genB)), Content = c, CreatedAt = t\<rparr>
          \<in> set es"
    by blast
  from 1 [of "''f''" 1 "[(''a.sql'', FileNode ''select 1'' 2)]"] d
  have a: "\<lparr>filesystemEntry.ID = fst (deterministicUUID [''f''] genB), Name = ''f'',
             Type = TFolder, FolderID = None, Content = [], CreatedAt = 1\<rparr> \<in> set es"
    by simp
  from 2 [of "''z.sql''" "''select 2''" 3] z s
  have b: "\<lparr>filesystemEntry.ID = fst (deterministicUUID [''z.sql''] genB), Name = ''z'',
             Type = TFile, FolderID = None, Content = ''select 2'', CreatedAt = 3\<rparr> \<in> set es"
    by simp
  from 3 [of "''f''" 1 "[(''a.sql'', FileNode ''select 1'' 2)]" "''a.sql''" "''select 1''" 2] d s
  have c: "\<lparr>filesystemEntry.ID =
               fst (deterministicUUID [fst (deterministicUUID [''f''] genB), ''a.sql''] genB),
             Name = ''a'', Type = TFile,
             FolderID = Some (fst (deterministicUUID [''f''] genB)),
             Content = ''select 1'', CreatedAt = 2\<rparr> \<in> set es"
    by simp
  from h es a b c show ?thesis by blast
qed

text \<open>
  The claim C3 as it is stated fails for a file in a folder: the scan of the store with
  \<open>f/a.sql\<close> gives that file the identifier of \<open>[identifier of f, "a.sql"]\<close>, which is not
  the identifier of \<open>["f", "a.sql"]\<close>.
\<close>

theorem C3_counterexample:
  "fst (getFilesystemEntries wFolder)
     = Inr [\<lparr>filesystemEntry.ID = ''03a51dfb-edea-4c84-bc28-f411896b317f'', Name = ''f'',
              Type = TFolder, FolderID = None, Content = [], CreatedAt = 1\<rparr>,
            \<lparr>filesystemEntry.ID = ''b0b9ad79-8a2e-498c-8ad0-9d18f7f77de4'', Name = ''a'',
              Type = TFile, FolderID = Some ''03a51dfb-edea-4c84-bc28-f411896b317f'',
              Content = ''select 1'', CreatedAt = 2\<rparr>,
            \<lparr>filesystemEntry.ID = ''c998db7f-bae5-4f8d-be09-79f2cd66b101'', Name = ''z'',
              Type = TFile, FolderID = None, Content = ''select 2'', CreatedAt = 3\<rparr>]
   \<and> fst (deterministicUUID [''f'', ''a.sql''] genA) = ''49cdc790-98f4-4cb9-b53d-2855fb557b5b''
   \<and> fst (deterministicUUID [''f'', ''a.sql''] genA) \<noteq> ''b0b9ad79-8a2e-498c-8ad0-9d18f7f77de4''"
proof -
  have "fst (deterministicUUID [''f'', ''a.sql''] genA) = ''49cdc790-98f4-4cb9-b53d-2855fb557b5b''"
    by code_simp
  with scan_wFolder show ?thesis by simp
qed

section \<open>Filtering, sorting and paging in \<open>getSnippets\<close>\<close>

lemma matchesFolder_eq: "matchesFolder a b \<longleftrightarrow> a = b"
  by (cases a; cases b) (simp_all add: matchesFolder_def)

lemma filterEntries_matchesQuery:
  "filterEntries mapLower searchTerm folderID files
     = filter (matchesQuery mapLower searchTerm folderID) files"
  by (simp add: filterEntries_def matchesQuery_def [abs_def] matchesFolder_eq Let_def)

lemma set_sortEntries [simp]:
  "set (sortEntries mapLower sortField sortOrder xs) = set xs"
  by (simp add: sortEntries_def Let_def)

lemma length_sortEntries [simp]:
  "length (sortEntries mapLower sortField sortOrder xs) = length xs"
  by (simp add: sortEntries_def Let_def)

text \<open>
  The cursor loop: one past the first entry with the cursor's id, or 0 when no entry has
  it.
\<close>

lemma cursorLoop_found:
  assumes "filesystemEntry.ID e = cursor" and "cursor \<notin> filesystemEntry.ID ` set pre"
  shows "cursorLoop cursor (pre @ e # post) idx = idx + length pre + 1"
  using assms by (induction pre arbitrary: idx) auto

lemma cursorLoop_unknown:
  "cursor \<notin> filesystemEntry.ID ` set xs \<Longrightarrow> cursorLoop cursor xs idx = 0"
  by (induction xs arbitrary: idx) auto

lemma cursorStart_found:
  assumes "cursor \<noteq> []" and "filesystemEntry.ID e = cursor"
    and "cursor \<notin> filesystemEntry.ID ` set pre"
  shows "drop (cursorStart cursor (pre @ e # post)) (pre @ e # post) = post"
  using cursorLoop_found [OF assms(2,3), of post 0] assms(1)
  by (simp add: cursorStart_def)

lemma cursorStart_unknown:
  "cursor = [] \<or> cursor \<notin> filesystemEntry.ID ` set xs \<Longrightarrow> cursorStart cursor xs = 0"
  by (auto simp: cursorStart_def cursorLoop_unknown)

text \<open>
  The result of a list call whose scan succeeds and whose limit is accepted: the page is
  cut out of the filtered and sorted list, after the cursor.
\<close>

lemma getSnippets_page:
  fixes mapLower :: "string \<Rightarrow> string" and searchTerm sortField sortOrder cursor :: string
    and folderID :: "string option" and lim :: int
  assumes scan: "fst (getFilesystemEntries w) = Inr es"
    and lim: "0 < lim" "lim \<le> 1000"
  defines "L \<equiv> sortEntries mapLower sortField sortOrder
                 (filterEntries mapLower searchTerm folderID
                    (filter (\<lambda>e. filesystemEntry.Type e = TFile) es))"
  defines "rest \<equiv> drop (cursorStart cursor L) L"
  shows "fst (getSnippets mapLower searchTerm lim cursor sortField sortOrder folderID w)
     = Inr (if int (length rest) > lim then filesystemEntry.ID (rest ! (nat lim - 1)) else [],
            fst (buildSnippets (take (nat lim) rest) (uuids (snd (getFilesystemEntries w)))))"
    and "snd (getSnippets mapLower searchTerm lim cursor sortField sortOrder folderID w)
     = w\<lparr>disk := RootDir (tree w),
           uuids := snd (buildSnippets (take (nat lim) rest)
                        (uuids (snd (getFilesystemEntries w))))\<rparr>"
proof -
  have conf: "SnippetsFolder w \<noteq> []" "disk w \<noteq> RootFile"
    using scan by (rule getFilesystemEntries_Inr, rule getFilesystemEntries_Inr_disk)
  have es: "es = fst (walkRoot (os_ReadDir (tree w)) (uuids w))"
    using scan conf by (simp add: getFilesystemEntries_set)
  have short: "take (nat lim) rest = rest" if "\<not> int (length rest) > lim"
    using that by simp
  show "fst (getSnippets mapLower searchTerm lim cursor sortField sortOrder folderID w)
     = Inr (if int (length rest) > lim then filesystemEntry.ID (rest ! (nat lim - 1)) else [],
            fst (buildSnippets (take (nat lim) rest) (uuids (snd (getFilesystemEntries w)))))"
    using lim conf short unfolding rest_def L_def es
    by (simp add: getSnippets_def getFilesystemEntries_set Let_def split_beta)
  show "snd (getSnippets mapLower searchTerm lim cursor sortField sortOrder folderID w)
     = w\<lparr>disk := RootDir (tree w),
           uuids := snd (buildSnippets (take (nat lim) rest)
                        (uuids (snd (getFilesystemEntries w))))\<rparr>"
    using lim conf short unfolding rest_def L_def es
    by (simp add: getSnippets_def getFilesystemEntries_set Let_def split_beta)
qed

lemma getSnippets_default:
  "limit \<le> 0 \<Longrightarrow>
     getSnippets mapLower searchTerm limit cursor sortField sortOrder folderID w
   = getSnippets mapLower searchTerm 100 cursor sortField sortOrder folderID w"
  by (simp add: getSnippets_def Let_def)

lemma spec_identify_nonempty: "spec_identify p \<noteq> []"
  by (simp add: spec_identify_def spec_format_def)

text \<open>The snippets built from file entries of a scan carry the identifiers of the entries.\<close>

lemma buildSnippets_ids:
  assumes "fst (getFilesystemEntries w) = Inr es"
    and "set xs \<subseteq> {e \<in> set es. filesystemEntry.Type e = TFile}"
  shows "map snippet.ID (fst (buildSnippets xs g)) = map filesystemEntry.ID xs"
proof -
  have "spec_identify (idInputs (filesystemEntry.Name e) (filesystemEntry.FolderID e))
        = filesystemEntry.ID e" if "e \<in> set xs" for e
    using scan_file_ids [OF assms(1), of e] assms(2) that by auto
  then show ?thesis
    by (simp add: buildSnippets_proj)
qed

lemma listed_are_files:
  "set (sortEntries mapLower sortField sortOrder
          (filterEntries mapLower searchTerm folderID
             (filter (\<lambda>e. filesystemEntry.Type e = TFile) es)))
     \<subseteq> {e \<in> set es. filesystemEntry.Type e = TFile}"
  by (auto simp: filterEntries_matchesQuery)

lemma last_page_id:
  assumes "0 < k" and "k < length xs"
  shows "last (map f (take k xs)) = f (xs ! (k - 1))"
proof -
  have ne: "take k xs \<noteq> []" and len: "length (take k xs) = k"
    using assms by auto
  have "last (map f (take k xs)) = f (last (take k xs))"
    using ne by (simp add: last_map)
  also have "last (take k xs) = take k xs ! (k - 1)"
    using ne len by (simp add: last_conv_nth)
  also have "\<dots> = xs ! (k - 1)"
    using assms by simp
  finally show ?thesis .
qed

lemma buildSnippets_fields:
  "map (\<lambda>s. (snippet.Name s, snippet.FolderID s, SQL (snippet.Content s)))
       (fst (buildSnippets es g))
   = map (\<lambda>e. (filesystemEntry.Name e, filesystemEntry.FolderID e, filesystemEntry.Content e)) es"
  by (induction es arbitrary: g) (simp_all add: buildSnippet_eq split_beta)

text \<open>
  Claim C5, as amended. A list call whose scan succeeds and whose limit is accepted
  returns the page (the entries after the cursor, at most \<open>limit\<close> of them) of the sorted
  list \<open>matching\<close>, which holds exactly the file entries that match the query: with a
  search term those whose lower-cased name contains the lower-cased term, in whatever
  folder and whatever the folder filter; without one those whose folder equals the filter.
  With no cursor and at most \<open>limit\<close> matching entries the result is that whole list.
\<close>

theorem C5_getSnippets_filter:
  fixes mapLower :: "string \<Rightarrow> string" and searchTerm sortField sortOrder cursor :: string
    and folderFilter :: "string option" and limit lim :: int
  assumes scan: "fst (getFilesystemEntries w) = Inr es"
    and lim: "lim = (if limit \<le> 0 then 100 else limit)" "lim \<le> 1000"
  defines "matching \<equiv> sortEntries mapLower sortField sortOrder
             (filter (\<lambda>e. filesystemEntry.Type e = TFile
                           \<and> matchesQuery mapLower searchTerm folderFilter e) es)"
  shows "\<exists>nextCursor snippets.
           fst (getSnippets mapLower searchTerm limit cursor sortField sortOrder folderFilter w)
             = Inr (nextCursor, snippets)
         \<and> map (\<lambda>s. (snippet.Name s, snippet.FolderID s, SQL (snippet.Content s))) snippets
             = map (\<lambda>e. (filesystemEntry.Name e, filesystemEntry.FolderID e,
                          filesystemEntry.Content e))
                 (take (nat lim) (drop (cursorStart cursor matching) matching))
         \<and> set matching = {e \<in> set es. filesystemEntry.Type e = TFile
                                        \<and> matchesQuery mapLower searchTerm folderFilter e}
         \<and> (cursor = [] \<and> int (length matching) \<le> lim \<longrightarrow>
              map (\<lambda>s. (snippet.Name s, snippet.FolderID s, SQL (snippet.Content s))) snippets
                = map (\<lambda>e. (filesystemEntry.Name e, filesystemEntry.FolderID e,
                             filesystemEntry.Content e)) matching)"
proof -
  have pos: "0 < lim" using lim(1) by (simp split: if_splits)
  have call: "getSnippets mapLower searchTerm limit cursor sortField sortOrder folderFilter w
      = getSnippets mapLower searchTerm lim cursor sortField sortOrder folderFilter w"
    using lim(1) getSnippets_default [of limit] by (simp split: if_splits)
  have m: "matching = sortEntries mapLower sortField sortOrder
             (filterEntries mapLower searchTerm folderFilter
                (filter (\<lambda>e. filesystemEntry.Type e = TFile) es))"
    by (simp add: matching_def filterEntries_matchesQuery conj_commute)
  define page where "page = take (nat lim) (drop (cursorStart cursor matching) matching)"
  define snippets where
    "snippets = fst (buildSnippets page (uuids (snd (getFilesystemEntries w))))"
  have res: "\<exists>nextCursor.
      fst (getSnippets mapLower searchTerm limit cursor sortField sortOrder folderFilter w)
        = Inr (nextCursor, snippets)"
    unfolding call snippets_def page_def m
    using getSnippets_page(1) [OF scan pos lim(2)] by blast
  have proj: "map (\<lambda>s. (snippet.Name s, snippet.FolderID s, SQL (snippet.Content s))) snippets
      = map (\<lambda>e. (filesystemEntry.Name e, filesystemEntry.FolderID e,
                   filesystemEntry.Content e)) page"
    unfolding snippets_def by (rule buildSnippets_fields)
  have whole: "page = matching" if "cursor = []" and "int (length matching) \<le> lim"
    using that by (simp add: page_def cursorStart_def)
  have "set matching = {e \<in> set es. filesystemEntry.Type e = TFile
                                  \<and> matchesQuery mapLower searchTerm folderFilter e}"
    by (auto simp: matching_def)
  with res proj whole show ?thesis
    unfolding page_def by auto
qed

theorem C5_getSnippets_filter_witness:
  "fst (getFilesystemEntries wFolder)
     = Inr [\<lparr>filesystemEntry.ID = ''03a51dfb-edea-4c84-bc28-f411896b317f'', Name = ''f'',
              Type = TFolder, FolderID = None, Content = [], CreatedAt = 1\<rparr>,
            \<lparr>filesystemEntry.ID = ''b0b9ad79-8a2e-498c-8ad0-9d18f7f77de4'', Name = ''a'',
              Type = TFile, FolderID = Some ''03a51dfb-edea-4c84-bc28-f411896b317f'',
              Content = ''select 1'', CreatedAt = 2\<rparr>,
            \<lparr>filesystemEntry.ID = ''c998db7f-bae5-4f8d-be09-79f2cd66b101'', Name = ''z'',
              Type = TFile, FolderID = None, Content = ''select 2'', CreatedAt = 3\<rparr>]
   \<and> (100::int) = (if (0::int) \<le> 0 then 100 else 0) \<and> (100::int) \<le> 1000
   \<and> (\<exists>nextCursor snippets.
         fst (getSnippets asciiOnly ''A'' 0 [] ''name'' ''asc'' (Some ''no such folder'') wFolder)
           = Inr (nextCursor, snippets)
       \<and> map (\<lambda>s. (snippet.Name s, snippet.FolderID s, SQL (snippet.Content s))) snippets
           = [(''a'', Some ''03a51dfb-edea-4c84-bc28-f411896b317f'', ''select 1'')])"
proof -
  define es where "es =
     [\<lparr>filesystemEntry.ID = ''03a51dfb-edea-4c84-bc28-f411896b317f'', Name = ''f'',
        Type = TFolder, FolderID = None, Content = [], CreatedAt = 1\<rparr>,
      \<lparr>filesystemEntry.ID = ''b0b9ad79-8a2e-498c-8ad0-9d18f7f77de4'', Name = ''a'',
        Type = TFile, FolderID = Some ''03a51dfb-edea-4c84-bc28-f411896b317f'',
        Content = ''select 1'', CreatedAt = 2\<rparr>,
      \<lparr>filesystemEntry.ID = ''c998db7f-bae5-4f8d-be09-79f2cd66b101'', Name = ''z'',
        Type = TFile, FolderID = None, Content = ''select 2'', CreatedAt = 3\<rparr>]"
  have scan: "fst (getFilesystemEntries wFolder) = Inr es"
    unfolding es_def by (rule scan_wFolder)
  have l1: "(100::int) = (if (0::int) \<le> 0 then 100 else 0)" and l2: "(100::int) \<le> 1000"
    by simp_all
  have m: "sortEntries asciiOnly ''name'' ''asc''
             (filter (\<lambda>e. filesystemEntry.Type e = TFile
                        \<and> matchesQuery asciiOnly ''A'' (Some ''no such folder'') e) es)
           = [es ! 1]"
    unfolding es_def by code_simp
  from C5_getSnippets_filter [where mapLower = asciiOnly and sortField = "''name''"
      and sortOrder = "''asc''" and searchTerm = "''A''"
      and folderFilter = "Some ''no such folder''" and cursor = "[]",
      OF scan l1 l2, unfolded m]
  obtain nextCursor snippets where
    "fst (getSnippets asciiOnly ''A'' 0 [] ''name'' ''asc'' (Some ''no such folder'') wFolder)
       = Inr (nextCursor, snippets)"
    and "map (\<lambda>s. (snippet.Name s, snippet.FolderID s, SQL (snippet.Content s))) snippets
       = map (\<lambda>e. (filesystemEntry.Name e, filesystemEntry.FolderID e,
                    filesystemEntry.Content e)) [es ! 1]"
    by (auto simp: cursorStart_def)
  then show ?thesis
    using scan l1 l2 unfolding es_def by auto
qed

text \<open>
  The claim C5 as it is stated fails whenever the page is cut: both snippets of the store
  are in no folder and match the null filter, and a call with limit 1 returns one of
  them.
\<close>

theorem C5_counterexample:
  "map_sum id (map (\<lambda>e. (filesystemEntry.Name e, filesystemEntry.Type e,
                          filesystemEntry.FolderID e)))
     (fst (getFilesystemEntries wTwo)) = Inr [(''a'', TFile, None), (''b'', TFile, None)]
   \<and> map_sum id (map_prod id (map snippet.Name))
     (fst (getSnippets asciiOnly [] 1 [] ''name'' ''asc'' None wTwo))
     = Inr (''6acd8c03-4c0e-4e34-8202-00dca1e2ccd6'', [''a''])"
  by code_simp

text \<open>
  Claim C4, as amended. For a list call whose scan succeeds, with a limit between 1 and
  1000, and \<open>L\<close> the filtered and sorted list of file entries:
  \<^item> with a non-empty cursor the page begins immediately after the first entry of \<open>L\<close>
    whose id equals the cursor;
  \<^item> with no cursor, or a cursor that no entry of \<open>L\<close> carries, it begins at the start;
  \<^item> when more entries remain after the page, \<open>nextCursor\<close> is the id of the last
    returned snippet;
  \<^item> when the ids in \<open>L\<close> are pairwise distinct (and no top-level directory has an
    empty name), a first call without cursor that leaves entries behind, followed by a
    call with the returned cursor, yields together the first \<open>2 * limit\<close> entries of
    \<open>L\<close> in order, without duplicate and without gap;
  \<^item> \<open>L\<close> is what a call with limit 1000 and no cursor returns, when it has at most
    1000 entries.
\<close>

theorem C4_getSnippets_cursor:
  fixes mapLower :: "string \<Rightarrow> string" and searchTerm sortField sortOrder cursor :: string
    and folderID :: "string option" and lim :: int
  assumes scan: "fst (getFilesystemEntries w) = Inr es"
    and lim: "0 < lim" "lim \<le> 1000"
  defines "L \<equiv> sortEntries mapLower sortField sortOrder
                 (filterEntries mapLower searchTerm folderID
                    (filter (\<lambda>e. filesystemEntry.Type e = TFile) es))"
  shows "\<exists>nc snips.
      fst (getSnippets mapLower searchTerm lim cursor sortField sortOrder folderID w)
        = Inr (nc, snips)
    \<and> (cursor \<noteq> [] \<and> L = pre @ e # post \<and> filesystemEntry.ID e = cursor
         \<and> cursor \<notin> filesystemEntry.ID ` set pre \<longrightarrow>
           map snippet.ID snips = map filesystemEntry.ID (take (nat lim) post)
         \<and> (lim < int (length post) \<longrightarrow> nc = snippet.ID (last snips)))
    \<and> (cursor = [] \<or> cursor \<notin> filesystemEntry.ID ` set L \<longrightarrow>
           map snippet.ID snips = map filesystemEntry.ID (take (nat lim) L)
         \<and> (lim < int (length L) \<longrightarrow> nc = snippet.ID (last snips)))
    \<and> (cursor = [] \<and> lim < int (length L) \<and> distinct (map filesystemEntry.ID L)
         \<and> (\<forall>mt kids. ([], DirNode mt kids) \<notin> set (tree w)) \<longrightarrow>
           (\<exists>nc2 snips2.
              fst (getSnippets mapLower searchTerm lim nc sortField sortOrder folderID
                     (snd (getSnippets mapLower searchTerm lim cursor sortField sortOrder
                             folderID w)))
                = Inr (nc2, snips2)
            \<and> map snippet.ID (snips @ snips2) = map filesystemEntry.ID (take (2 * nat lim) L)))
    \<and> (int (length L) \<le> 1000 \<longrightarrow>
           (\<exists>full. fst (getSnippets mapLower searchTerm 1000 [] sortField sortOrder folderID w)
                     = Inr ([], full)
                 \<and> map snippet.ID full = map filesystemEntry.ID L))"
proof -
  define k where "k = nat lim"
  have k: "0 < k" "int k = lim" using lim by (simp_all add: k_def)
  have files: "set L \<subseteq> {e \<in> set es. filesystemEntry.Type e = TFile}"
    unfolding L_def by (rule listed_are_files)
  have ids: "map snippet.ID (fst (buildSnippets xs g)) = map filesystemEntry.ID xs"
    if "set xs \<subseteq> set L" for xs g
    using that files by (intro buildSnippets_ids [OF scan]) blast
  text \<open>What a call with cursor \<open>c\<close> returns, from a state with the same scan.\<close>
  have page: "fst (getSnippets mapLower searchTerm lim c sortField sortOrder folderID v)
      = Inr (if int (length (drop (cursorStart c L) L)) > lim
             then filesystemEntry.ID (drop (cursorStart c L) L ! (nat lim - 1)) else [],
             fst (buildSnippets (take (nat lim) (drop (cursorStart c L) L))
                    (uuids (snd (getFilesystemEntries v)))))"
    if "fst (getFilesystemEntries v) = Inr es" for c v
    unfolding L_def by (rule getSnippets_page(1) [OF that lim])
  have more_iff: "lim < int n \<longleftrightarrow> k < n" for n
    using k(2) by auto
  define rest where "rest = drop (cursorStart cursor L) L"
  define nc where
    "nc = (if k < length rest then filesystemEntry.ID (rest ! (k - 1)) else [])"
  define snips where
    "snips = fst (buildSnippets (take k rest) (uuids (snd (getFilesystemEntries w))))"
  have res: "fst (getSnippets mapLower searchTerm lim cursor sortField sortOrder folderID w)
      = Inr (nc, snips)"
    unfolding page [OF scan, of cursor] nc_def snips_def rest_def more_iff
    by (simp add: k_def)
  have sids: "map snippet.ID snips = map filesystemEntry.ID (take k rest)"
    unfolding snips_def by (rule ids) (auto simp: rest_def dest: in_set_takeD in_set_dropD)
  have lastid: "nc = snippet.ID (last snips)" if "k < length rest"
  proof -
    have "length snips = k"
      using that by (simp add: snips_def length_buildSnippets)
    then have "snips \<noteq> []" using k(1) by auto
    then have "snippet.ID (last snips) = last (map snippet.ID snips)"
      by (simp add: last_map)
    also have "\<dots> = filesystemEntry.ID (rest ! (k - 1))"
      unfolding sids using k(1) that by (rule last_page_id)
    finally show ?thesis using that by (simp add: nc_def)
  qed
  have a: "map snippet.ID snips = map filesystemEntry.ID (take (nat lim) post)
         \<and> (lim < int (length post) \<longrightarrow> nc = snippet.ID (last snips))"
    if "cursor \<noteq> []" "L = pre @ e # post" "filesystemEntry.ID e = cursor"
      "cursor \<notin> filesystemEntry.ID ` set pre"
  proof -
    have "rest = post"
      unfolding rest_def that(2) by (rule cursorStart_found [OF that(1,3,4)])
    then show ?thesis
      using sids lastid more_iff [of "length post"] by (simp add: k_def)
  qed
  have b: "map snippet.ID snips = map filesystemEntry.ID (take (nat lim) L)
         \<and> (lim < int (length L) \<longrightarrow> nc = snippet.ID (last snips))"
    if "cursor = [] \<or> cursor \<notin> filesystemEntry.ID ` set L"
  proof -
    have "rest = L"
      unfolding rest_def using cursorStart_unknown [OF that] by simp
    then show ?thesis
      using sids lastid more_iff [of "length L"] by (simp add: k_def)
  qed
  have d: "\<exists>nc2 snips2.
              fst (getSnippets mapLower searchTerm lim nc sortField sortOrder folderID
                     (snd (getSnippets mapLower searchTerm lim cursor sortField sortOrder
                             folderID w)))
                = Inr (nc2, snips2)
            \<and> map snippet.ID (snips @ snips2) = map filesystemEntry.ID (take (2 * nat lim) L)"
    if c: "cursor = []" and more: "lim < int (length L)"
      and dist: "distinct (map filesystemEntry.ID L)"
      and names: "\<forall>mt kids. ([], DirNode mt kids) \<notin> set (tree w)"
  proof -
    have kl: "k < length L" using more more_iff by simp
    have restL: "rest = L" by (simp add: rest_def c cursorStart_def)
    have ncid: "nc = filesystemEntry.ID (L ! (k - 1))"
      using kl by (simp add: nc_def restL)
    have first: "map snippet.ID snips = map filesystemEntry.ID (take k L)"
      using sids by (simp add: restL)
    define w' where
      "w' = snd (getSnippets mapLower searchTerm lim cursor sortField sortOrder folderID w)"
    have conf: "SnippetsFolder w \<noteq> []" "disk w \<noteq> RootFile"
      using scan by (rule getFilesystemEntries_Inr, rule getFilesystemEntries_Inr_disk)
    have es: "es = fst (walkRoot (os_ReadDir (tree w)) (uuids w))"
      using scan conf by (simp add: getFilesystemEntries_set)
    define v where "v = w\<lparr>disk := RootDir (tree w)\<rparr>"
    have v: "SnippetsFolder v \<noteq> []" "disk v \<noteq> RootFile" "tree v = tree w"
      using conf by (simp_all add: v_def)
    obtain g' where w': "w' = v\<lparr>uuids := g'\<rparr>"
      unfolding w'_def v_def using getSnippets_page(2) [OF scan lim] by simp
    have scan': "fst (getFilesystemEntries w') = Inr es"
      unfolding w' es using scan_pure [OF v(1,2), of g' "uuids w"] names by (simp add: v(3))
    text \<open>The cursor is found at position \<open>k - 1\<close> and nowhere before.\<close>
    have split: "L = take (k - 1) L @ L ! (k - 1) # drop k L"
      using id_take_nth_drop [of "k - 1" L] kl k(1) by simp
    have "L ! (k - 1) \<in> set L" using kl by simp
    then have "L ! (k - 1) \<in> set es" and "filesystemEntry.Type (L ! (k - 1)) = TFile"
      using files by auto
    then have "\<exists>p. filesystemEntry.ID (L ! (k - 1)) = spec_identify p"
      using scan_file_ids [OF scan] by blast
    then have nonempty: "nc \<noteq> []"
      by (metis ncid spec_identify_nonempty)
    have before: "nc \<notin> filesystemEntry.ID ` set (take (k - 1) L)"
    proof
      assume "nc \<in> filesystemEntry.ID ` set (take (k - 1) L)"
      then obtain x where x: "x \<in> set (take (k - 1) L)" "filesystemEntry.ID x = nc"
        by auto
      then obtain i where i: "i < k - 1" "take (k - 1) L ! i = x" "i < length L"
        using kl by (auto simp: in_set_conv_nth)
      then have "map filesystemEntry.ID L ! i = map filesystemEntry.ID L ! (k - 1)"
        using x(2) kl by (simp add: ncid)
      moreover have "i < length (map filesystemEntry.ID L)"
        and "k - 1 < length (map filesystemEntry.ID L)"
        using i(3) kl by simp_all
      ultimately have "i = k - 1"
        using dist by (metis nth_eq_iff_index_eq)
      then show False using i(1) by simp
    qed
    have "drop (cursorStart nc L) L
          = drop (cursorStart nc (take (k - 1) L @ L ! (k - 1) # drop k L))
              (take (k - 1) L @ L ! (k - 1) # drop k L)"
      using split by simp
    also have "\<dots> = drop k L"
      using nonempty before by (intro cursorStart_found) (simp_all add: ncid)
    finally have rest2: "drop (cursorStart nc L) L = drop k L" .
    define snips2 where
      "snips2 = fst (buildSnippets (take k (drop k L)) (uuids (snd (getFilesystemEntries w'))))"
    have res2: "\<exists>nc2. fst (getSnippets mapLower searchTerm lim nc sortField sortOrder folderID w')
        = Inr (nc2, snips2)"
      unfolding page [OF scan', of nc] rest2 snips2_def by (simp add: k_def)
    have second: "map snippet.ID snips2 = map filesystemEntry.ID (take k (drop k L))"
      unfolding snips2_def by (rule ids) (auto dest: in_set_takeD in_set_dropD)
    have "map snippet.ID (snips @ snips2) = map filesystemEntry.ID (take (2 * k) L)"
      using first second take_add [of k k L] by (simp add: mult_2)
    then show ?thesis
      using res2 by (auto simp: w'_def k_def)
  qed
  have e: "\<exists>full. fst (getSnippets mapLower searchTerm 1000 [] sortField sortOrder folderID w)
                     = Inr ([], full)
                 \<and> map snippet.ID full = map filesystemEntry.ID L"
    if "int (length L) \<le> 1000"
  proof -
    have "fst (getSnippets mapLower searchTerm 1000 [] sortField sortOrder folderID w)
        = Inr (if int (length (drop (cursorStart [] L) L)) > 1000
               then filesystemEntry.ID (drop (cursorStart [] L) L ! (nat 1000 - 1)) else [],
               fst (buildSnippets (take (nat 1000) (drop (cursorStart [] L) L))
                      (uuids (snd (getFilesystemEntries w)))))"
      unfolding L_def by (rule getSnippets_page(1) [OF scan]) simp_all
    then have "fst (getSnippets mapLower searchTerm 1000 [] sortField sortOrder folderID w)
        = Inr ([], fst (buildSnippets L (uuids (snd (getFilesystemEntries w)))))"
      using that by (simp add: cursorStart_def)
    moreover have "map snippet.ID (fst (buildSnippets L (uuids (snd (getFilesystemEntries w)))))
        = map filesystemEntry.ID L"
      by (rule ids) simp
    ultimately show ?thesis by blast
  qed
  from res a b d e show ?thesis by blast
qed

theorem C4_getSnippets_cursor_witness:
  "fst (getFilesystemEntries wFive)
     = Inr [\<lparr>filesystemEntry.ID = ''6acd8c03-4c0e-4e34-8202-00dca1e2ccd6'', Name = ''a'',
              Type = TFile, FolderID = None, Content = ''select 1'', CreatedAt = 1\<rparr>,
            \<lparr>filesystemEntry.ID = ''5a5ac3a1-659c-49db-934a-56a9a3f1acce'', Name = ''b'',
              Type = TFile, FolderID = None, Content = ''select 2'', CreatedAt = 2\<rparr>,
            \<lparr>filesystemEntry.ID = ''49e8f940-7e29-4383-a592-ad77a5018dc5'', Name = ''c'',
              Type = TFile, FolderID = None, Content = ''select 3'', CreatedAt = 3\<rparr>,
            \<lparr>filesystemEntry.ID = ''38752fdf-97b7-4d2a-b7da-0445a7106dbd'', Name = ''d'',
              Type = TFile, FolderID = None, Content = ''select 4'', CreatedAt = 4\<rparr>,
            \<lparr>filesystemEntry.ID = ''2802667d-b045-47d1-8922-5b13a8204db4'', Name = ''e'',
              Type = TFile, FolderID = None, Content = ''select 5'', CreatedAt = 5\<rparr>]
   \<and> (\<exists>nc snips nc2 snips2.
         fst (getSnippets asciiOnly [] 2 [] ''name'' ''asc'' None wFive) = Inr (nc, snips)
       \<and> map snippet.ID snips = [''6acd8c03-4c0e-4e34-8202-00dca1e2ccd6'',
                                  ''5a5ac3a1-659c-49db-934a-56a9a3f1acce'']
       \<and> nc = snippet.ID (last snips)
       \<and> fst (getSnippets asciiOnly [] 2 nc ''name'' ''asc'' None
                (snd (getSnippets asciiOnly [] 2 [] ''name'' ''asc'' None wFive)))
           = Inr (nc2, snips2)
       \<and> map snippet.ID (snips @ snips2)
           = [''6acd8c03-4c0e-4e34-8202-00dca1e2ccd6'', ''5a5ac3a1-659c-49db-934a-56a9a3f1acce'',
              ''49e8f940-7e29-4383-a592-ad77a5018dc5'', ''38752fdf-97b7-4d2a-b7da-0445a7106dbd''])"
proof -
  define es where "es =
     [\<lparr>filesystemEntry.ID = ''6acd8c03-4c0e-4e34-8202-00dca1e2ccd6'', Name = ''a'',
        Type = TFile, FolderID = None, Content = ''select 1'', CreatedAt = 1\<rparr>,
      \<lparr>filesystemEntry.ID = ''5a5ac3a1-659c-49db-934a-56a9a3f1acce'', Name = ''b'',
        Type = TFile, FolderID = None, Content = ''select 2'', CreatedAt = 2\<rparr>,
      \<lparr>filesystemEntry.ID = ''49e8f940-7e29-4383-a592-ad77a5018dc5'', Name = ''c'',
        Type = TFile, FolderID = None, Content = ''select 3'', CreatedAt = 3\<rparr>,
      \<lparr>filesystemEntry.ID = ''38752fdf-97b7-4d2a-b7da-0445a7106dbd'', Name = ''d'',
        Type = TFile, FolderID = None, Content = ''select 4'', CreatedAt = 4\<rparr>,
      \<lparr>filesystemEntry.ID = ''2802667d-b045-47d1-8922-5b13a8204db4'', Name = ''e'',
        Type = TFile, FolderID = None, Content = ''select 5'', CreatedAt = 5\<rparr>]"
  have scan: "fst (getFilesystemEntries wFive) = Inr es"
    unfolding es_def by (rule scan_wFive)
  have L: "sortEntries asciiOnly ''name'' ''asc''
             (filterEntries asciiOnly [] None
                (filter (\<lambda>e. filesystemEntry.Type e = TFile) es)) = es"
    unfolding es_def by code_simp
  have dist: "distinct (map filesystemEntry.ID es)"
    unfolding es_def by simp
  have len: "(2::int) < int (length es)" and tk: "take 2 es = [es ! 0, es ! 1]"
    and tk4: "take 4 es = [es ! 0, es ! 1, es ! 2, es ! 3]"
    unfolding es_def by simp_all
  have names: "\<forall>mt kids. ([], DirNode mt kids) \<notin> set (tree wFive)"
    by (simp add: wFive_def tree_def)
  from C4_getSnippets_cursor [where lim = 2 and cursor = "[]" and mapLower = asciiOnly
      and sortField = "''name''" and sortOrder = "''asc''" and searchTerm = "[]"
      and folderID = None and pre = "[]" and e = "es ! 0" and post = "[]",
      OF scan, unfolded L]
  obtain nc snips where
    res: "fst (getSnippets asciiOnly [] 2 [] ''name'' ''asc'' None wFive) = Inr (nc, snips)"
    and first: "map snippet.ID snips = map filesystemEntry.ID (take (nat 2) es)"
      "nc = snippet.ID (last snips)"
    and second: "\<exists>nc2 snips2.
         fst (getSnippets asciiOnly [] 2 nc ''name'' ''asc'' None
                (snd (getSnippets asciiOnly [] 2 [] ''name'' ''asc'' None wFive)))
           = Inr (nc2, snips2)
       \<and> map snippet.ID (snips @ snips2) = map filesystemEntry.ID (take (2 * nat 2) es)"
    using len dist names by auto
  have "map filesystemEntry.ID (take (nat 2) es)
          = [''6acd8c03-4c0e-4e34-8202-00dca1e2ccd6'', ''5a5ac3a1-659c-49db-934a-56a9a3f1acce'']"
    and "map filesystemEntry.ID (take (2 * nat 2) es)
          = [''6acd8c03-4c0e-4e34-8202-00dca1e2ccd6'', ''5a5ac3a1-659c-49db-934a-56a9a3f1acce'',
             ''49e8f940-7e29-4383-a592-ad77a5018dc5'', ''38752fdf-97b7-4d2a-b7da-0445a7106dbd'']"
    by (simp_all add: tk tk4) (simp_all add: es_def)
  with res first second scan show ?thesis
    unfolding es_def by auto
qed

text \<open>
  The claim C4 as it is stated fails when two of the five snippets share an identifier.
  \<open>Aa.sql\<close> and \<open>BB.sql\<close> do (the rolling hash of \<open>Aa\<close> and of \<open>BB\<close> is 2112). Sorted
  by name the store lists \<open>Aa, BB, c, d, e\<close>; the first page of two is \<open>Aa, BB\<close> with
  the id of \<open>BB\<close> as cursor; the page after this cursor starts after \<open>Aa\<close>, the first
  entry with that id, and is \<open>BB, c\<close> instead of items 3 and 4, \<open>c, d\<close>.
\<close>

theorem C4_counterexample:
  "map_sum id (map_prod id (map snippet.Name))
     (fst (getSnippets asciiOnly [] 2 [] ''name'' ''asc'' None wColl))
     = Inr (''10885c07-2566-4fd5-bc4c-2ed64b2e87be'', [''Aa'', ''BB''])
   \<and> map_sum id (map_prod id (map snippet.Name))
     (fst (getSnippets asciiOnly [] 2 ''10885c07-2566-4fd5-bc4c-2ed64b2e87be'' ''name'' ''asc''
             None (snd (getSnippets asciiOnly [] 2 [] ''name'' ''asc'' None wColl))))
     = Inr (''49e8f940-7e29-4383-a592-ad77a5018dc5'', [''BB'', ''c''])
   \<and> map_sum id (map_prod id (map snippet.Name))
     (fst (getSnippets asciiOnly [] 1000 [] ''name'' ''asc'' None wColl))
     = Inr ([], [''Aa'', ''BB'', ''c'', ''d'', ''e''])"
  by code_simp

section \<open>Deleting a snippet\<close>

lemma scan_wTwo:
  "fst (getFilesystemEntries wTwo)
     = Inr [\<lparr>filesystemEntry.ID = ''6acd8c03-4c0e-4e34-8202-00dca1e2ccd6'', Name = ''a'',
              Type = TFile, FolderID = None, Content = ''select 1'', CreatedAt = 1\<rparr>,
            \<lparr>filesystemEntry.ID = ''5a5ac3a1-659c-49db-934a-56a9a3f1acce'', Name = ''b'',
              Type = TFile, FolderID = None, Content = ''select 2'', CreatedAt = 2\<rparr>]"
  by code_simp

lemma find_None_list_ex: "find P xs = None \<longleftrightarrow> \<not> list_ex P xs"
  by (auto simp: find_None_iff list_ex_iff)

lemma find_filter_Cons: "filter P xs = y # ys \<Longrightarrow> find P xs = Some y"
  by (induction xs) (auto split: if_splits)

text \<open>Joining plain names gives the path made of them.\<close>

lemma splitSep_plain: "CHR ''/'' \<notin> set s \<Longrightarrow> splitSep s = [s]"
  by (induction s) auto

lemma filepath_Join_plain:
  assumes "plainName a"
  shows "filepath_Join [a] = Some [a]"
    and "plainName b \<Longrightarrow> filepath_Join [a, b] = Some [a, b]"
  using assms by (simp_all add: filepath_Join_def plainName_def splitSep_plain)

text \<open>What well-formedness says about the entries of a tree.\<close>

lemma wfDir_entries:
  assumes "wfDir d" and "(n, x) \<in> set d"
  shows "plainName n" and "map_of d n = Some x" and "n \<noteq> []"
proof -
  show p: "plainName n"
    using assms by (force simp: wfDir_def list_all_iff)
  show "map_of d n = Some x"
    using assms by (simp add: wfDir_def)
  show "n \<noteq> []"
    using p by (simp add: plainName_def)
qed

lemma wfTree_entries:
  assumes "wfTree d"
  shows "wfDir d" and "(n, DirNode mt kids) \<in> set d \<Longrightarrow> wfDir kids"
  using assms by (force simp: wfTree_def list_all_iff)+

text \<open>
  Where the file entries of a scan come from, when no top-level directory has an empty
  name: from an \<open>.sql\<close> file of the root, or from an \<open>.sql\<close> file of a top-level
  directory.
\<close>

lemma walkFolder_file_sources:
  assumes "e \<in> set (fst (walkFolder fn ks g))" and "fn \<noteq> []"
  shows "filesystemEntry.FolderID e = Some (spec_identify [fn])
       \<and> (\<exists>c t. (filesystemEntry.Name e @ ''.sql'', FileNode c t) \<in> set ks)"
  using assms(1)
proof (induction ks arbitrary: g)
  case Nil
  then show ?case by simp
next
  case (Cons k ks)
  obtain m d where k: "k = (m, d)" by (cases k)
  from Cons.prems consider
      "e \<in> set (fst (fst (walk [fn, m] m d g)))"
    | "e \<in> set (fst (walkFolder fn ks (snd (walk [fn, m] m d g))))"
    by (auto simp: k split_beta)
  then show ?case
  proof cases
    case 1
    show ?thesis
    proof (cases d)
      case (DirNode mt kids)
      then show ?thesis using 1 by (simp add: walk_dir_deep)
    next
      case (FileNode c t)
      show ?thesis
      proof (cases "strings_HasSuffix m ''.sql''")
        case True
        then show ?thesis
          using 1 assms(2) TrimSuffix_append [OF True]
          by (auto simp: FileNode k walk_file_in_folder deterministicUUID_single)
      next
        case False
        then show ?thesis using 1 by (simp add: FileNode walk_file_other)
      qed
    qed
  next
    case 2
    from Cons.IH [OF 2] show ?thesis by auto
  qed
qed

lemma walkDir_file_sources:
  assumes "e \<in> set (fst (walkDir n d g))" and "filesystemEntry.Type e = TFile"
    and "(\<exists>mt kids. d = DirNode mt kids) \<longrightarrow> n \<noteq> []"
  shows "(filesystemEntry.FolderID e = None
            \<and> (\<exists>c mt. n = filesystemEntry.Name e @ ''.sql'' \<and> d = FileNode c mt))
       \<or> (\<exists>mt kids c t. d = DirNode mt kids
            \<and> filesystemEntry.FolderID e = Some (spec_identify [n])
            \<and> (filesystemEntry.Name e @ ''.sql'', FileNode c t) \<in> set kids)"
proof (cases d)
  case (FileNode c mt)
  show ?thesis
  proof (cases "strings_HasSuffix n ''.sql''")
    case True
    then show ?thesis
      using assms(1) TrimSuffix_append [OF True]
      by (auto simp: FileNode walkDir_file walk_file_root)
  next
    case False
    then show ?thesis
      using assms(1) by (simp add: FileNode walkDir_file walk_file_other)
  qed
next
  case (DirNode mt kids)
  then have ne: "n \<noteq> []" using assms(3) by blast
  have "e \<in> set (fst (walkFolder n (os_ReadDir kids) (snd (deterministicUUID [n] g))))"
    using assms(1,2) by (auto simp: DirNode walkDir_dir)
  from walkFolder_file_sources [OF this ne] show ?thesis
    by (auto simp: DirNode set_os_ReadDir)
qed

lemma walkRoot_file_sources:
  assumes "e \<in> set (fst (walkRoot ds g))" and "filesystemEntry.Type e = TFile"
    and "\<And>mt kids. ([], DirNode mt kids) \<notin> set ds"
  shows "(filesystemEntry.FolderID e = None
            \<and> (\<exists>c mt. (filesystemEntry.Name e @ ''.sql'', FileNode c mt) \<in> set ds))
       \<or> (\<exists>fn mt kids c t. (fn, DirNode mt kids) \<in> set ds
            \<and> filesystemEntry.FolderID e = Some (spec_identify [fn])
            \<and> (filesystemEntry.Name e @ ''.sql'', FileNode c t) \<in> set kids)"
  using assms(1,3)
proof (induction ds arbitrary: g)
  case Nil
  then show ?case by simp
next
  case (Cons k ds)
  obtain n d where k: "k = (n, d)" by (cases k)
  from Cons.prems(1) consider
      "e \<in> set (fst (walkDir n d g))"
    | "e \<in> set (fst (walkRoot ds (snd (walkDir n d g))))"
    by (auto simp: k split_beta)
  then show ?case
  proof cases
    case 1
    have "(\<exists>mt kids. d = DirNode mt kids) \<longrightarrow> n \<noteq> []"
      using Cons.prems(2) by (auto simp: k)
    from walkDir_file_sources [OF 1 assms(2) this] show ?thesis
      by (simp add: k) blast
  next
    case 2
    have "\<And>mt kids. ([], DirNode mt kids) \<notin> set ds"
      using Cons.prems(2) by auto
    from Cons.IH [OF 2 this] show ?thesis
      by (simp add: k) blast
  qed
qed

lemma HasSuffix_append: "strings_HasSuffix (x @ suf) suf"
  by (simp add: strings_HasSuffix_def)

lemma TrimSuffix_appended: "strings_TrimSuffix (x @ suf) suf = x"
  by (simp add: strings_TrimSuffix_def strings_HasSuffix_def)

text \<open>
  A file entry of the scan of a tree \<open>ds'\<close> whose \<open>.sql\<close> files are files of the tree
  \<open>ds\<close>, all but the one at \<open>key\<close> (a folder identifier, or none, and a file name): the
  scan of \<open>ds\<close> has a file entry with the same identifier that does not come from \<open>key\<close>.
\<close>

lemma scan_files_subset:
  assumes e': "e' \<in> set (fst (walkRoot ds' g'))" "filesystemEntry.Type e' = TFile"
    and noempty: "\<And>mt kids. ([], DirNode mt kids) \<notin> set ds'"
    and R: "\<And>n c mt. (n, FileNode c mt) \<in> set ds' \<Longrightarrow>
              (n, FileNode c mt) \<in> set ds \<and> (None, n) \<noteq> key"
    and F: "\<And>fn mt kids m c t. (fn, DirNode mt kids) \<in> set ds' \<Longrightarrow>
              (m, FileNode c t) \<in> set kids \<Longrightarrow>
              \<exists>mt0 kids0. (fn, DirNode mt0 kids0) \<in> set ds \<and> (m, FileNode c t) \<in> set kids0
                \<and> (Some (spec_identify [fn]), m) \<noteq> key"
  shows "\<exists>e\<in>set (fst (walkRoot ds g)). filesystemEntry.Type e = TFile
           \<and> filesystemEntry.ID e = filesystemEntry.ID e'
           \<and> (filesystemEntry.FolderID e, filesystemEntry.Name e @ ''.sql'') \<noteq> key"
proof -
  have id': "filesystemEntry.ID e' =
      spec_identify (idInputs (filesystemEntry.Name e') (filesystemEntry.FolderID e'))"
    using e' by (rule walkRoot_file_entries)
  from walkRoot_file_sources [OF e' noempty] consider
      (root) c mt where "filesystemEntry.FolderID e' = None"
        "(filesystemEntry.Name e' @ ''.sql'', FileNode c mt) \<in> set ds'"
    | (sub) fn mt kids c t where "(fn, DirNode mt kids) \<in> set ds'"
        "filesystemEntry.FolderID e' = Some (spec_identify [fn])"
        "(filesystemEntry.Name e' @ ''.sql'', FileNode c t) \<in> set kids"
    by blast
  then show ?thesis
  proof cases
    case root
    define n where "n = filesystemEntry.Name e' @ ''.sql''"
    have "(n, FileNode c mt) \<in> set ds" and k: "(None, n) \<noteq> key"
      using R [OF root(2)] by (simp_all add: n_def)
    define e where "e =
      \<lparr>filesystemEntry.ID = spec_identify [n], Name = strings_TrimSuffix n ''.sql'',
        Type = TFile, FolderID = None, Content = c, CreatedAt = mt\<rparr>"
    have "e \<in> set (fst (walkRoot ds g))"
      unfolding e_def using \<open>(n, FileNode c mt) \<in> set ds\<close>
      by (rule scan_has_root_file) (simp add: n_def HasSuffix_append)
    moreover have "filesystemEntry.ID e' = spec_identify [n]"
      using id' root(1) by (simp add: idInputs_def n_def)
    then have "filesystemEntry.Type e = TFile" "filesystemEntry.ID e = filesystemEntry.ID e'"
      "(filesystemEntry.FolderID e, filesystemEntry.Name e @ ''.sql'') \<noteq> key"
      using k by (simp_all add: e_def n_def TrimSuffix_appended)
    ultimately show ?thesis by blast
  next
    case sub
    define m where "m = filesystemEntry.Name e' @ ''.sql''"
    have ne: "fn \<noteq> []"
      using sub(1) noempty by auto
    obtain mt0 kids0 where 0: "(fn, DirNode mt0 kids0) \<in> set ds"
        "(m, FileNode c t) \<in> set kids0" and k: "(Some (spec_identify [fn]), m) \<noteq> key"
      using F [OF sub(1,3)] by (auto simp: m_def)
    define e where "e =
      \<lparr>filesystemEntry.ID = spec_identify [spec_identify [fn], m],
        Name = strings_TrimSuffix m ''.sql'', Type = TFile,
        FolderID = Some (spec_identify [fn]), Content = c, CreatedAt = t\<rparr>"
    have "e \<in> set (fst (walkRoot ds g))"
      unfolding e_def using 0(1) ne 0(2)
      by (rule scan_has_folder_file) (simp add: m_def HasSuffix_append)
    moreover have "filesystemEntry.ID e' = spec_identify [spec_identify [fn], m]"
      using id' sub(2) by (simp add: idInputs_def m_def)
    then have "filesystemEntry.Type e = TFile" "filesystemEntry.ID e = filesystemEntry.ID e'"
      "(filesystemEntry.FolderID e, filesystemEntry.Name e @ ''.sql'') \<noteq> key"
      using k by (simp_all add: e_def m_def TrimSuffix_appended)
    ultimately show ?thesis by blast
  qed
qed

text \<open>The entries of a directory after an entry has been removed, or replaced.\<close>

lemma set_AList_delete: "set (AList.delete k al) = {(n, x) \<in> set al. n \<noteq> k}"
  by (auto simp: AList.delete_eq)

lemma set_AList_update:
  assumes "distinct (map fst al)" and "(n, x) \<in> set (AList.update k v al)"
  shows "(n = k \<and> x = v) \<or> (n \<noteq> k \<and> (n, x) \<in> set al)"
  using assms by (induction al) (force split: if_splits)+

text \<open>
  Two deletes in succession, on a well-formed tree, when exactly one file entry carries
  the id and exactly one folder entry carries the folder id of that entry: the first
  delete removes the file, the second one fails with \<open>errSnippetNotFound\<close>.
\<close>

lemma deleteSnippet_twice:
  assumes conf: "SnippetsFolder w \<noteq> []" "disk w \<noteq> RootFile"
    and wf: "wfTree (tree w)"
    and uniq: "filter (isFile i) (fst (walkRoot (os_ReadDir (tree w)) (uuids w))) = [target]"
    and fold: "\<And>f. filesystemEntry.FolderID target = Some f \<Longrightarrow>
        length (filter (isFolder f) (fst (walkRoot (os_ReadDir (tree w)) (uuids w)))) = 1"
  shows "\<exists>p t. os_Remove (tree w) (now w) p = Inr t
           \<and> fst (deleteSnippet i w) = None \<and> disk (snd (deleteSnippet i w)) = RootDir t
           \<and> fst (deleteSnippet i (snd (deleteSnippet i w))) = Some errSnippetNotFound
           \<and> disk (snd (deleteSnippet i (snd (deleteSnippet i w)))) = RootDir t"
proof -
  define T where "T = tree w"
  define es where "es = fst (walkRoot (os_ReadDir T) (uuids w))"
  define g1 where "g1 = snd (walkRoot (os_ReadDir T) (uuids w))"
  define n0 where "n0 = filesystemEntry.Name target @ ''.sql''"
  define key where "key = (filesystemEntry.FolderID target, n0)"
  have wfd: "wfDir T"
    using wf by (simp add: T_def wfTree_entries)
  have noempty: "([], DirNode mt kids) \<notin> set T" for mt kids
    using wfDir_entries(3) [OF wfd] by blast
  have uniq': "filter (isFile i) es = [target]"
    using uniq by (simp add: es_def T_def)
  have "target \<in> set (filter (isFile i) es)"
    unfolding uniq' by simp
  then have tgt: "target \<in> set es" "isFile i target"
    by simp_all
  have ttype: "filesystemEntry.Type target = TFile"
    using tgt(2) by (simp add: isFile_def)
  have uq: "e = target" if "e \<in> set es" and "isFile i e" for e
  proof -
    have "e \<in> set (filter (isFile i) es)" using that by simp
    then show ?thesis unfolding uniq' by simp
  qed
  have fnd: "find (isFile i) es = Some target"
    using uniq' by (rule find_filter_Cons)
  text \<open>Once the file is removed no file entry carries the id.\<close>
  have finish: "\<exists>p t. os_Remove (tree w) (now w) p = Inr t
           \<and> fst (deleteSnippet i w) = None \<and> disk (snd (deleteSnippet i w)) = RootDir t
           \<and> fst (deleteSnippet i (snd (deleteSnippet i w))) = Some errSnippetNotFound
           \<and> disk (snd (deleteSnippet i (snd (deleteSnippet i w)))) = RootDir t"
    if join: "filepath_Join
                ((case filesystemEntry.FolderID target of
                    None \<Rightarrow> []
                  | Some f \<Rightarrow> map filesystemEntry.Name (filter (isFolder f) es)) @ [n0]) = Some p"
      and rem: "os_Remove T (now w) p = Inr T'"
      and noempty': "\<And>mt kids. ([], DirNode mt kids) \<notin> set T'"
      and R: "\<And>n c mt. (n, FileNode c mt) \<in> set T' \<Longrightarrow>
                (n, FileNode c mt) \<in> set T \<and> (None, n) \<noteq> key"
      and F: "\<And>fn mt kids m c t. (fn, DirNode mt kids) \<in> set T' \<Longrightarrow>
                (m, FileNode c t) \<in> set kids \<Longrightarrow>
                \<exists>mt0 kids0. (fn, DirNode mt0 kids0) \<in> set T \<and> (m, FileNode c t) \<in> set kids0
                  \<and> (Some (spec_identify [fn]), m) \<noteq> key"
    for p T'
  proof -
    define w2 where "w2 = w\<lparr>disk := RootDir T', uuids := g1\<rparr>"
    have first: "deleteSnippet i w = (None, w2)"
      unfolding deleteSnippet_set [OF conf]
      using fnd join rem by (simp add: Let_def es_def [symmetric] T_def [symmetric]
          g1_def [symmetric] n0_def [symmetric] w2_def)
    have conf2: "SnippetsFolder w2 \<noteq> []" "disk w2 \<noteq> RootFile" and t2: "tree w2 = T'"
      and u2: "uuids w2 = g1"
      using conf by (simp_all add: w2_def)
    have none: "\<not> isFile i e'" if e': "e' \<in> set (fst (walkRoot (os_ReadDir T') g1))" for e'
    proof
      assume i: "isFile i e'"
      then have ty: "filesystemEntry.Type e' = TFile"
        by (simp add: isFile_def)
      have "\<exists>e\<in>set (fst (walkRoot (os_ReadDir T) (uuids w))). filesystemEntry.Type e = TFile
           \<and> filesystemEntry.ID e = filesystemEntry.ID e'
           \<and> (filesystemEntry.FolderID e, filesystemEntry.Name e @ ''.sql'') \<noteq> key"
        using e' ty
      proof (rule scan_files_subset)
        show "([], DirNode mt kids) \<notin> set (os_ReadDir T')" for mt kids
          using noempty' by (simp add: set_os_ReadDir)
        show "(n, FileNode c mt) \<in> set (os_ReadDir T) \<and> (None, n) \<noteq> key"
          if "(n, FileNode c mt) \<in> set (os_ReadDir T')" for n c mt
          using R that by (simp add: set_os_ReadDir)
        show "\<exists>mt0 kids0. (fn, DirNode mt0 kids0) \<in> set (os_ReadDir T)
                \<and> (m, FileNode c t) \<in> set kids0 \<and> (Some (spec_identify [fn]), m) \<noteq> key"
          if "(fn, DirNode mt kids) \<in> set (os_ReadDir T')" and "(m, FileNode c t) \<in> set kids"
          for fn mt kids m c t
          using F that by (simp add: set_os_ReadDir)
      qed
      then obtain e where e: "e \<in> set es" "filesystemEntry.Type e = TFile"
          "filesystemEntry.ID e = filesystemEntry.ID e'"
          "(filesystemEntry.FolderID e, filesystemEntry.Name e @ ''.sql'') \<noteq> key"
        unfolding es_def by blast
      have "isFile i e"
        using e(2,3) i by (simp add: isFile_def)
      then have "e = target"
        using e(1) by (rule uq [rotated])
      then show False
        using e(4) by (simp add: key_def n0_def)
    qed
    have "find (isFile i) (fst (walkRoot (os_ReadDir T') g1)) = None"
      using none by (simp add: find_None_iff)
    then have second: "deleteSnippet i w2
        = (Some errSnippetNotFound,
           w2\<lparr>disk := RootDir T', uuids := snd (walkRoot (os_ReadDir T') g1)\<rparr>)"
      unfolding deleteSnippet_set [OF conf2] by (simp add: Let_def t2 u2)
    show ?thesis
      using rem first second by (auto simp: T_def w2_def)
  qed
  have srcs: "(filesystemEntry.FolderID target = None
            \<and> (\<exists>c mt. (n0, FileNode c mt) \<in> set T))
       \<or> (\<exists>fn mt kids c t. (fn, DirNode mt kids) \<in> set T
            \<and> filesystemEntry.FolderID target = Some (spec_identify [fn])
            \<and> (n0, FileNode c t) \<in> set kids)"
    using walkRoot_file_sources [of target "os_ReadDir T" "uuids w"] tgt(1) ttype noempty
    by (simp add: es_def set_os_ReadDir n0_def)
  then consider
      (root) c mt where "filesystemEntry.FolderID target = None" "(n0, FileNode c mt) \<in> set T"
    | (sub) fn mt kids c t where "(fn, DirNode mt kids) \<in> set T"
        "filesystemEntry.FolderID target = Some (spec_identify [fn])"
        "(n0, FileNode c t) \<in> set kids"
    by blast
  then show ?thesis
  proof cases
    case root
    have pl: "plainName n0" and mp: "map_of T n0 = Some (FileNode c mt)"
      using wfDir_entries [OF wfd root(2)] by simp_all
    show ?thesis
    proof (rule finish [of "[n0]" "AList.delete n0 T"])
      show "filepath_Join
              ((case filesystemEntry.FolderID target of
                  None \<Rightarrow> []
                | Some f \<Rightarrow> map filesystemEntry.Name (filter (isFolder f) es)) @ [n0])
            = Some [n0]"
        using pl by (simp add: root(1) filepath_Join_plain)
      show "os_Remove T (now w) [n0] = Inr (AList.delete n0 T)"
        by (simp add: mp)
      show "([], DirNode mt kids) \<notin> set (AList.delete n0 T)" for mt kids
        using noempty by (simp add: set_AList_delete)
      show "(n, FileNode c mt) \<in> set T \<and> (None, n) \<noteq> key"
        if "(n, FileNode c mt) \<in> set (AList.delete n0 T)" for n c mt
        using that by (simp add: set_AList_delete key_def)
      show "\<exists>mt0 kids0. (fn, DirNode mt0 kids0) \<in> set T \<and> (m, FileNode c t) \<in> set kids0
              \<and> (Some (spec_identify [fn]), m) \<noteq> key"
        if "(fn, DirNode mt kids) \<in> set (AList.delete n0 T)" and "(m, FileNode c t) \<in> set kids"
        for fn mt kids m c t
        using that by (auto simp: set_AList_delete key_def root(1))
    qed
  next
    case sub
    define f where "f = spec_identify [fn]"
    have wfk: "wfDir kids"
      using wf sub(1) unfolding T_def by (rule wfTree_entries(2))
    have plf: "plainName fn" and mpf: "map_of T fn = Some (DirNode mt kids)" and ne: "fn \<noteq> []"
      using wfDir_entries [OF wfd sub(1)] by simp_all
    have pl: "plainName n0" and mp: "map_of kids n0 = Some (FileNode c t)"
      using wfDir_entries [OF wfk sub(3)] by simp_all
    text \<open>The folder entry of \<open>fn\<close> is the only one with the folder id.\<close>
    define fe where "fe = \<lparr>filesystemEntry.ID = spec_identify [fn], Name = fn, Type = TFolder,
        FolderID = None, Content = [], CreatedAt = mt\<rparr>"
    have fe: "fe \<in> set es"
      unfolding fe_def es_def using sub(1) ne
      by (intro scan_has_folder) (simp_all add: set_os_ReadDir)
    have "length (filter (isFolder f) es) = 1"
      using fold [of f] sub(2) by (simp add: f_def es_def T_def)
    then obtain x where x: "filter (isFolder f) es = [x]"
      by (auto simp: length_Suc_conv)
    have "fe \<in> set (filter (isFolder f) es)"
      using fe by (simp add: isFolder_def fe_def f_def)
    then have xfe: "filter (isFolder f) es = [fe]"
      unfolding x by simp
    have other: "fn' = fn"
      if "(fn', DirNode mt' kids') \<in> set T" and "spec_identify [fn'] = spec_identify [fn]"
      for fn' mt' kids'
    proof -
      have ne': "fn' \<noteq> []"
        using that(1) noempty by auto
      have "\<lparr>filesystemEntry.ID = spec_identify [fn'], Name = fn', Type = TFolder,
              FolderID = None, Content = [], CreatedAt = mt'\<rparr> \<in> set es"
        unfolding es_def using that(1) ne'
        by (intro scan_has_folder) (simp_all add: set_os_ReadDir)
      then have "\<lparr>filesystemEntry.ID = spec_identify [fn'], Name = fn', Type = TFolder,
              FolderID = None, Content = [], CreatedAt = mt'\<rparr> \<in> set (filter (isFolder f) es)"
        using that(2) by (simp add: isFolder_def f_def)
      then show ?thesis
        unfolding xfe by (simp add: fe_def)
    qed
    define kids2 where "kids2 = AList.delete n0 kids"
    define T' where "T' = AList.update fn (DirNode (now w) kids2) T"
    have dT: "distinct (map fst T)"
      using wfd by (simp add: wfDir_def)
    have ent: "(n = fn \<and> x = DirNode (now w) kids2) \<or> (n \<noteq> fn \<and> (n, x) \<in> set T)"
      if "(n, x) \<in> set T'" for n x
      using set_AList_update [OF dT] that unfolding T'_def by blast
    show ?thesis
    proof (rule finish [of "[fn, n0]" T'])
      show "filepath_Join
              ((case filesystemEntry.FolderID target of
                  None \<Rightarrow> []
                | Some f \<Rightarrow> map filesystemEntry.Name (filter (isFolder f) es)) @ [n0])
            = Some [fn, n0]"
        using plf pl xfe by (simp add: sub(2) f_def [symmetric] filepath_Join_plain fe_def)
      show "os_Remove T (now w) [fn, n0] = Inr T'"
        by (simp add: mpf mp T'_def kids2_def)
      show "([], DirNode mt kids) \<notin> set T'" for mt kids
        using ent [of "[]" "DirNode mt kids"] noempty ne by auto
      show "(n, FileNode c mt) \<in> set T \<and> (None, n) \<noteq> key"
        if "(n, FileNode c mt) \<in> set T'" for n c mt
        using ent [OF that] by (simp add: key_def sub(2))
      show "\<exists>mt0 kids0. (fn', DirNode mt0 kids0) \<in> set T \<and> (m, FileNode c t) \<in> set kids0
              \<and> (Some (spec_identify [fn']), m) \<noteq> key"
        if d: "(fn', DirNode mt' kids') \<in> set T'" and m: "(m, FileNode c t) \<in> set kids'"
        for fn' mt' kids' m c t
      proof (cases "fn' = fn")
        case True
        then have "kids' = kids2"
          using ent [OF d] by simp
        then have "(m, FileNode c t) \<in> set kids" and "m \<noteq> n0"
          using m by (simp_all add: kids2_def set_AList_delete)
        then show ?thesis
          using sub(1) True by (auto simp: key_def)
      next
        case False
        then have in_T: "(fn', DirNode mt' kids') \<in> set T"
          using ent [OF d] by simp
        have "spec_identify [fn'] \<noteq> spec_identify [fn]"
          using other [OF in_T] False by blast
        then show ?thesis
          using in_T m by (auto simp: key_def sub(2))
      qed
    qed
  qed
qed

text \<open>
  A store on which the missing-file branch is reached: two folders share an identifier,
  the path that \<open>deleteSnippet\<close> joins names both of them, and \<open>os.Remove\<close> finds
  nothing there.
\<close>

lemma scan_wTwins:
  "fst (getFilesystemEntries wTwins)
     = Inr [\<lparr>filesystemEntry.ID = ''075558fd-3ef4-4a8e-96e6-d7facf9f5846'', Name = ''Aa'',
              Type = TFolder, FolderID = None, Content = [], CreatedAt = 1\<rparr>,
            \<lparr>filesystemEntry.ID = ''f54bf6d2-30eb-4ba8-9297-a296b7388acc'', Name = ''x'',
              Type = TFile, FolderID = Some ''075558fd-3ef4-4a8e-96e6-d7facf9f5846'',
              Content = ''select 1'', CreatedAt = 2\<rparr>,
            \<lparr>filesystemEntry.ID = ''075558fd-3ef4-4a8e-96e6-d7facf9f5846'', Name = ''BB'',
              Type = TFolder, FolderID = None, Content = [], CreatedAt = 3\<rparr>]"
  by code_simp

text \<open>
  Claim C6, as amended. On a store whose scan succeeds:
  \<^item> \<open>deleteSnippet\<close> fails with \<open>errSnippetNotFound\<close> exactly when no file entry of the
    scan carries the id, and then the disk is as the \<open>os.MkdirAll\<close> of \<open>snippetsDir\<close>
    leaves it (the content of the root directory is unchanged);
  \<^item> otherwise it calls \<open>os.Remove\<close> on the path \<open>p\<close> joined from the first such entry:
    when \<open>os.Remove\<close> finds nothing there (\<open>ENOENT\<close>) the call succeeds and the content of
    the root directory is unchanged, and when \<open>os.Remove\<close> succeeds the call succeeds and
    the root directory is what \<open>os.Remove\<close> left;
  \<^item> on a well-formed tree, when exactly one file entry carries the id and exactly one
    folder entry carries the folder id of that entry, the first of two successive deletes
    succeeds and removes a file, and the second one fails with \<open>errSnippetNotFound\<close> and
    changes nothing;
  \<^item> the error \<open>ENOENT\<close> never comes out of \<open>deleteSnippet\<close>.
\<close>

theorem C6_deleteSnippet:
  assumes "fst (getFilesystemEntries w) = Inr es"
  shows "(fst (deleteSnippet i w) = Some errSnippetNotFound \<longleftrightarrow> \<not> list_ex (isFile i) es)
       \<and> (\<not> list_ex (isFile i) es \<longrightarrow>
            disk (snd (deleteSnippet i w)) = disk (snd (snippetsDir w))
          \<and> tree (snd (deleteSnippet i w)) = tree w)
       \<and> (find (isFile i) es = Some target
          \<and> filepath_Join
              ((case filesystemEntry.FolderID target of
                  None \<Rightarrow> []
                | Some f \<Rightarrow> map filesystemEntry.Name (filter (isFolder f) es))
               @ [filesystemEntry.Name target @ ''.sql'']) = Some p \<longrightarrow>
            (os_Remove (tree w) (now w) p = Inl ENOENT \<longrightarrow>
               fst (deleteSnippet i w) = None
             \<and> disk (snd (deleteSnippet i w)) = disk (snd (snippetsDir w))
             \<and> tree (snd (deleteSnippet i w)) = tree w)
          \<and> (os_Remove (tree w) (now w) p = Inr t \<longrightarrow>
               fst (deleteSnippet i w) = None
             \<and> disk (snd (deleteSnippet i w)) = RootDir t))
       \<and> (wfTree (tree w) \<and> filter (isFile i) es = [only]
          \<and> (\<forall>f. filesystemEntry.FolderID only = Some f \<longrightarrow>
                 length (filter (isFolder f) es) = 1) \<longrightarrow>
            (\<exists>p' t'. os_Remove (tree w) (now w) p' = Inr t'
               \<and> fst (deleteSnippet i w) = None
               \<and> disk (snd (deleteSnippet i w)) = RootDir t'
               \<and> fst (deleteSnippet i (snd (deleteSnippet i w))) = Some errSnippetNotFound
               \<and> disk (snd (deleteSnippet i (snd (deleteSnippet i w)))) = RootDir t'))
       \<and> fst (deleteSnippet i w) \<noteq> Some (errOS ENOENT)"
proof -
  have conf: "SnippetsFolder w \<noteq> []" "disk w \<noteq> RootFile"
    using assms by (rule getFilesystemEntries_Inr, rule getFilesystemEntries_Inr_disk)
  have es: "es = fst (walkRoot (os_ReadDir (tree w)) (uuids w))"
    using assms conf by (simp add: getFilesystemEntries_set)
  note del = deleteSnippet_set [OF conf, of i, folded es]
  note dir = snippetsDir_set [OF conf]
  have a: "fst (deleteSnippet i w) = Some errSnippetNotFound \<longleftrightarrow> \<not> list_ex (isFile i) es"
    unfolding del Let_def find_None_list_ex [symmetric]
    by (auto split: option.splits sum.splits)
  have b: "disk (snd (deleteSnippet i w)) = disk (snd (snippetsDir w))
          \<and> tree (snd (deleteSnippet i w)) = tree w"
    if "\<not> list_ex (isFile i) es"
    using that unfolding del dir Let_def find_None_list_ex [symmetric] by simp
  have c: "(os_Remove (tree w) (now w) p = Inl ENOENT \<longrightarrow>
               fst (deleteSnippet i w) = None
             \<and> disk (snd (deleteSnippet i w)) = disk (snd (snippetsDir w))
             \<and> tree (snd (deleteSnippet i w)) = tree w)
          \<and> (os_Remove (tree w) (now w) p = Inr t \<longrightarrow>
               fst (deleteSnippet i w) = None
             \<and> disk (snd (deleteSnippet i w)) = RootDir t)"
    if "find (isFile i) es = Some target"
      and "filepath_Join
              ((case filesystemEntry.FolderID target of
                  None \<Rightarrow> []
                | Some f \<Rightarrow> map filesystemEntry.Name (filter (isFolder f) es))
               @ [filesystemEntry.Name target @ ''.sql'']) = Some p"
    using that unfolding del dir Let_def by simp
  have d: "\<exists>p' t'. os_Remove (tree w) (now w) p' = Inr t'
               \<and> fst (deleteSnippet i w) = None
               \<and> disk (snd (deleteSnippet i w)) = RootDir t'
               \<and> fst (deleteSnippet i (snd (deleteSnippet i w))) = Some errSnippetNotFound
               \<and> disk (snd (deleteSnippet i (snd (deleteSnippet i w)))) = RootDir t'"
    if "wfTree (tree w)" and "filter (isFile i) es = [only]"
      and "\<forall>f. filesystemEntry.FolderID only = Some f \<longrightarrow> length (filter (isFolder f) es) = 1"
    using that unfolding es by (intro deleteSnippet_twice [OF conf]) auto
  have e: "fst (deleteSnippet i w) \<noteq> Some (errOS ENOENT)"
    unfolding del Let_def by (auto split: option.splits sum.splits)
  from a b c d e show ?thesis by blast
qed

theorem C6_deleteSnippet_witness:
  "fst (getFilesystemEntries wTwo)
     = Inr [\<lparr>filesystemEntry.ID = ''6acd8c03-4c0e-4e34-8202-00dca1e2ccd6'', Name = ''a'',
              Type = TFile, FolderID = None, Content = ''select 1'', CreatedAt = 1\<rparr>,
            \<lparr>filesystemEntry.ID = ''5a5ac3a1-659c-49db-934a-56a9a3f1acce'', Name = ''b'',
              Type = TFile, FolderID = None, Content = ''select 2'', CreatedAt = 2\<rparr>]
   \<and> wfTree (tree wTwo)
   \<and> os_Remove (tree wTwo) (now wTwo) [''a.sql''] = Inr [(''b.sql'', FileNode ''select 2'' 2)]
   \<and> fst (deleteSnippet ''6acd8c03-4c0e-4e34-8202-00dca1e2ccd6'' wTwo) = None
   \<and> disk (snd (deleteSnippet ''6acd8c03-4c0e-4e34-8202-00dca1e2ccd6'' wTwo))
       = RootDir [(''b.sql'', FileNode ''select 2'' 2)]
   \<and> fst (deleteSnippet ''6acd8c03-4c0e-4e34-8202-00dca1e2ccd6''
            (snd (deleteSnippet ''6acd8c03-4c0e-4e34-8202-00dca1e2ccd6'' wTwo)))
       = Some errSnippetNotFound
   \<and> fst (deleteSnippet ''00000000-0000-4000-8000-000000000000'' wTwo) = Some errSnippetNotFound
   \<and> disk (snd (deleteSnippet ''00000000-0000-4000-8000-000000000000'' wTwo)) = disk wTwo
   \<and> os_Remove (tree wTwins) (now wTwins) [''Aa'', ''BB'', ''x.sql''] = Inl ENOENT
   \<and> fst (deleteSnippet ''f54bf6d2-30eb-4ba8-9297-a296b7388acc'' wTwins) = None
   \<and> tree (snd (deleteSnippet ''f54bf6d2-30eb-4ba8-9297-a296b7388acc'' wTwins)) = tree wTwins"
proof -
  define ea where "ea =
    \<lparr>filesystemEntry.ID = ''6acd8c03-4c0e-4e34-8202-00dca1e2ccd6'', Name = ''a'',
      Type = TFile, FolderID = None, Content = ''select 1'', CreatedAt = 1\<rparr>"
  define eb where "eb =
    \<lparr>filesystemEntry.ID = ''5a5ac3a1-659c-49db-934a-56a9a3f1acce'', Name = ''b'',
      Type = TFile, FolderID = None, Content = ''select 2'', CreatedAt = 2\<rparr>"
  define fa where "fa =
    \<lparr>filesystemEntry.ID = ''075558fd-3ef4-4a8e-96e6-d7facf9f5846'', Name = ''Aa'',
      Type = TFolder, FolderID = None, Content = [], CreatedAt = 1\<rparr>"
  define ex where "ex =
    \<lparr>filesystemEntry.ID = ''f54bf6d2-30eb-4ba8-9297-a296b7388acc'', Name = ''x'',
      Type = TFile, FolderID = Some ''075558fd-3ef4-4a8e-96e6-d7facf9f5846'',
      Content = ''select 1'', CreatedAt = 2\<rparr>"
  define fb where "fb =
    \<lparr>filesystemEntry.ID = ''075558fd-3ef4-4a8e-96e6-d7facf9f5846'', Name = ''BB'',
      Type = TFolder, FolderID = None, Content = [], CreatedAt = 3\<rparr>"
  have s2: "fst (getFilesystemEntries wTwo) = Inr [ea, eb]"
    unfolding ea_def eb_def by (rule scan_wTwo)
  have st: "fst (getFilesystemEntries wTwins) = Inr [fa, ex, fb]"
    unfolding fa_def ex_def fb_def by (rule scan_wTwins)
  have wf: "wfTree (tree wTwo)"
    by (simp add: wTwo_def tree_def wfTree_def wfDir_def plainName_def)
  have uq: "filter (isFile ''6acd8c03-4c0e-4e34-8202-00dca1e2ccd6'') [ea, eb] = [ea]"
    and fnd: "find (isFile ''6acd8c03-4c0e-4e34-8202-00dca1e2ccd6'') [ea, eb] = Some ea"
    and fold: "\<forall>f. filesystemEntry.FolderID ea = Some f \<longrightarrow>
                 length (filter (isFolder f) [ea, eb]) = 1"
    and none: "\<not> list_ex (isFile ''00000000-0000-4000-8000-000000000000'') [ea, eb]"
    by (simp_all add: isFile_def ea_def eb_def)
  have jn: "filepath_Join
              ((case filesystemEntry.FolderID ea of
                  None \<Rightarrow> []
                | Some f \<Rightarrow> map filesystemEntry.Name (filter (isFolder f) [ea, eb]))
               @ [filesystemEntry.Name ea @ ''.sql'']) = Some [''a.sql'']"
    by (simp add: ea_def filepath_Join_def)
  have rm: "os_Remove (tree wTwo) (now wTwo) [''a.sql'']
      = Inr [(''b.sql'', FileNode ''select 2'' 2)]"
    by (simp add: wTwo_def tree_def)
  have sd: "disk (snd (snippetsDir wTwo)) = disk wTwo"
    by (simp add: snippetsDir_def wTwo_def)
  have fndx: "find (isFile ''f54bf6d2-30eb-4ba8-9297-a296b7388acc'') [fa, ex, fb] = Some ex"
    by (simp add: isFile_def fa_def ex_def)
  have jnx: "filepath_Join
              ((case filesystemEntry.FolderID ex of
                  None \<Rightarrow> []
                | Some f \<Rightarrow> map filesystemEntry.Name (filter (isFolder f) [fa, ex, fb]))
               @ [filesystemEntry.Name ex @ ''.sql'']) = Some [''Aa'', ''BB'', ''x.sql'']"
    by (simp add: fa_def ex_def fb_def isFolder_def filepath_Join_def)
  have rmx: "os_Remove (tree wTwins) (now wTwins) [''Aa'', ''BB'', ''x.sql''] = Inl ENOENT"
    by (simp add: wTwins_def tree_def)
  note A = C6_deleteSnippet [OF s2, where i = "''6acd8c03-4c0e-4e34-8202-00dca1e2ccd6''"
      and target = ea and p = "[''a.sql'']" and t = "[(''b.sql'', FileNode ''select 2'' 2)]"
      and only = ea]
  note B = C6_deleteSnippet [OF s2, where i = "''00000000-0000-4000-8000-000000000000''"]
  note C = C6_deleteSnippet [OF st, where i = "''f54bf6d2-30eb-4ba8-9297-a296b7388acc''"
      and target = ex and p = "[''Aa'', ''BB'', ''x.sql'']"]
  have 1: "fst (deleteSnippet ''6acd8c03-4c0e-4e34-8202-00dca1e2ccd6'' wTwo) = None
     \<and> disk (snd (deleteSnippet ''6acd8c03-4c0e-4e34-8202-00dca1e2ccd6'' wTwo))
         = RootDir [(''b.sql'', FileNode ''select 2'' 2)]"
    using A fnd jn rm by blast
  have 2: "fst (deleteSnippet ''6acd8c03-4c0e-4e34-8202-00dca1e2ccd6''
            (snd (deleteSnippet ''6acd8c03-4c0e-4e34-8202-00dca1e2ccd6'' wTwo)))
       = Some errSnippetNotFound"
    using A wf uq fold by blast
  have 3: "fst (deleteSnippet ''00000000-0000-4000-8000-000000000000'' wTwo)
       = Some errSnippetNotFound
     \<and> disk (snd (deleteSnippet ''00000000-0000-4000-8000-000000000000'' wTwo)) = disk wTwo"
    using B none sd by simp
  have 4: "fst (deleteSnippet ''f54bf6d2-30eb-4ba8-9297-a296b7388acc'' wTwins) = None
     \<and> tree (snd (deleteSnippet ''f54bf6d2-30eb-4ba8-9297-a296b7388acc'' wTwins)) = tree wTwins"
    using C fndx jnx rmx by blast
  from s2 wf rm 1 2 3 4 rmx show ?thesis
    unfolding ea_def eb_def by blast
qed

text \<open>
  The claim C6 as it is stated fails: with the snippet \<open>a\<close> in the store, the first
  delete of its id succeeds and removes \<open>a.sql\<close>, the second one finds no entry with
  that id and fails with \<open>errSnippetNotFound\<close>.
\<close>

theorem C6_counterexample:
  "map_sum id (map (\<lambda>e. (filesystemEntry.ID e, filesystemEntry.Name e, filesystemEntry.Type e)))
     (fst (getFilesystemEntries wTwo))
     = Inr [(''6acd8c03-4c0e-4e34-8202-00dca1e2ccd6'', ''a'', TFile),
            (''5a5ac3a1-659c-49db-934a-56a9a3f1acce'', ''b'', TFile)]
   \<and> fst (deleteSnippet ''6acd8c03-4c0e-4e34-8202-00dca1e2ccd6'' wTwo) = None
   \<and> tree (snd (deleteSnippet ''6acd8c03-4c0e-4e34-8202-00dca1e2ccd6'' wTwo))
       = [(''b.sql'', FileNode ''select 2'' 2)]
   \<and> fst (deleteSnippet ''6acd8c03-4c0e-4e34-8202-00dca1e2ccd6''
            (snd (deleteSnippet ''6acd8c03-4c0e-4e34-8202-00dca1e2ccd6'' wTwo)))
       = Some errSnippetNotFound"
  by code_simp

section \<open>Sanitising names\<close>

lemma strings_Contains_single: "strings_Contains s [c] \<longleftrightarrow> c \<in> set s"
  by (induction s) (auto simp: strings_HasPrefix_def)

text \<open>
  \<open>sanitizeName\<close> gives the empty string for a name that is not its own base name or
  that holds a null byte, and \<open>createFolder\<close> refuses a name sanitised to the empty
  string after \<open>snippetsDir\<close> and before anything else.
\<close>

lemma sanitizeName_rejects:
  "filepath_Base name \<noteq> name \<or> CHR 0x00 \<in> set name \<Longrightarrow> sanitizeName name = []"
  by (auto simp: sanitizeName_def Let_def strings_Contains_single)

lemma sanitizeName_separator:
  assumes "CHR ''/'' \<in> set name" and "name \<noteq> ''/''"
  shows "sanitizeName name = []"
proof -
  define b where "b = rev (takeWhile (\<lambda>c. c \<noteq> CHR ''/'')
                      (rev (rev (dropWhile (\<lambda>c. c = CHR ''/'') (rev name)))))"
  have ne: "name \<noteq> []" using assms(1) by auto
  have base: "filepath_Base name = (if b = [] then ''/'' else b)"
    using ne by (simp add: filepath_Base_def Let_def b_def)
  have "CHR ''/'' \<notin> set b"
    unfolding b_def set_rev by (auto dest: set_takeWhileD)
  then have "b \<noteq> name"
    using assms(1) by auto
  then have "filepath_Base name \<noteq> name"
    using assms(2) by (simp add: base)
  then show ?thesis
    by (simp add: sanitizeName_rejects)
qed

lemma createFolder_rejects:
  assumes "sanitizeName name = []" and "SnippetsFolder w \<noteq> []" and "disk w \<noteq> RootFile"
  shows "createFolder name w = (Inl errFolderNameRequired, snd (snippetsDir w))"
  using assms by (simp add: createFolder_def snippetsDir_set)

text \<open>
  Claim C7 at the input where the code departs from it. \<open>sanitizeName\<close> rejects both
  names of the claim and \<open>createFolder\<close> refuses the first one with the tree untouched,
  but \<open>saveSnippet\<close> does not look at the result of \<open>sanitizeName\<close>: for the name
  \<open>../../etc/passwd\<close> it writes the file \<open>.sql\<close> into the root and returns a snippet
  with an empty name.
\<close>

theorem C7_saveSnippet_writes_rejected_name:
  "sanitizeName ''../../etc/passwd'' = []
   \<and> sanitizeName (''a'' @ [CHR 0x00] @ ''b'') = []
   \<and> fst (createFolder ''../../etc/passwd'' wEmpty) = Inl errFolderNameRequired
   \<and> tree (snd (createFolder ''../../etc/passwd'' wEmpty)) = []
   \<and> snippet.Name snTraversal = ''../../etc/passwd''
   \<and> tree wEmpty = []
   \<and> map_sum id (\<lambda>s. (snippet.ID s, snippet.Name s, SQL (snippet.Content s)))
        (fst (saveSnippet snTraversal wEmpty))
       = Inr (''bd49f4ef-df5d-49c6-88c0-1cecf9ffd911'', [], ''select 1'')
   \<and> tree (snd (saveSnippet snTraversal wEmpty)) = [(''.sql'', FileNode ''select 1'' 100)]"
  by code_simp

theorem C7_saveSnippet_writes_rejected_name_witness:
  "sanitizeName (snippet.Name snTraversal) = []
   \<and> fst (createFolder (snippet.Name snTraversal) wEmpty) = Inl errFolderNameRequired
   \<and> tree (snd (saveSnippet snTraversal wEmpty)) \<noteq> tree wEmpty"
  using C7_saveSnippet_writes_rejected_name by simp

end
